(* ===== verification/Prelude.thy ===== *)
theory Prelude
  imports Main "HOL-Library.Word" "HOL-Library.Code_Target_Nat"
begin

text \<open>
  Shared vocabulary of the development: machine integers, the three-way outcome of a fallible
  Rust function (\<open>Ok\<close>, \<open>Err\<close> or a panic), byte buffers with windows and in-place writes, and
  the little- and big-endian readings of byte sequences. Everything here is about the language
  and its standard library; the program's own code starts in \<open>Codec_Encoder\<close>.
\<close>

unbundle bit_operations_syntax

named_theorems buf_simps \<open>equations on windows, in-place writes and resizing of buffers\<close>
named_theorems byte_simps \<open>byte-order conversions\<close>
named_theorems oc_simps \<open>the outcome monad\<close>

section \<open>Machine types\<close>

type_synonym byte = "8 word"
type_synonym u8 = "8 word"
type_synonym u16 = "16 word"
type_synonym u32 = "32 word"
type_synonym u64 = "64 word"
type_synonym u256 = "256 word"
type_synonym address = "160 word"
type_synonym buf = "byte list"

section \<open>Outcomes of fallible functions\<close>

text \<open>
  \<open>Result<A, E>\<close> with a third constructor for the runs that end in a panic (a slice out of
  range, an \<open>unwrap\<close> of an error, a failed \<open>assert!\<close>). \<open>oc_bind\<close> is the \<open>?\<close> operator.
\<close>

datatype ('e, 'a) outcome = Ok 'a | Err 'e | Panic

fun oc_bind :: "('e, 'a) outcome \<Rightarrow> ('a \<Rightarrow> ('e, 'b) outcome) \<Rightarrow> ('e, 'b) outcome" where
  "oc_bind (Ok a) f = f a"
| "oc_bind (Err e) f = Err e"
| "oc_bind Panic f = Panic"

definition oc_assert :: "bool \<Rightarrow> ('e, unit) outcome" where
  "oc_assert b = (if b then Ok () else Panic)"

definition ok_or :: "'a option \<Rightarrow> 'e \<Rightarrow> ('e, 'a) outcome" where
  "ok_or x e = (case x of Some a \<Rightarrow> Ok a | None \<Rightarrow> Err e)"

definition oc_unwrap :: "('e, 'a) outcome \<Rightarrow> ('f, 'a) outcome" where
  "oc_unwrap x = (case x of Ok a \<Rightarrow> Ok a | _ \<Rightarrow> Panic)"

definition oc_map_err :: "('e \<Rightarrow> 'f) \<Rightarrow> ('e, 'a) outcome \<Rightarrow> ('f, 'a) outcome" where
  "oc_map_err g x = (case x of Ok a \<Rightarrow> Ok a | Err e \<Rightarrow> Err (g e) | Panic \<Rightarrow> Panic)"

definition oc_ok :: "('e, 'a) outcome \<Rightarrow> 'a option" where
  "oc_ok x = (case x of Ok a \<Rightarrow> Some a | _ \<Rightarrow> None)"

lemma oc_bind_Ok_iff [oc_simps]:
  "(oc_bind x f = Ok b) = (\<exists>a. x = Ok a \<and> f a = Ok b)"
  by (cases x) auto

lemma oc_bind_Panic_iff [oc_simps]:
  "(oc_bind x f = Panic) = (x = Panic \<or> (\<exists>a. x = Ok a \<and> f a = Panic))"
  by (cases x) auto

lemma oc_bind_assoc [oc_simps]:
  "oc_bind (oc_bind x f) g = oc_bind x (\<lambda>a. oc_bind (f a) g)"
  by (cases x) auto

lemma oc_bind_cong [fundef_cong]:
  "x = y \<Longrightarrow> (\<And>a. y = Ok a \<Longrightarrow> f a = g a) \<Longrightarrow> oc_bind x f = oc_bind y g"
  by (cases y) auto

lemma oc_assert_simps [simp]:
  "oc_assert True = Ok ()"
  "oc_assert False = Panic"
  by (simp_all add: oc_assert_def)

lemma ok_or_simps [simp]:
  "ok_or (Some a) e = Ok a"
  "ok_or None e = Err e"
  by (simp_all add: ok_or_def)

lemma ok_or_not_Panic [simp]: "ok_or x e \<noteq> Panic"
  by (cases x) simp_all

lemma oc_unwrap_simps [simp]:
  "oc_unwrap (Ok a) = Ok a"
  "oc_unwrap (Err e) = Panic"
  "oc_unwrap Panic = Panic"
  by (simp_all add: oc_unwrap_def)

lemma oc_map_err_simps [simp]:
  "oc_map_err g (Ok a) = Ok a"
  "oc_map_err g (Err e) = Err (g e)"
  "oc_map_err g Panic = Panic"
  by (simp_all add: oc_map_err_def)

section \<open>Slices of buffers\<close>

text \<open>
  \<open>window b o n\<close> is \<open>b[o..o+n]\<close> and \<open>blit b o w\<close> overwrites \<open>b\<close> from index \<open>o\<close> with \<open>w\<close>. Both are
  total; \<open>slice\<close>, \<open>slice_from\<close> and \<open>write_slice\<close> are the indexing operations of the language, which
  panic when the range does not lie in the buffer.
\<close>

definition window :: "'a list \<Rightarrow> nat \<Rightarrow> nat \<Rightarrow> 'a list" where
  "window b i n = take n (drop i b)"

definition blit :: "'a list \<Rightarrow> nat \<Rightarrow> 'a list \<Rightarrow> 'a list" where
  "blit b i w = take i b @ w @ drop (i + length w) b"

definition slice :: "'a list \<Rightarrow> nat \<Rightarrow> nat \<Rightarrow> ('e, 'a list) outcome" where
  "slice b s e = (if s \<le> e \<and> e \<le> length b then Ok (take (e - s) (drop s b)) else Panic)"

definition slice_from :: "'a list \<Rightarrow> nat \<Rightarrow> ('e, 'a list) outcome" where
  "slice_from b s = (if s \<le> length b then Ok (drop s b) else Panic)"

definition index :: "'a list \<Rightarrow> nat \<Rightarrow> ('e, 'a) outcome" where
  "index b i = (if i < length b then Ok (b ! i) else Panic)"

definition write_slice :: "'a list \<Rightarrow> nat \<Rightarrow> nat \<Rightarrow> 'a list \<Rightarrow> ('e, 'a list) outcome" where
  "write_slice b s e w =
     (if s \<le> e \<and> e \<le> length b \<and> length w = e - s then Ok (blit b s w) else Panic)"

lemma length_window [simp]: "length (window b i n) = min n (length b - i)"
  by (simp add: window_def)

lemma length_blit [simp]: "i + length w \<le> length b \<Longrightarrow> length (blit b i w) = length b"
  by (simp add: blit_def)

lemma window_full [simp]: "window b 0 (length b) = b"
  by (simp add: window_def)

lemma blit_Nil [simp]: "blit b i [] = b"
  by (simp add: blit_def)

lemma nth_window: "j < n \<Longrightarrow> i + n \<le> length b \<Longrightarrow> window b i n ! j = b ! (i + j)"
  by (simp add: window_def)

lemma nth_blit:
  "i + length w \<le> length b \<Longrightarrow> j < length b \<Longrightarrow>
     blit b i w ! j = (if i \<le> j \<and> j < i + length w then w ! (j - i) else b ! j)"
  by (auto simp: blit_def nth_append min_def)

lemma window_blit_same [buf_simps]:
  "i + length w \<le> length b \<Longrightarrow> n = length w \<Longrightarrow> window (blit b i w) i n = w"
  by (simp add: window_def blit_def)

lemma window_blit_disjoint [buf_simps]:
  assumes "i + length w \<le> length b" and "j + n \<le> i \<or> i + length w \<le> j"
  shows "window (blit b i w) j n = window b j n"
proof (rule nth_equalityI)
  show "length (window (blit b i w) j n) = length (window b j n)" using assms by simp
next
  fix k assume k: "k < length (window (blit b i w) j n)"
  with assms have jk: "j + k < length b" and kn: "k < n" by auto
  have "window (blit b i w) j n ! k = blit b i w ! (j + k)"
    using jk kn assms(1) by (simp add: window_def)
  moreover have "window b j n ! k = b ! (j + k)" using jk kn by (simp add: window_def)
  ultimately show "window (blit b i w) j n ! k = window b j n ! k"
    using assms jk kn by (auto simp: nth_blit)
qed

lemma blit_adjacent [buf_simps]:
  "i + length w + length w' \<le> length b \<Longrightarrow>
     blit (blit b i w) (i + length w) w' = blit b i (w @ w')"
  by (simp add: blit_def ac_simps)

lemma blit_inside:
  assumes "i + n \<le> length b" and "j + length w \<le> n"
  shows "blit b (i + j) w = blit b i (blit (window b i n) j w)"
proof (rule nth_equalityI)
  have len: "length (blit (window b i n) j w) = n" using assms by simp
  show "length (blit b (i + j) w) = length (blit b i (blit (window b i n) j w))"
    using assms len by simp
  fix k assume "k < length (blit b (i + j) w)"
  then have k: "k < length b" using assms by simp
  have "blit b (i + j) w ! k = (if i + j \<le> k \<and> k < i + j + length w then w ! (k - (i + j)) else b ! k)"
    using assms k by (intro nth_blit) auto
  moreover have "blit b i (blit (window b i n) j w) ! k =
      (if i \<le> k \<and> k < i + n then blit (window b i n) j w ! (k - i) else b ! k)"
    using assms k len by (subst nth_blit) auto
  moreover have "i \<le> k \<Longrightarrow> k < i + n \<Longrightarrow> blit (window b i n) j w ! (k - i) =
      (if j \<le> k - i \<and> k - i < j + length w then w ! (k - i - j) else window b i n ! (k - i))"
    using assms by (intro nth_blit) auto
  moreover have "i \<le> k \<Longrightarrow> k < i + n \<Longrightarrow> window b i n ! (k - i) = b ! k"
    using assms by (simp add: nth_window)
  ultimately show "blit b (i + j) w ! k = blit b i (blit (window b i n) j w) ! k"
    using assms by auto
qed

lemma blit_overwrite [buf_simps]:
  "i + length w \<le> length b \<Longrightarrow> length w' = length w \<Longrightarrow> blit (blit b i w) i w' = blit b i w'"
  by (simp add: blit_def)

lemma window_of_window:
  "i + n \<le> m \<Longrightarrow> window (window b j m) i n = window b (j + i) n"
  by (simp add: window_def drop_take min_def ac_simps)

lemma window_drop: "window (drop j b) i n = window b (j + i) n"
  by (simp add: window_def add.commute)

lemma window_append: "window b i (n + m) = window b i n @ window b (i + n) m"
  unfolding window_def by (subst take_add) (simp add: add.commute)

lemma blit_split: "i + length w \<le> length b \<Longrightarrow> blit b i w = take i b @ blit (drop i b) 0 w"
  by (simp add: blit_def add.commute)

lemma slice_Ok: "s \<le> e \<Longrightarrow> e \<le> length b \<Longrightarrow> slice b s e = Ok (window b s (e - s))"
  by (simp add: slice_def window_def)

lemma slice_Ok_iff: "(slice b s e = Ok w) = (s \<le> e \<and> e \<le> length b \<and> w = window b s (e - s))"
  by (auto simp: slice_def window_def)

lemma write_slice_Ok:
  "s \<le> e \<Longrightarrow> e \<le> length b \<Longrightarrow> length w = e - s \<Longrightarrow> write_slice b s e w = Ok (blit b s w)"
  by (simp add: write_slice_def)

section \<open>Growing a buffer\<close>

definition resize :: "buf \<Rightarrow> nat \<Rightarrow> buf" where
  "resize b n = (if length b < n then b @ replicate (n - length b) 0 else take n b)"

lemma length_resize [simp]: "length (resize b n) = n"
  by (simp add: resize_def)

section \<open>Unsigned pointer-size arithmetic\<close>

text \<open>
  \<open>usize\<close> values are natural numbers up to \<open>um\<close> (the target's \<open>usize::MAX\<close>). Plain \<open>+\<close> and \<open>*\<close>
  wrap around, as they do in the release profile of the contracts (\<open>overflow-checks = false\<close>);
  the checked variants return \<open>None\<close>.
\<close>

definition usize_add :: "nat \<Rightarrow> nat \<Rightarrow> nat \<Rightarrow> nat" where
  "usize_add um a b = (a + b) mod Suc um"

definition usize_sub :: "nat \<Rightarrow> nat \<Rightarrow> nat \<Rightarrow> nat" where
  "usize_sub um a b = (if b \<le> a then a - b else (a + Suc um) - b)"

definition usize_mul :: "nat \<Rightarrow> nat \<Rightarrow> nat \<Rightarrow> nat" where
  "usize_mul um a b = (a * b) mod Suc um"

definition checked_add_usize :: "nat \<Rightarrow> nat \<Rightarrow> nat \<Rightarrow> nat option" where
  "checked_add_usize um a b = (if a + b \<le> um then Some (a + b) else None)"

definition checked_mul_usize :: "nat \<Rightarrow> nat \<Rightarrow> nat \<Rightarrow> nat option" where
  "checked_mul_usize um a b = (if a * b \<le> um then Some (a * b) else None)"

lemma usize_add_exact [simp]: "a + b \<le> um \<Longrightarrow> usize_add um a b = a + b"
  by (simp add: usize_add_def)

lemma usize_sub_exact [simp]: "b \<le> a \<Longrightarrow> usize_sub um a b = a - b"
  by (simp add: usize_sub_def)

lemma usize_mul_exact [simp]: "a * b \<le> um \<Longrightarrow> usize_mul um a b = a * b"
  by (simp add: usize_mul_def)

section \<open>Checked arithmetic on words\<close>

definition checked_add :: "'a::len word \<Rightarrow> 'a word \<Rightarrow> 'a word option" where
  "checked_add a b = (if unat a + unat b < 2 ^ LENGTH('a) then Some (a + b) else None)"

definition checked_sub :: "'a::len word \<Rightarrow> 'a word \<Rightarrow> 'a word option" where
  "checked_sub a b = (if b \<le> a then Some (a - b) else None)"

definition saturating_mul :: "'a::len word \<Rightarrow> 'a word \<Rightarrow> 'a word" where
  "saturating_mul a b = (if unat a * unat b < 2 ^ LENGTH('a) then a * b else - 1)"

lemma checked_add_Some:
  "checked_add a b = Some c \<Longrightarrow> unat c = unat a + unat b"
  by (auto simp: checked_add_def unat_word_ariths split: if_splits)

lemma checked_sub_Some:
  "checked_sub a b = Some c \<Longrightarrow> unat c + unat b = unat a"
  by (auto simp: checked_sub_def unat_sub word_le_nat_alt split: if_splits)

lemma checked_sub_None: "(checked_sub a b = None) = (a < b)"
  by (auto simp: checked_sub_def)

section \<open>Byte order\<close>

text \<open>
  A number is read from and written to bytes through its little-endian digits; the
  big-endian forms reverse the sequence.
\<close>

fun le_bytes :: "nat \<Rightarrow> nat \<Rightarrow> byte list" where
  "le_bytes 0 x = []"
| "le_bytes (Suc n) x = word_of_nat (x mod 256) # le_bytes n (x div 256)"

fun le_nat :: "byte list \<Rightarrow> nat" where
  "le_nat [] = 0"
| "le_nat (b # bs) = unat b + 256 * le_nat bs"

definition be_bytes :: "nat \<Rightarrow> nat \<Rightarrow> byte list" where
  "be_bytes n x = rev (le_bytes n x)"

definition be_nat :: "byte list \<Rightarrow> nat" where
  "be_nat bs = le_nat (rev bs)"

lemma length_le_bytes [simp]: "length (le_bytes n x) = n"
  by (induction n arbitrary: x) auto

lemma length_be_bytes [simp]: "length (be_bytes n x) = n"
  by (simp add: be_bytes_def)

lemma unat_byte_mod [simp]: "unat (word_of_nat (x mod 256) :: byte) = x mod 256"
  by (simp add: unat_of_nat)

lemma le_nat_le_bytes [byte_simps]: "le_nat (le_bytes n x) = x mod 256 ^ n"
proof (induction n arbitrary: x)
  case (Suc n)
  have "x mod (256 * 256 ^ n) = 256 * (x div 256 mod 256 ^ n) + x mod 256"
    by (rule mod_mult2_eq)
  with Suc show ?case by simp
qed simp

lemma le_nat_bound: "le_nat bs < 256 ^ length bs"
proof (induction bs)
  case (Cons b bs)
  have "unat b < 256" using unsigned_less [of b, where ?'a = nat] by simp
  with Cons show ?case by simp
qed simp

lemma le_bytes_le_nat [byte_simps]: "n = length bs \<Longrightarrow> le_bytes n (le_nat bs) = bs"
proof (induction bs arbitrary: n)
  case (Cons b bs)
  have b: "unat b < 256" using unsigned_less [of b, where ?'a = nat] by simp
  then have "(unat b + 256 * le_nat bs) mod 256 = unat b" by simp
  moreover from b have "(unat b + 256 * le_nat bs) div 256 = le_nat bs" by simp
  ultimately show ?case using Cons by (simp add: word_of_nat_eq_iff)
qed simp

lemma be_nat_be_bytes [byte_simps]: "be_nat (be_bytes n x) = x mod 256 ^ n"
  by (simp add: be_nat_def be_bytes_def le_nat_le_bytes)

lemma be_bytes_be_nat [byte_simps]: "n = length bs \<Longrightarrow> be_bytes n (be_nat bs) = bs"
  by (simp add: be_nat_def be_bytes_def le_bytes_le_nat)

lemma be_nat_bound: "be_nat bs < 256 ^ length bs"
  using le_nat_bound [of "rev bs"] by (simp add: be_nat_def)

definition to_be_bytes :: "'a::len word \<Rightarrow> byte list" where
  "to_be_bytes w = be_bytes ((LENGTH('a) + 7) div 8) (unat w)"

definition to_le_bytes :: "'a::len word \<Rightarrow> byte list" where
  "to_le_bytes w = le_bytes ((LENGTH('a) + 7) div 8) (unat w)"

definition from_be_bytes :: "byte list \<Rightarrow> 'a::len word" where
  "from_be_bytes bs = word_of_nat (be_nat bs)"

definition from_le_bytes :: "byte list \<Rightarrow> 'a::len word" where
  "from_le_bytes bs = word_of_nat (le_nat bs)"

lemma length_to_be_bytes [simp]: "length (to_be_bytes (w :: 'a::len word)) = (LENGTH('a) + 7) div 8"
  by (simp add: to_be_bytes_def)

lemma length_to_le_bytes [simp]: "length (to_le_bytes (w :: 'a::len word)) = (LENGTH('a) + 7) div 8"
  by (simp add: to_le_bytes_def)

lemma unat_fits_bytes: "unat (w :: 'a::len word) < 256 ^ ((LENGTH('a) + 7) div 8)"
proof -
  have "unat w < 2 ^ LENGTH('a)" by (rule unsigned_less)
  also have "\<dots> \<le> 2 ^ (8 * ((LENGTH('a) + 7) div 8))" by (rule power_increasing) auto
  also have "\<dots> = 256 ^ ((LENGTH('a) + 7) div 8)" by (simp add: power_mult)
  finally show ?thesis .
qed

lemma from_to_be_bytes [byte_simps, simp]: "from_be_bytes (to_be_bytes w) = w"
  by (simp add: from_be_bytes_def to_be_bytes_def be_nat_be_bytes unat_fits_bytes)

lemma from_to_le_bytes [byte_simps, simp]: "from_le_bytes (to_le_bytes w) = w"
  by (simp add: from_le_bytes_def to_le_bytes_def le_nat_le_bytes unat_fits_bytes)

lemma to_from_be_bytes [byte_simps]:
  assumes "LENGTH('a::len) = 8 * length bs"
  shows "to_be_bytes (from_be_bytes bs :: 'a word) = bs"
proof -
  have "be_nat bs < 2 ^ LENGTH('a)"
    using be_nat_bound [of bs] assms by (simp add: power_mult)
  then have "unat (word_of_nat (be_nat bs) :: 'a word) = be_nat bs"
    by (simp add: unat_of_nat)
  then show ?thesis using assms
    by (simp add: to_be_bytes_def from_be_bytes_def be_bytes_be_nat)
qed

lemma to_be_bytes_inject [simp]: "(to_be_bytes v = to_be_bytes w) = (v = w)"
  by (metis from_to_be_bytes)

end
