(* ===== verification/Leb128.thy ===== *)
theory Leb128
  imports Prelude
begin

text \<open>
  LEB128 integers (\<open>crates/sdk/src/leb128.rs\<close>): the writers and readers of unsigned and signed 64-bit
  numbers in groups of seven bits. The loops of the writers end because the shifted value shrinks; the
  readers walk over the input and report its end or a number that does not fit.
\<close>

unbundle bit_operations_syntax

type_synonym i64 = "64 word"

definition CONTINUATION_BIT :: u8 where
  "CONTINUATION_BIT = push_bit 7 1"

definition SIGN_BIT :: u8 where
  "SIGN_BIT = push_bit 6 1"

definition low_bits_of_byte :: "u8 \<Rightarrow> u8" where
  "low_bits_of_byte byte = byte AND NOT CONTINUATION_BIT"

definition low_bits_of_u64 :: "u64 \<Rightarrow> u8" where
  "low_bits_of_u64 val = (let byte = val AND 255 in low_bits_of_byte (ucast byte))"

section \<open>write\<close>

function write_unsigned :: "u64 \<Rightarrow> u8 list" where
  "write_unsigned val =
     (let byte = low_bits_of_u64 val; val' = drop_bit 7 val
      in if val' \<noteq> 0 then (byte OR CONTINUATION_BIT) # write_unsigned val' else [byte])"
  by pat_completeness auto
termination
proof (relation "measure unat")
  fix val byte :: "u64" and val' :: u64
  assume "val' = drop_bit 7 val" "val' \<noteq> 0"
  moreover from this(2) have "unat val' \<noteq> 0" by (metis unsigned_eq_0_iff)
  moreover from calculation(1) have "unat val' = unat val div 128" by (simp only: unat_drop_bit_eq drop_bit_eq_div [where 'a = nat]) simp
  ultimately show "(val', val) \<in> measure unat" by simp
qed simp

text \<open>\<open>i64\<close> shifts are arithmetic; the sign decides what \<open>>>\<close> fills in.\<close>

definition magnitude :: "i64 \<Rightarrow> nat" where
  "magnitude w = nat (if sint w < 0 then - sint w - 1 else sint w)"

function write_signed :: "i64 \<Rightarrow> u8 list" where
  "write_signed val =
     (let byte = ucast val :: u8; val6 = signed_drop_bit 6 val; fin = (val6 = 0 \<or> val6 = - 1)
      in if fin then [byte AND NOT CONTINUATION_BIT]
         else (byte OR CONTINUATION_BIT) # write_signed (signed_drop_bit 1 val6))"
  by pat_completeness auto
termination
proof (relation "measure magnitude")
  fix val val6 :: i64 and byte :: u8 and fin
  assume v: "val6 = signed_drop_bit 6 val" "fin = (val6 = 0 \<or> val6 = - 1)" "\<not> fin"
  then have s: "sint val6 = sint val div 64" by (simp add: sint_signed_drop_bit_eq drop_bit_eq_div)
  have "sint val6 \<noteq> 0" "sint val6 \<noteq> - 1"
    using v by (metis signed_0 signed_word_eqI, metis sint_n1 signed_word_eqI)
  moreover have "sint (signed_drop_bit 1 val6) = sint val6 div 2"
    by (simp add: sint_signed_drop_bit_eq drop_bit_eq_div)
  moreover have "sint val6 div 2 * 2 \<le> sint val6" "sint val6 < sint val6 div 2 * 2 + 2" "sint val6 * 64 \<le> sint val"
    "sint val < sint val6 * 64 + 64" unfolding s by linarith+
  ultimately show "(signed_drop_bit 1 val6, val) \<in> measure magnitude"
    unfolding magnitude_def in_measure by (auto simp: nat_less_eq_zless split: if_splits)
qed simp

declare write_unsigned.simps [simp del] write_signed.simps [simp del]

section \<open>read\<close>

datatype leb_error = UnexpectedEof | Overflow

text \<open>The bytes of a number that is too large are skipped before the overflow is reported.\<close>

fun skip_overlong :: "u8 \<Rightarrow> u8 list \<Rightarrow> leb_error + 'a" where
  "skip_overlong byte r =
     (if byte AND CONTINUATION_BIT \<noteq> 0
      then (case r of [] \<Rightarrow> Inl UnexpectedEof | byte' # r' \<Rightarrow> skip_overlong byte' r')
      else Inl Overflow)"

declare skip_overlong.simps [simp del]

fun read_unsigned_from :: "u64 \<Rightarrow> nat \<Rightarrow> u8 list \<Rightarrow> leb_error + u64" where
  "read_unsigned_from result shift [] = Inl UnexpectedEof"
| "read_unsigned_from result shift (byte # r) =
     (if shift = 63 \<and> byte \<noteq> 0 \<and> byte \<noteq> 1 then skip_overlong byte r
      else let result' = result OR push_bit shift (ucast (low_bits_of_byte byte))
           in if byte AND CONTINUATION_BIT = 0 then Inr result' else read_unsigned_from result' (shift + 7) r)"

definition read_unsigned :: "u8 list \<Rightarrow> leb_error + u64" where
  "read_unsigned r = read_unsigned_from 0 0 r"

fun read_signed_from :: "i64 \<Rightarrow> nat \<Rightarrow> u8 list \<Rightarrow> leb_error + i64" where
  "read_signed_from result shift [] = Inl UnexpectedEof"
| "read_signed_from result shift (byte # r) =
     (if shift = 63 \<and> byte \<noteq> 0 \<and> byte \<noteq> 0x7f then skip_overlong byte r
      else let result' = result OR push_bit shift (ucast (low_bits_of_byte byte)); shift' = shift + 7
           in if byte AND CONTINUATION_BIT = 0
              then Inr (if shift' < 64 \<and> SIGN_BIT AND byte = SIGN_BIT then result' OR push_bit shift' (- 1) else result')
              else read_signed_from result' shift' r)"

definition read_signed :: "u8 list \<Rightarrow> leb_error + i64" where
  "read_signed r = read_signed_from 0 0 r"

section \<open>Bits\<close>

lemmas byte_eq_iff = bit_eq_iff [where 'a = "8 word"]
lemmas u64_eq_iff = bit_eq_iff [where 'a = "64 word"]

lemma bit_CONTINUATION [simp]: "bit CONTINUATION_BIT n = (n = 7)" "bit SIGN_BIT n = (n = 6)"
  by (simp_all only: CONTINUATION_BIT_def SIGN_BIT_def bit_push_bit_iff bit_1_iff possible_bit_word) auto

lemma continuation_nonzero [simp]: "CONTINUATION_BIT \<noteq> 0"
  by (simp add: CONTINUATION_BIT_def)

lemma bit_low: "bit (low_bits_of_byte b) n = (bit b n \<and> n < 7)"
  using bit_imp_le_length [of b n] by (auto simp: low_bits_of_byte_def bit_simps)

lemma bit_255: "bit (255 :: u64) n = (n < 8)"
proof -
  have "(255 :: u64) = mask 8" by (simp add: mask_eq_exp_minus_1)
  then show ?thesis by (simp only: bit_mask_iff possible_bit_word) auto
qed

lemma bit_low_u64: "bit (low_bits_of_u64 v) n = (bit v n \<and> n < 7)"
  by (simp only: low_bits_of_u64_def Let_def bit_low bit_unsigned_iff bit_and_iff bit_255 possible_bit_word) auto

lemma continuation_iff: "(b AND CONTINUATION_BIT = 0) = (\<not> bit b 7)"
  by (auto simp: byte_eq_iff bit_simps dest: spec [of _ 7])

lemma sign_iff: "(SIGN_BIT AND b = SIGN_BIT) = bit b 6"
  by (auto simp: byte_eq_iff bit_simps dest: spec [of _ 6])

lemma byte_0_1:
  assumes "\<And>n. bit b n \<Longrightarrow> n = 0"
  shows "b = 0 \<or> b = (1 :: u8)"
proof -
  have "b = (if bit b 0 then 1 else 0)"
    by (rule bit_word_eqI) (use assms in \<open>auto simp: bit_1_iff\<close>)
  then show ?thesis by (auto split: if_splits)
qed

section \<open>Round trips\<close>

text \<open>What is read after \<open>shift\<close> bits: the groups that were read, and the rest of the number above them.\<close>

lemma read_unsigned_write:
  "shift \<le> 63 \<Longrightarrow> \<forall>n. bit v n \<longrightarrow> n + shift < 64 \<Longrightarrow> 7 dvd shift \<Longrightarrow>
   read_unsigned_from result shift (write_unsigned v @ r) = Inr (result OR push_bit shift v)"
proof (induction v arbitrary: result shift rule: write_unsigned.induct)
  case (1 v)
  let ?b = "low_bits_of_u64 v" and ?w = "drop_bit 7 v"
  have w: "write_unsigned v = (if ?w \<noteq> 0 then (?b OR CONTINUATION_BIT) # write_unsigned ?w else [?b])"
    by (subst write_unsigned.simps) (simp add: Let_def)
  show ?case
  proof (cases "?w = 0")
    case True
    have hi: "\<not> bit v n" if "7 \<le> n" for n
      using True that bit_imp_le_length [of v n] by (auto simp: u64_eq_iff bit_simps dest!: spec [of _ "n - 7"])
    have "?b = 0 \<or> ?b = 1" if "shift = 63" using 1(3) that by (intro byte_0_1) (auto simp: bit_low_u64)
    moreover have "ucast (low_bits_of_byte ?b) = v"
      by (auto simp: u64_eq_iff bit_simps bit_low bit_low_u64 dest: hi bit_imp_le_length) (meson hi not_le)
    ultimately show ?thesis using w True by (auto simp: continuation_iff bit_low_u64)
  next
    case False
    then obtain n where n: "bit v n" "7 \<le> n" by (auto simp: u64_eq_iff bit_simps)
    with 1(3) have s: "shift \<noteq> 63" "shift \<le> 56" using 1(2,4) by (auto dest!: spec [of _ n])
    have "read_unsigned_from (result OR push_bit shift (ucast (low_bits_of_byte (?b OR CONTINUATION_BIT)))) (shift + 7) (write_unsigned ?w @ r) =
        Inr ((result OR push_bit shift (ucast (low_bits_of_byte (?b OR CONTINUATION_BIT)))) OR push_bit (shift + 7) ?w)"
    proof (rule 1(1) [OF refl refl False])
      show "\<forall>n. bit ?w n \<longrightarrow> n + (shift + 7) < 64"
      proof (intro allI impI)
        fix n assume "bit ?w n"
        then have "bit v (7 + n)" by (simp add: bit_simps)
        with 1(3) show "n + (shift + 7) < 64" by force
      qed
      show "7 dvd shift + 7" using 1(4) by simp
    qed (use s in simp)
    moreover have "(result OR push_bit shift (ucast (low_bits_of_byte (?b OR CONTINUATION_BIT)))) OR push_bit (shift + 7) ?w = result OR push_bit shift v"
    proof (rule bit_word_eqI)
      fix n assume "n < LENGTH(64)"
      moreover have "7 + (n - (shift + 7)) = n - shift" if "shift + 7 \<le> n" using that by simp
      ultimately show "bit ((result OR push_bit shift (ucast (low_bits_of_byte (?b OR CONTINUATION_BIT)))) OR push_bit (shift + 7) ?w) n =
          bit (result OR push_bit shift v) n"
        by (cases "shift + 7 \<le> n")
          (auto simp: bit_or_iff bit_push_bit_iff bit_unsigned_iff bit_drop_bit_eq bit_low bit_low_u64)
    qed
    ultimately show ?thesis using w False s by (simp add: continuation_iff bit_or_iff Let_def)
  qed
qed

section \<open>Signed numbers\<close>

lemma bit_byte: "bit (ucast v :: u8) n = (bit v n \<and> n < 8)" for v :: i64
  by (auto simp: bit_simps)

lemma bit_sar: "n < 64 \<Longrightarrow> bit (signed_drop_bit k v) n = bit v (min (n + k) 63)" for v :: i64
proof -
  assume "n < 64"
  then have "(if LENGTH(64) - k \<le> n \<and> n < LENGTH(64) then LENGTH(64) - 1 else k + n) = min (n + k) 63"
    by (auto simp: min_def)
  then show ?thesis unfolding bit_signed_drop_bit_iff by (rule arg_cong)
qed

lemma uniform_byte:
  assumes "\<And>n. n < 7 \<Longrightarrow> bit b n = c" "\<not> bit b 7"
  shows "b = (if c then 0x7f else 0 :: u8)"
proof (rule bit_word_eqI)
  fix n assume "n < LENGTH(8)"
  moreover have "(0x7f :: u8) = mask 7" by (simp add: mask_eq_exp_minus_1)
  then have "bit (0x7f :: u8) n = (n < 7 \<and> n < 8)" by (simp only: bit_mask_iff possible_bit_word) auto
  ultimately show "bit b n = bit (if c then 0x7f else 0 :: u8) n" using assms by (cases "n = 7") auto
qed

text \<open>The last group is reached when all higher bits are copies of the sign.\<close>

lemma sar_done: "(signed_drop_bit 6 v = 0 \<or> signed_drop_bit 6 v = - 1) = (\<forall>n. 6 \<le> n \<longrightarrow> n < 64 \<longrightarrow> bit v n = bit v 63)" for v :: i64
proof
  assume d: "signed_drop_bit 6 v = 0 \<or> signed_drop_bit 6 v = - 1"
  show "\<forall>n. 6 \<le> n \<longrightarrow> n < 64 \<longrightarrow> bit v n = bit v 63"
  proof (intro allI impI)
    fix n :: nat assume n: "6 \<le> n" "n < 64"
    have "bit v n = bit (signed_drop_bit 6 v) (n - 6)" "bit v 63 = bit (signed_drop_bit 6 v) 63"
      using n by (simp_all add: bit_sar)
    moreover have "bit (signed_drop_bit 6 v) (n - 6) = bit (signed_drop_bit 6 v) 63" using d n by (elim disjE) simp_all
    ultimately show "bit v n = bit v 63" by simp
  qed
next
  assume h: "\<forall>n. 6 \<le> n \<longrightarrow> n < 64 \<longrightarrow> bit v n = bit v 63"
  have "signed_drop_bit 6 v = (if bit v 63 then - 1 else 0)"
  proof (rule bit_word_eqI)
    fix n assume "n < LENGTH(64)"
    then have n: "n < 64" by simp
    with h [rule_format, of "min (n + 6) 63"] show "bit (signed_drop_bit 6 v) n = bit (if bit v 63 then - 1 else 0 :: i64) n"
      by (simp add: bit_sar)
  qed
  then show "signed_drop_bit 6 v = 0 \<or> signed_drop_bit 6 v = - 1" by (auto split: if_splits)
qed

lemma seven_steps: "shift \<le> 63 \<Longrightarrow> 7 dvd shift \<Longrightarrow> shift = 63 \<or> shift \<le> (56 :: nat)"
proof -
  assume "shift \<le> 63" "7 dvd shift"
  then obtain k where "shift = 7 * k" "k \<le> 9" by (elim dvdE) simp
  then show ?thesis by (cases "k = 9") auto
qed

lemma read_signed_write:
  "shift \<le> 63 \<Longrightarrow> 7 dvd shift \<Longrightarrow> (\<And>n. 63 - shift \<le> n \<Longrightarrow> n < 64 \<Longrightarrow> bit v n = bit v 63) \<Longrightarrow>
   read_signed_from result shift (write_signed v @ r) = Inr (result OR push_bit shift v)"
proof (induction v arbitrary: result shift rule: write_signed.induct)
  case (1 v)
  let ?b = "ucast v :: u8" and ?v6 = "signed_drop_bit 6 v"
  let ?w = "signed_drop_bit 1 ?v6" and ?done = "?v6 = 0 \<or> ?v6 = - 1"
  have w: "write_signed v = (if ?done then [?b AND NOT CONTINUATION_BIT] else (?b OR CONTINUATION_BIT) # write_signed ?w)"
    by (subst write_signed.simps) (simp add: Let_def)
  show ?case
  proof (cases ?done)
    case True
    let ?c = "?b AND NOT CONTINUATION_BIT"
    have hi: "bit v n = bit v 63" if "6 \<le> n" "n < 64" for n by (rule sar_done [THEN iffD1, OF True, rule_format, OF that])
    have c: "bit ?c n = (bit v n \<and> n < 7)" for n by (auto simp: bit_simps bit_byte)
    have small: "?c = 0 \<or> ?c = 0x7f" if "shift = 63"
    proof -
      have "bit ?c n = bit v 63" if "n < 7" for n using 1(4) [of n] \<open>shift = 63\<close> that by (simp add: c)
      then have "?c = (if bit v 63 then 0x7f else 0)" by (intro uniform_byte) (simp_all add: c)
      then show ?thesis by (simp split: if_splits)
    qed
    have "shift = 63 \<or> shift + 7 < 64" using seven_steps [OF 1(2,3)] by auto
    moreover have "result OR push_bit shift (ucast (low_bits_of_byte ?c)) = result OR push_bit shift v" if "shift = 63"
      by (intro bit_word_eqI) (auto simp: that bit_or_iff bit_push_bit_iff bit_unsigned_iff bit_low c)
    moreover have "(if bit ?c 6 then (result OR push_bit shift (ucast (low_bits_of_byte ?c))) OR push_bit (shift + 7) (- 1)
        else result OR push_bit shift (ucast (low_bits_of_byte ?c))) = result OR push_bit shift v" if "shift + 7 < 64"
    proof (rule bit_word_eqI)
      fix n assume n: "n < LENGTH(64)"
      consider "n < shift + 7" | "shift + 7 \<le> n" by linarith
      then show "bit (if bit ?c 6 then (result OR push_bit shift (ucast (low_bits_of_byte ?c))) OR push_bit (shift + 7) (- 1)
        else result OR push_bit shift (ucast (low_bits_of_byte ?c))) n = bit (result OR push_bit shift v) n"
      proof cases
        case 1
        then show ?thesis using n by (auto simp: bit_or_iff bit_push_bit_iff bit_unsigned_iff bit_low c bit_not_iff bit_mask_iff)
      next
        case 2
        then have "bit v (n - shift) = bit v 6" using hi [of "n - shift"] hi [of 6] n by simp
        then show ?thesis using n 2 by (auto simp: bit_or_iff bit_push_bit_iff bit_unsigned_iff bit_low c bit_not_iff bit_mask_iff)
      qed
    qed
    ultimately show ?thesis using w True small by (auto simp: continuation_iff sign_iff c Let_def)
  next
    case False
    have s: "shift \<le> 56"
    proof (rule ccontr)
      assume "\<not> shift \<le> 56"
      then have "shift = 63" using seven_steps [OF 1(2,3)] by simp
      then have "bit v n = bit v 63" if "n < 64" for n using 1(4) [of n] that by simp
      then have ?done unfolding sar_done by blast
      with False show False by simp
    qed
    let ?res = "result OR push_bit shift (ucast (low_bits_of_byte (?b OR CONTINUATION_BIT)))"
    have "read_signed_from ?res (shift + 7) (write_signed ?w @ r) = Inr (?res OR push_bit (shift + 7) ?w)"
    proof (rule 1(1) [OF refl refl refl False])
      fix n assume n: "63 - (shift + 7) \<le> n" "n < 64"
      then have "63 - shift \<le> min (n + 7) 63" by auto
      then have "bit v (min (n + 7) 63) = bit v 63" by (rule 1(4)) simp
      then show "bit ?w n = bit ?w 63" using n(2) by (simp add: bit_sar)
    qed (use s 1(3) in simp_all)
    moreover have "?res OR push_bit (shift + 7) ?w = result OR push_bit shift v"
    proof (rule bit_word_eqI)
      fix n assume "n < LENGTH(64)"
      moreover have "min (n - (shift + 7) + 7) 63 = n - shift" if "shift + 7 \<le> n" "n < 64" using that by simp
      ultimately show "bit (?res OR push_bit (shift + 7) ?w) n = bit (result OR push_bit shift v) n"
        by (cases "shift + 7 \<le> n")
          (auto simp: bit_or_iff bit_push_bit_iff bit_unsigned_iff bit_low bit_byte bit_sar)
    qed
    ultimately show ?thesis using w False s by (simp add: continuation_iff bit_or_iff Let_def)
  qed
qed

text \<open>
  C28. A number written in LEB128, unsigned or signed, is read back as itself, whatever follows it in the buffer:
  the reader stops at the last group, sees no overflow for any 64-bit value, and restores the sign of a signed number.
\<close>

theorem leb128_round_trips:
  "read_unsigned (write_unsigned u @ r) = Inr u \<and> read_signed (write_signed v @ r) = Inr v"
proof
  show "read_unsigned (write_unsigned u @ r) = Inr u"
    unfolding read_unsigned_def using read_unsigned_write [of 0 u 0 r] bit_imp_le_length [of u] by auto
  show "read_signed (write_signed v @ r) = Inr v"
    unfolding read_signed_def
  proof (subst read_signed_write)
    fix n :: nat assume "63 - 0 \<le> n" "n < 64"
    then have "n = 63" by simp
    then show "bit v n = bit v 63" by simp
  qed simp_all
qed

end
