(* ===== verification/Exit_Code.thy ===== *)
theory Exit_Code
  imports Prelude
begin

text \<open>
  Exit codes (\<open>crates/types/src/exit_code.rs\<close>), the result of a system call
  (\<open>crates/types/src/syscall.rs\<close>), and contract computations: a function of the state that gives
  an outcome and the new state. The state is kept on errors, as it is behind the \<open>&mut SDK\<close> the
  contracts work on.
\<close>

section \<open>exit_code.rs\<close>

datatype exit_code =
    ExitCode_Ok
  | ExitCode_Panic
  | InterruptionCalled
  | RootCallOnly
  | MalformedBuiltinParams
  | CallDepthOverflow
  | NonNegativeExitCode
  | UnknownError
  | InputOutputOutOfBounds
  | PrecompileError
  | NotSupportedBytecode
  | StateChangeDuringStaticCall
  | CreateContractSizeLimit
  | CreateContractCollision
  | CreateContractStartingWithEF
  | OutOfMemory
  | InsufficientBalance
  | UnreachableCodeReached
  | MemoryOutOfBounds
  | TableOutOfBounds
  | IndirectCallToNull
  | IntegerDivisionByZero
  | IntegerOverflow
  | BadConversionToInteger
  | StackOverflow
  | BadSignature
  | OutOfFuel
  | UnknownExternalFunction
  | UnexpectedFatalExecutionFailure
  | MissingStorageSlot

fun into_i32 :: "exit_code \<Rightarrow> int" where
  "into_i32 ExitCode_Ok = 0"
| "into_i32 ExitCode_Panic = - 1"
| "into_i32 InterruptionCalled = - 3"
| "into_i32 RootCallOnly = - 1002"
| "into_i32 MalformedBuiltinParams = - 1003"
| "into_i32 CallDepthOverflow = - 1004"
| "into_i32 NonNegativeExitCode = - 1005"
| "into_i32 UnknownError = - 1006"
| "into_i32 InputOutputOutOfBounds = - 1007"
| "into_i32 PrecompileError = - 1008"
| "into_i32 NotSupportedBytecode = - 1009"
| "into_i32 StateChangeDuringStaticCall = - 1010"
| "into_i32 CreateContractSizeLimit = - 1011"
| "into_i32 CreateContractCollision = - 1012"
| "into_i32 CreateContractStartingWithEF = - 1013"
| "into_i32 OutOfMemory = - 1014"
| "into_i32 InsufficientBalance = - 1015"
| "into_i32 UnreachableCodeReached = - 2001"
| "into_i32 MemoryOutOfBounds = - 2002"
| "into_i32 TableOutOfBounds = - 2003"
| "into_i32 IndirectCallToNull = - 2004"
| "into_i32 IntegerDivisionByZero = - 2005"
| "into_i32 IntegerOverflow = - 2006"
| "into_i32 BadConversionToInteger = - 2007"
| "into_i32 StackOverflow = - 2008"
| "into_i32 BadSignature = - 2009"
| "into_i32 OutOfFuel = - 2010"
| "into_i32 UnknownExternalFunction = - 2011"
| "into_i32 UnexpectedFatalExecutionFailure = - 3001"
| "into_i32 MissingStorageSlot = - 3002"

definition all_exit_codes :: "exit_code list" where
  "all_exit_codes =
     [ExitCode_Ok, ExitCode_Panic, InterruptionCalled, RootCallOnly, MalformedBuiltinParams,
      CallDepthOverflow, NonNegativeExitCode, UnknownError, InputOutputOutOfBounds, PrecompileError,
      NotSupportedBytecode, StateChangeDuringStaticCall, CreateContractSizeLimit,
      CreateContractCollision, CreateContractStartingWithEF, OutOfMemory, InsufficientBalance,
      UnreachableCodeReached, MemoryOutOfBounds, TableOutOfBounds, IndirectCallToNull,
      IntegerDivisionByZero, IntegerOverflow, BadConversionToInteger, StackOverflow, BadSignature,
      OutOfFuel, UnknownExternalFunction, UnexpectedFatalExecutionFailure, MissingStorageSlot]"

text \<open>\<open>from_repr\<close> (derived by \<open>strum\<close>) finds the variant with the given discriminant.\<close>

definition from_repr :: "int \<Rightarrow> exit_code option" where
  "from_repr value = find (\<lambda>c. into_i32 c = value) all_exit_codes"

definition exit_code_from :: "int \<Rightarrow> exit_code" where
  "exit_code_from value = (case from_repr value of Some c \<Rightarrow> c | None \<Rightarrow> UnknownError)"

definition is_trap_code :: "exit_code \<Rightarrow> bool" where
  "is_trap_code c = (into_i32 c \<le> - 2000 \<and> into_i32 c > - 3000)"

definition is_ok :: "exit_code \<Rightarrow> bool" where
  "is_ok c = (c = ExitCode_Ok)"

definition is_revert :: "exit_code \<Rightarrow> bool" where
  "is_revert c = (c = ExitCode_Panic)"

definition is_error :: "exit_code \<Rightarrow> bool" where
  "is_error c = (\<not> is_ok c \<and> \<not> is_revert c)"

definition is_fatal_exit_code :: "exit_code \<Rightarrow> bool" where
  "is_fatal_exit_code c = (c = UnexpectedFatalExecutionFailure)"

definition unwrap_exit_code :: "(exit_code, 'a) outcome \<Rightarrow> (exit_code, 'a) outcome" where
  "unwrap_exit_code r = oc_unwrap r"

section \<open>Results of system calls (syscall.rs)\<close>

record 'a syscall_result =
  data :: 'a
  fuel_consumed :: u64
  fuel_refunded :: "64 word"
  status :: exit_code

definition syscall_new :: "'a \<Rightarrow> u64 \<Rightarrow> 64 word \<Rightarrow> exit_code \<Rightarrow> 'a syscall_result" where
  "syscall_new d fc fr st = \<lparr>data = d, fuel_consumed = fc, fuel_refunded = fr, status = st\<rparr>"

definition syscall_ok :: "'a syscall_result \<Rightarrow> (exit_code, 'a) outcome" where
  "syscall_ok r = (if status r = ExitCode_Ok then Ok (data r) else Err (status r))"

definition syscall_unwrap :: "'a syscall_result \<Rightarrow> (exit_code, 'a) outcome" where
  "syscall_unwrap r = (if \<not> is_ok (status r) then Panic else Ok (data r))"

definition unwrap_or_default :: "'a \<Rightarrow> 'a syscall_result \<Rightarrow> 'a" where
  "unwrap_or_default dflt r = (if is_ok (status r) then data r else dflt)"

section \<open>Contract computations\<close>

type_synonym ('s, 'a) comp = "'s \<Rightarrow> (exit_code, 'a) outcome \<times> 's"

definition ret :: "'a \<Rightarrow> ('s, 'a) comp" where
  "ret a s = (Ok a, s)"

definition throw :: "exit_code \<Rightarrow> ('s, 'a) comp" where
  "throw e s = (Err e, s)"

definition cbind :: "('s, 'a) comp \<Rightarrow> ('a \<Rightarrow> ('s, 'b) comp) \<Rightarrow> ('s, 'b) comp" where
  "cbind f g s =
     (case f s of
        (Ok a, s') \<Rightarrow> g a s'
      | (Err e, s') \<Rightarrow> (Err e, s')
      | (Panic, s') \<Rightarrow> (Panic, s'))"

definition lift_oc :: "(exit_code, 'a) outcome \<Rightarrow> ('s, 'a) comp" where
  "lift_oc r s = (r, s)"

definition read_state :: "('s \<Rightarrow> 'a) \<Rightarrow> ('s, 'a) comp" where
  "read_state f s = (Ok (f s), s)"

definition modify :: "('s \<Rightarrow> 's) \<Rightarrow> ('s, unit) comp" where
  "modify f s = (Ok (), f s)"

definition comp_unwrap :: "('s, 'a) comp \<Rightarrow> ('s, 'a) comp" where
  "comp_unwrap f s = (case f s of (r, s') \<Rightarrow> (oc_unwrap r, s'))"

section \<open>Facts\<close>

named_theorems comp_simps

lemma cbind_simps [simp]:
  "f s = (Ok a, s') \<Longrightarrow> cbind f g s = g a s'"
  "f s = (Err e, s') \<Longrightarrow> cbind f g s = (Err e, s')"
  "f s = (Panic, s') \<Longrightarrow> cbind f g s = (Panic, s')"
  by (simp_all add: cbind_def)

lemma comp_basic [comp_simps, simp]:
  "ret a s = (Ok a, s)"
  "throw e s = (Err e, s)"
  "lift_oc r s = (r, s)"
  "read_state h s = (Ok (h s), s)"
  "modify k s = (Ok (), k s)"
  by (simp_all add: ret_def throw_def lift_oc_def read_state_def modify_def)

lemma cbind_ret [simp]: "cbind (ret a) g = g a"
  by (rule ext) simp

lemma cbind_lift [simp]:
  "cbind (lift_oc (Ok a)) g = g a"
  "cbind (lift_oc (Err e)) g = throw e"
  "cbind (lift_oc Panic) g s = (Panic, s)"
  by (simp_all add: fun_eq_iff)

lemma comp_if [comp_simps]: "(if b then f else g) s = (if b then f s else g s)"
  by simp

lemma cbind_read [simp]: "cbind (read_state h) g s = g (h s) s"
  by simp

lemma cbind_assoc: "cbind (cbind f g) h = cbind f (\<lambda>a. cbind (g a) h)"
  by (rule ext) (auto simp: cbind_def split: prod.splits outcome.splits)

lemma cbind_Ok_iff:
  "(cbind f g s = (Ok b, s'')) = (\<exists>a s'. f s = (Ok a, s') \<and> g a s' = (Ok b, s''))"
  by (auto simp: cbind_def split: prod.splits outcome.splits)

lemma syscall_ok_new [simp]: "syscall_ok (syscall_new d fc fr st) = (if st = ExitCode_Ok then Ok d else Err st)"
  by (simp add: syscall_ok_def syscall_new_def)

lemma all_exit_codes_complete: "c \<in> set all_exit_codes"
  by (cases c) (simp_all add: all_exit_codes_def)

text \<open>
  C30. Exit codes survive the passage through the 32-bit integers of the runtime interface, every
  other integer becomes \<open>UnknownError\<close>, and no code is positive: positive values are left to call
  indices of interrupted executions.
\<close>

theorem exit_code_round_trip:
  "exit_code_from (into_i32 c) = c \<and> into_i32 c \<le> 0 \<and>
   (exit_code_from n \<noteq> UnknownError \<longrightarrow> into_i32 (exit_code_from n) = n)"
proof (intro conjI impI)
  show "exit_code_from (into_i32 c) = c"
    by (cases c) (simp_all add: exit_code_from_def from_repr_def all_exit_codes_def)
  show "into_i32 c \<le> 0" by (cases c) simp_all
  assume "exit_code_from n \<noteq> UnknownError"
  then obtain d where d: "from_repr n = Some d" by (auto simp: exit_code_from_def split: option.splits)
  then have "into_i32 d = n" by (auto simp: from_repr_def find_Some_iff)
  with d show "into_i32 (exit_code_from n) = n" by (simp add: exit_code_from_def)
qed

theorem exit_code_round_trip_witness:
  "exit_code_from (- 2010) = OutOfFuel \<and> into_i32 (exit_code_from (- 2010)) = - 2010"
proof -
  have "exit_code_from (- 2010) = OutOfFuel" by (simp add: exit_code_from_def from_repr_def all_exit_codes_def)
  then show ?thesis using exit_code_round_trip [of OutOfFuel "- 2010"] by simp
qed

end
