(* ===== verification/Storage_Base.thy ===== *)
theory Storage_Base
  imports Exit_Code
begin

text \<open>
  The storage layer of the SDK, lower half: the \<open>StorageAPI\<close> interface, the slot operations built on
  it (\<open>crates/sdk/src/storage/mod.rs\<close>) and single packed values (\<open>storage/primitive.rs\<close>). The trait
  is a record of its two methods; the locale \<open>storage_spec\<close> states what a provider promises, in
  terms of the map of readable slots, and is interpreted on the mock storage here and on the
  system context in \<open>System_Context\<close>. The locale \<open>packable\<close> is the contract of \<open>PackableCodec\<close>.
\<close>

section \<open>StorageAPI\<close>

text \<open>
  Reading takes \<open>&self\<close> but may record the access in an interior cell, so both methods return the
  new state.
\<close>

record 's storage_api =
  storage :: "u256 \<Rightarrow> 's \<Rightarrow> u256 syscall_result \<times> 's"
  write_storage :: "u256 \<Rightarrow> u256 \<Rightarrow> 's \<Rightarrow> unit syscall_result \<times> 's"

definition api_ok :: "('s \<Rightarrow> 'a syscall_result \<times> 's) \<Rightarrow> ('s, 'a) comp" where
  "api_ok f s = (case f s of (r, s') \<Rightarrow> (syscall_ok r, s'))"

section \<open>PackableCodec\<close>

text \<open>
  \<open>encode_into\<close> writes into a slice of the caller; \<open>pdecode\<close> is the trait's \<open>decode\<close>. Slices of the
  wrong length make \<open>copy_from_slice\<close> and \<open>try_into().unwrap()\<close> panic.
\<close>

record 'a packable_codec =
  ENCODED_SIZE :: nat
  encode_into :: "'a \<Rightarrow> byte list \<Rightarrow> (exit_code, byte list) outcome"
  pdecode :: "byte list \<Rightarrow> (exit_code, 'a) outcome"

definition copy_from_slice :: "byte list \<Rightarrow> byte list \<Rightarrow> (exit_code, byte list) outcome" where
  "copy_from_slice target src = (if length target = length src then Ok src else Panic)"

definition bool_packable :: "bool packable_codec" where
  "bool_packable =
     \<lparr>ENCODED_SIZE = 1,
      encode_into = (\<lambda>v target. if target = [] then Panic else Ok (target[0 := (if v then 1 else 0)])),
      pdecode = (\<lambda>bytes. oc_bind (index bytes 0) (\<lambda>b. Ok (b \<noteq> 0)))\<rparr>"

text \<open>
  Addresses, the integers of \<open>impl_int_codec!\<close>, \<open>Uint\<close> (\<open>impl_uint_codec!\<close>) and \<open>Signed\<close>
  (\<open>impl_signed_codec!\<close>) are the big-endian bytes of a word of their width.
\<close>

definition address_packable :: "address packable_codec" where
  "address_packable =
     \<lparr>ENCODED_SIZE = 20,
      encode_into = (\<lambda>v target. copy_from_slice target (to_be_bytes v)),
      pdecode = (\<lambda>bytes. if length bytes = 20 then Ok (from_be_bytes bytes) else Panic)\<rparr>"

definition int_packable :: "'a::len word packable_codec" where
  "int_packable =
     \<lparr>ENCODED_SIZE = LENGTH('a) div 8,
      encode_into = (\<lambda>v target. copy_from_slice target (to_be_bytes v)),
      pdecode = (\<lambda>bytes. if length bytes = LENGTH('a) div 8 then Ok (from_be_bytes bytes) else Panic)\<rparr>"

definition uint_packable :: "'a::len word packable_codec" where
  "uint_packable =
     \<lparr>ENCODED_SIZE = LENGTH('a) div 8,
      encode_into = (\<lambda>v target. copy_from_slice target (to_be_bytes v)),
      pdecode = (\<lambda>bytes. if length bytes = LENGTH('a) div 8 then Ok (from_be_bytes bytes) else Panic)\<rparr>"

definition signed_packable :: "'a::len word packable_codec" where
  "signed_packable =
     \<lparr>ENCODED_SIZE = LENGTH('a) div 8,
      encode_into = (\<lambda>v target. copy_from_slice target (to_be_bytes v)),
      pdecode = (\<lambda>bytes. if length bytes = LENGTH('a) div 8 then Ok (from_be_bytes bytes) else Panic)\<rparr>"

definition fixed_bytes_packable :: "nat \<Rightarrow> byte list packable_codec" where
  "fixed_bytes_packable n =
     \<lparr>ENCODED_SIZE = n,
      encode_into = (\<lambda>v target. copy_from_slice target v),
      pdecode = (\<lambda>bytes. if length bytes = n then Ok bytes else Panic)\<rparr>"

section \<open>StorageOps\<close>

definition sload :: "'s storage_api \<Rightarrow> u256 \<Rightarrow> ('s, byte list) comp" where
  "sload api slot = cbind (api_ok (storage api slot)) (\<lambda>v. ret (to_be_bytes v))"

definition sstore :: "'s storage_api \<Rightarrow> u256 \<Rightarrow> byte list \<Rightarrow> ('s, unit) comp" where
  "sstore api slot value = api_ok (write_storage api slot (from_be_bytes value))"

definition read_at :: "'s storage_api \<Rightarrow> 'a packable_codec \<Rightarrow> u256 \<Rightarrow> u8 \<Rightarrow> ('s, 'a) comp" where
  "read_at api T slot off =
     (let start = unat off; stop = start + ENCODED_SIZE T
      in cbind (lift_oc (oc_assert (stop \<le> 32)))
         (\<lambda>_. cbind (sload api slot)
         (\<lambda>word. lift_oc (oc_bind (slice word start stop) (pdecode T)))))"

definition write_at :: "'s storage_api \<Rightarrow> 'a packable_codec \<Rightarrow> u256 \<Rightarrow> u8 \<Rightarrow> 'a \<Rightarrow> ('s, unit) comp" where
  "write_at api T slot off value =
     (let start = unat off; stop = start + ENCODED_SIZE T
      in cbind (lift_oc (oc_assert (stop \<le> 32)))
         (\<lambda>_. if ENCODED_SIZE T = 32 \<and> off = 0
              then cbind (lift_oc (encode_into T value (replicate 32 0))) (\<lambda>word. sstore api slot word)
              else cbind (sload api slot)
                   (\<lambda>word. cbind (lift_oc (oc_bind (slice word start stop) (encode_into T value)))
                   (\<lambda>part. cbind (lift_oc (write_slice word start stop part))
                   (\<lambda>word'. sstore api slot word')))))"

section \<open>StoragePrimitive and the layout of types\<close>

text \<open>
  Descriptors and accessors of packable values are a slot and an offset in it. Of the trait
  \<open>StorageLayout\<close> the operations only use the two sizes; \<open>access\<close> is the identity on locations.
\<close>

type_synonym location = "u256 \<times> u8"

record layout =
  BYTES :: nat
  SLOTS :: nat

definition primitive_layout :: "'a packable_codec \<Rightarrow> layout" where
  "primitive_layout T = \<lparr>BYTES = ENCODED_SIZE T, SLOTS = (if ENCODED_SIZE T = 32 then 1 else 0)\<rparr>"

definition get_checked :: "'s storage_api \<Rightarrow> 'a packable_codec \<Rightarrow> location \<Rightarrow> ('s, 'a) comp" where
  "get_checked api T loc = read_at api T (fst loc) (snd loc)"

definition get_value :: "'s storage_api \<Rightarrow> 'a packable_codec \<Rightarrow> location \<Rightarrow> ('s, 'a) comp" where
  "get_value api T loc = comp_unwrap (read_at api T (fst loc) (snd loc))"

definition set_checked :: "'s storage_api \<Rightarrow> 'a packable_codec \<Rightarrow> location \<Rightarrow> 'a \<Rightarrow> ('s, unit) comp" where
  "set_checked api T loc v = write_at api T (fst loc) (snd loc) v"

definition set_value :: "'s storage_api \<Rightarrow> 'a packable_codec \<Rightarrow> location \<Rightarrow> 'a \<Rightarrow> ('s, unit) comp" where
  "set_value api T loc v = comp_unwrap (write_at api T (fst loc) (snd loc) v)"

section \<open>The mock storage (mock.rs)\<close>

type_synonym mock_storage = "u256 \<rightharpoonup> u256"

definition get_slot :: "mock_storage \<Rightarrow> u256 \<Rightarrow> u256" where
  "get_slot m slot = (case m slot of Some v \<Rightarrow> v | None \<Rightarrow> 0)"

definition mock_write_storage :: "u256 \<Rightarrow> u256 \<Rightarrow> mock_storage \<Rightarrow> unit syscall_result \<times> mock_storage" where
  "mock_write_storage slot value m =
     (syscall_new () 0 0 ExitCode_Ok, if value = 0 then m(slot := None) else m(slot \<mapsto> value))"

definition mock_storage_read :: "u256 \<Rightarrow> mock_storage \<Rightarrow> u256 syscall_result \<times> mock_storage" where
  "mock_storage_read slot m = (syscall_new (get_slot m slot) 0 0 ExitCode_Ok, m)"

definition mock_api :: "mock_storage storage_api" where
  "mock_api = \<lparr>storage = mock_storage_read, write_storage = mock_write_storage\<rparr>"

section \<open>The contract of StorageAPI\<close>

definition touch :: "'s storage_api \<Rightarrow> u256 \<Rightarrow> 's \<Rightarrow> 's" where
  "touch api k s = snd (storage api k s)"

definition put_slot :: "'s storage_api \<Rightarrow> u256 \<Rightarrow> u256 \<Rightarrow> 's \<Rightarrow> 's" where
  "put_slot api k v s = snd (write_storage api k v s)"

definition occupies :: "'a packable_codec \<Rightarrow> location \<Rightarrow> (u256 \<times> nat) set" where
  "occupies T loc = {(fst loc, i) | i. unat (snd loc) \<le> i \<and> i < unat (snd loc) + ENCODED_SIZE T}"

definition fits :: "'a packable_codec \<Rightarrow> location \<Rightarrow> bool" where
  "fits T loc = (unat (snd loc) + ENCODED_SIZE T \<le> 32)"

text \<open>
  \<open>lookup\<close> is the map of readable slots and \<open>rest\<close> everything of the state that storage operations
  leave alone. Reads do not change the map, an unreadable slot is reported as missing, writes
  always succeed and change one slot.
\<close>

locale storage_spec =
  fixes api :: "'s storage_api" and lookup :: "'s \<Rightarrow> u256 \<Rightarrow> u256 option" and rest :: "'s \<Rightarrow> 'r"
  assumes read_hit: "lookup s k = Some v \<Longrightarrow> syscall_ok (fst (storage api k s)) = Ok v"
    and read_missing: "lookup s k = None \<Longrightarrow> syscall_ok (fst (storage api k s)) = Err MissingStorageSlot"
    and read_lookup: "lookup (touch api k s) = lookup s"
    and read_rest: "rest (touch api k s) = rest s"
    and write_ok: "syscall_ok (fst (write_storage api k v s)) = Ok ()"
    and write_lookup: "lookup (put_slot api k v s) = (lookup s)(k \<mapsto> v)"
    and write_rest: "rest (put_slot api k v s) = rest s"
begin

lemma sload_hit: "lookup s k = Some v \<Longrightarrow> sload api k s = (Ok (to_be_bytes v), touch api k s)"
  using read_hit [of s k v] by (cases "storage api k s") (simp add: sload_def cbind_def api_ok_def touch_def)

lemma sload_missing: "lookup s k = None \<Longrightarrow> sload api k s = (Err MissingStorageSlot, touch api k s)"
  using read_missing [of s k] by (cases "storage api k s") (simp add: sload_def cbind_def api_ok_def touch_def)

lemma sstore_eq: "sstore api k w s = (Ok (), put_slot api k (from_be_bytes w) s)"
  using write_ok [of k "from_be_bytes w" s] 
    by (cases "write_storage api k (from_be_bytes w) s") (simp add: sstore_def api_ok_def put_slot_def)

lemma read_at_hit:
  assumes "lookup s slot = Some w" "unat off + ENCODED_SIZE T \<le> 32"
  shows "read_at api T slot off s =
     (pdecode T (window (to_be_bytes w) (unat off) (ENCODED_SIZE T)), touch api slot s)"
  using assms sload_hit [OF assms(1)] by (simp add: read_at_def Let_def slice_Ok)

lemma read_at_missing:
  assumes "lookup s slot = None" "unat off + ENCODED_SIZE T \<le> 32"
  shows "read_at api T slot off s = (Err MissingStorageSlot, touch api slot s)"
  using assms sload_missing [OF assms(1)] by (simp add: read_at_def Let_def)

lemma get_checked_cong:
  assumes "lookup s (fst loc) = lookup s' (fst loc)" "fits T loc"
  shows "fst (get_checked api T loc s) = fst (get_checked api T loc s')"
  using assms by (cases "lookup s' (fst loc)") (simp_all add: get_checked_def fits_def read_at_hit read_at_missing)

lemmas storage_laws = read_lookup read_rest write_lookup write_rest sload_hit sload_missing sstore_eq

end

interpretation mock: storage_spec mock_api "\<lambda>m k. Some (get_slot m k)" "\<lambda>_. ()"
  by unfold_locales
    (auto simp: mock_api_def mock_storage_read_def mock_write_storage_def touch_def put_slot_def get_slot_def
      syscall_ok_def syscall_new_def fun_eq_iff split: option.splits)

section \<open>The contract of PackableCodec\<close>

text \<open>
  \<open>enc v\<close> is the encoding of \<open>v\<close>: the same for every target slice of the right length, and its
  inverse is total on slices of that length.
\<close>

locale packable =
  fixes T :: "'a packable_codec" and enc :: "'a \<Rightarrow> byte list" and valid :: "'a \<Rightarrow> bool"
  assumes size_le: "ENCODED_SIZE T \<le> 32"
    and size_pos: "0 < ENCODED_SIZE T"
    and enc_length: "valid v \<Longrightarrow> length (enc v) = ENCODED_SIZE T"
    and encode_into: "valid v \<Longrightarrow> length t = ENCODED_SIZE T \<Longrightarrow> encode_into T v t = Ok (enc v)"
    and decode_enc: "valid v \<Longrightarrow> pdecode T (enc v) = Ok v"
    and decode_total: "length t = ENCODED_SIZE T \<Longrightarrow> \<exists>v. pdecode T t = Ok v \<and> valid v"

lemma word_packable:
  assumes "ENCODED_SIZE T = LENGTH('a) div 8"
    "encode_into T = (\<lambda>v target. copy_from_slice target (to_be_bytes v))"
    "pdecode T = (\<lambda>bytes. if length bytes = LENGTH('a) div 8 then Ok (from_be_bytes bytes) else Panic)"
    and "8 dvd LENGTH('a::len)" "LENGTH('a) \<le> 256"
  shows "packable (T :: 'a word packable_codec) to_be_bytes (\<lambda>_. True)"
proof -
  have e: "(LENGTH('a) + 7) div 8 = LENGTH('a) div 8" using assms(4) by auto
  have "8 \<le> LENGTH('a)" using assms(4) len_gt_0 [where ?'a = 'a] by (auto intro: dvd_imp_le simp del: len_gt_0)
  then have "0 < LENGTH('a) div 8" by simp
  then show ?thesis using e assms(5)
    by unfold_locales (auto simp: assms(1-3) copy_from_slice_def)
qed

lemma fixed_bytes_packable: "0 < n \<Longrightarrow> n \<le> 32 \<Longrightarrow> packable (fixed_bytes_packable n) id (\<lambda>v. length v = n)"
  by unfold_locales (auto simp: fixed_bytes_packable_def copy_from_slice_def)

interpretation bool_codec: packable bool_packable "\<lambda>v. [if v then 1 else 0]" "\<lambda>_. True"
  by unfold_locales (auto simp: bool_packable_def index_def length_Suc_conv)

interpretation address_codec: packable address_packable to_be_bytes "\<lambda>_. True"
  by (rule word_packable) (simp_all add: address_packable_def)

interpretation u64_codec: packable "int_packable :: u64 packable_codec" to_be_bytes "\<lambda>_. True"
  by (rule word_packable) (simp_all add: int_packable_def)

interpretation u256_codec: packable "uint_packable :: u256 packable_codec" to_be_bytes "\<lambda>_. True"
  by (rule word_packable) (simp_all add: uint_packable_def)

interpretation i128_codec: packable "signed_packable :: 128 word packable_codec" to_be_bytes "\<lambda>_. True"
  by (rule word_packable) (simp_all add: signed_packable_def)

section \<open>Packed values in storage\<close>

definition stored_word :: "u256 \<Rightarrow> nat \<Rightarrow> byte list \<Rightarrow> u256" where
  "stored_word w i part = from_be_bytes (blit (to_be_bytes w) i part)"

lemma to_be_stored_word [simp]:
  "i + length part \<le> 32 \<Longrightarrow> to_be_bytes (stored_word w i part) = blit (to_be_bytes w) i part"
  by (simp add: stored_word_def to_from_be_bytes)

lemma occupies_disjoint:
  assumes "occupies T' (slot, off') \<inter> occupies T (slot, off) = {}" "0 < ENCODED_SIZE T"
  shows "unat off' + ENCODED_SIZE T' \<le> unat off \<or> unat off + ENCODED_SIZE T \<le> unat off' \<or> ENCODED_SIZE T' = 0"
proof (rule ccontr)
  assume "\<not> ?thesis"
  then have "(slot, max (unat off) (unat off')) \<in> occupies T' (slot, off') \<inter> occupies T (slot, off)"
    using assms(2) by (auto simp: occupies_def max_def)
  with assms(1) show False by simp
qed

locale packed_storage = storage_spec api lookup rest + packable T enc valid
  for api :: "'s storage_api" and lookup and rest :: "'s \<Rightarrow> 'r"
    and T :: "'a packable_codec" and enc and valid
begin

lemma write_at_full:
  assumes "ENCODED_SIZE T = 32" "valid v"
  shows "write_at api T slot 0 v s = (Ok (), put_slot api slot (from_be_bytes (enc v)) s)"
  using assms encode_into [of v "replicate 32 0"] by (simp add: write_at_def Let_def sstore_eq)

lemma write_at_hit:
  assumes "lookup s slot = Some w" "unat off + ENCODED_SIZE T \<le> 32" "valid v"
  obtains s' where "write_at api T slot off v s = (Ok (), s')"
    "lookup s' = (lookup s)(slot \<mapsto> stored_word w (unat off) (enc v))" "rest s' = rest s"
proof (cases "ENCODED_SIZE T = 32 \<and> off = 0")
  case True
  then have "stored_word w (unat off) (enc v) = from_be_bytes (enc v)"
    using enc_length [OF assms(3)] by (simp add: stored_word_def blit_def)
  with True write_at_full [of v slot s] assms(3) show ?thesis
    by (intro that [of "put_slot api slot (from_be_bytes (enc v)) s"]) (simp_all add: storage_laws)
next
  case False
  have "encode_into T v (window (to_be_bytes w) (unat off) (ENCODED_SIZE T)) = Ok (enc v)"
    using assms(2,3) by (intro encode_into) auto
  with False assms sload_hit [OF assms(1)] enc_length [OF assms(3)] show ?thesis
    by (intro that [of "put_slot api slot (stored_word w (unat off) (enc v)) (touch api slot s)"])
      (auto simp: write_at_def Let_def slice_Ok write_slice_Ok sstore_eq stored_word_def storage_laws)
qed

lemma set_isolated:
  assumes "lookup s (fst loc) \<noteq> None" "fits T loc" "valid v"
  obtains s' where "set_checked api T loc v s = (Ok (), s')" "fst (get_checked api T loc s') = Ok v"
    "\<And>T' loc'. fits T' loc' \<Longrightarrow> occupies T' loc' \<inter> occupies T loc = {} \<Longrightarrow>
       fst (get_checked api T' loc' s') = fst (get_checked api T' loc' s)"
    "\<And>a. a \<noteq> fst loc \<Longrightarrow> lookup s' a = lookup s a" "rest s' = rest s"
proof -
  obtain slot off where loc: "loc = (slot, off)" by (cases loc)
  with assms obtain w where w: "lookup s slot = Some w" and fit: "unat off + ENCODED_SIZE T \<le> 32"
    by (auto simp: fits_def)
  from write_at_hit [OF w fit assms(3)] obtain s' where
    s': "write_at api T slot off v s = (Ok (), s')"
      "lookup s' = (lookup s)(slot \<mapsto> stored_word w (unat off) (enc v))" "rest s' = rest s" .
  show ?thesis
  proof (rule that)
    show "rest s' = rest s" by (rule s'(3))
    show "lookup s' a = lookup s a" if "a \<noteq> fst loc" for a using that by (simp add: s'(2) loc)
    show "set_checked api T loc v s = (Ok (), s')" using s'(1) loc by (simp add: set_checked_def)
    show "fst (get_checked api T loc s') = Ok v"
      using fit enc_length [OF assms(3)] decode_enc [OF assms(3)]
      by (simp add: get_checked_def loc read_at_hit s'(2) window_blit_same)
  next
    fix T' :: "'b packable_codec" and loc' assume o: "fits T' loc'" "occupies T' loc' \<inter> occupies T loc = {}"
    obtain slot' off' where loc': "loc' = (slot', off')" by (cases loc')
    have fit': "unat off' + ENCODED_SIZE T' \<le> 32" using o(1) by (simp add: loc' fits_def)
    show "fst (get_checked api T' loc' s') = fst (get_checked api T' loc' s)"
    proof (cases "slot' = slot")
      case True
      have "unat off' + ENCODED_SIZE T' \<le> unat off \<or> unat off + ENCODED_SIZE T \<le> unat off'
        \<or> ENCODED_SIZE T' = 0"
        using o(2) size_pos True by (intro occupies_disjoint) (simp_all add: loc loc')
      then have "window (to_be_bytes (stored_word w (unat off) (enc v))) (unat off') (ENCODED_SIZE T') =
          window (to_be_bytes w) (unat off') (ENCODED_SIZE T')"
        using fit enc_length [OF assms(3)]
        by (cases "ENCODED_SIZE T' = 0") (simp_all add: window_blit_disjoint window_def [of _ _ 0])
      then show ?thesis using True w fit' by (simp add: get_checked_def loc' read_at_hit s'(2))
    next
      case False
      then show ?thesis using fit'
        by (cases "lookup s slot'") (simp_all add: get_checked_def loc' read_at_hit read_at_missing s'(2))
    qed
  qed
qed

end

end
