(* ===== verification/Journal.thy ===== *)
theory Journal
  imports Storage_Base
begin

text \<open>
  The storage journal of a system contract (\<open>crates/types/src/system/journal_storage.rs\<close>): a
  read-only snapshot of the slots the host handed over, an overlay of the writes, the emitted logs and
  the set of slots that were touched. \<open>journal_lookup\<close> abstracts a journal to the map of readable
  slots, and the lemmas show that the operations implement reads and writes of that map, that the
  overlay never holds a value equal to the snapshot's, and that committing the diff to the snapshot
  gives the map the execution saw.
\<close>

section \<open>journal_storage.rs\<close>

record journal_log =
  topics :: "byte list list"
  log_data :: "byte list"

record journal_storage =
  snapshot :: "u256 \<rightharpoonup> u256"
  dirty_values :: "u256 \<rightharpoonup> u256"
  events :: "journal_log list"
  touched_slots :: "u256 set"

definition journal_new :: "(u256 \<rightharpoonup> u256) \<Rightarrow> journal_storage" where
  "journal_new st = \<lparr>snapshot = st, dirty_values = Map.empty, events = [], touched_slots = {}\<rparr>"

definition journal_read :: "u256 \<Rightarrow> journal_storage \<Rightarrow> u256 option \<times> journal_storage" where
  "journal_read slot j =
     (let v = (case dirty_values j slot of Some v \<Rightarrow> Some v | None \<Rightarrow> snapshot j slot)
      in (v, if v \<noteq> None then j\<lparr>touched_slots := insert slot (touched_slots j)\<rparr> else j))"

definition journal_write :: "u256 \<Rightarrow> u256 \<Rightarrow> journal_storage \<Rightarrow> journal_storage" where
  "journal_write key value j =
     (let j = j\<lparr>touched_slots := insert key (touched_slots j)\<rparr>;
          equals_base = (snapshot j key = Some value)
      in if \<not> equals_base then j\<lparr>dirty_values := (dirty_values j)(key \<mapsto> value)\<rparr>
         else j\<lparr>dirty_values := (dirty_values j)(key := None)\<rparr>)"

definition journal_emit_log :: "byte list list \<Rightarrow> byte list \<Rightarrow> journal_storage \<Rightarrow> journal_storage" where
  "journal_emit_log ts d j = j\<lparr>events := events j @ [\<lparr>topics = ts, log_data = d\<rparr>]\<rparr>"

text \<open>The touched slots leave the journal in the order of the \<open>BTreeSet\<close>.\<close>

definition into_diff :: "journal_storage \<Rightarrow> (u256 \<rightharpoonup> u256) \<times> journal_log list \<times> u256 list" where
  "into_diff j = (dirty_values j, events j, sorted_list_of_set (touched_slots j))"

definition journal_clear :: "journal_storage \<Rightarrow> journal_storage" where
  "journal_clear j = j\<lparr>snapshot := Map.empty, dirty_values := Map.empty, events := [], touched_slots := {}\<rparr>"

section \<open>What a journal stands for\<close>

definition journal_lookup :: "journal_storage \<Rightarrow> u256 \<rightharpoonup> u256" where
  "journal_lookup j = snapshot j ++ dirty_values j"

definition minimal_diff :: "journal_storage \<Rightarrow> bool" where
  "minimal_diff j = (\<forall>k v. dirty_values j k = Some v \<longrightarrow> snapshot j k \<noteq> Some v)"

named_theorems journal_simps

lemma lookup_new [simp]: "journal_lookup (journal_new st) = st"
  by (simp add: journal_lookup_def journal_new_def)

lemma fst_journal_read [journal_simps]: "fst (journal_read k j) = journal_lookup j k"
  by (auto simp: journal_read_def journal_lookup_def Let_def map_add_def split: option.splits)

lemma lookup_read [journal_simps]: "journal_lookup (snd (journal_read k j)) = journal_lookup j"
  by (auto simp: journal_read_def journal_lookup_def Let_def)

lemma lookup_write [journal_simps]: "journal_lookup (journal_write k v j) = (journal_lookup j)(k \<mapsto> v)"
  by (auto simp: journal_write_def journal_lookup_def Let_def map_add_def fun_eq_iff split: option.splits)

lemma lookup_emit_log [journal_simps]: "journal_lookup (journal_emit_log ts d j) = journal_lookup j"
  by (simp add: journal_emit_log_def journal_lookup_def)

lemma journal_frame [journal_simps]:
  "snapshot (snd (journal_read k j)) = snapshot j"
  "events (snd (journal_read k j)) = events j"
  "dirty_values (snd (journal_read k j)) = dirty_values j"
  "snapshot (journal_write k v j) = snapshot j"
  "events (journal_write k v j) = events j"
  "touched_slots (journal_write k v j) = insert k (touched_slots j)"
  "snapshot (journal_emit_log ts d j) = snapshot j"
  "events (journal_emit_log ts d j) = events j @ [\<lparr>topics = ts, log_data = d\<rparr>]"
  by (simp_all add: journal_read_def journal_write_def journal_emit_log_def Let_def)

lemma minimal_new: "minimal_diff (journal_new st)"
  by (simp add: minimal_diff_def journal_new_def)

lemma minimal_read: "minimal_diff j \<Longrightarrow> minimal_diff (snd (journal_read k j))"
  by (simp add: minimal_diff_def journal_simps)

lemma minimal_write: "minimal_diff j \<Longrightarrow> minimal_diff (journal_write k v j)"
  by (auto simp: minimal_diff_def journal_write_def Let_def)

lemma minimal_emit_log: "minimal_diff j \<Longrightarrow> minimal_diff (journal_emit_log ts d j)"
  by (simp add: minimal_diff_def journal_emit_log_def)

section \<open>Runs of a journal\<close>

datatype journal_op =
    ReadSlot u256
  | WriteSlot u256 u256
  | EmitLog "byte list list" "byte list"

fun journal_step :: "journal_op \<Rightarrow> journal_storage \<Rightarrow> journal_storage" where
  "journal_step (ReadSlot k) j = snd (journal_read k j)"
| "journal_step (WriteSlot k v) j = journal_write k v j"
| "journal_step (EmitLog ts d) j = journal_emit_log ts d j"

text \<open>The specification: the map of slots with its last writes, and the logs in order.\<close>

fun map_step :: "journal_op \<Rightarrow> (u256 \<rightharpoonup> u256) \<times> journal_log list \<Rightarrow> (u256 \<rightharpoonup> u256) \<times> journal_log list" where
  "map_step (ReadSlot k) (m, l) = (m, l)"
| "map_step (WriteSlot k v) (m, l) = (m(k \<mapsto> v), l)"
| "map_step (EmitLog ts d) (m, l) = (m, l @ [\<lparr>topics = ts, log_data = d\<rparr>])"

lemma journal_step_refines:
  "(journal_lookup (journal_step op j), events (journal_step op j)) = map_step op (journal_lookup j, events j)"
  by (cases op) (simp_all add: journal_simps)

lemma journal_run_refines:
  "(journal_lookup (fold journal_step ops j), events (fold journal_step ops j)) =
     fold map_step ops (journal_lookup j, events j)"
proof (induction ops arbitrary: j)
  case (Cons op ops)
  then show ?case using journal_step_refines [of op j] by simp
qed simp

lemma journal_step_minimal: "minimal_diff j \<Longrightarrow> minimal_diff (journal_step op j)"
  by (cases op) (simp_all add: minimal_read minimal_write minimal_emit_log)

lemma journal_step_snapshot: "snapshot (journal_step op j) = snapshot j"
  by (cases op) (simp_all add: journal_simps)

lemma journal_run_frame:
  "minimal_diff j \<Longrightarrow> minimal_diff (fold journal_step ops j) \<and> snapshot (fold journal_step ops j) = snapshot j"
  by (induction ops arbitrary: j) (simp_all add: journal_step_minimal journal_step_snapshot)

text \<open>
  C20. A journal implements a plain map of slots: after any sequence of reads, writes and logs,
  committing its diff to the snapshot gives the map that the same writes produce directly, the logs
  are the emitted ones in order, and the diff holds only slots whose value really changed.
\<close>

theorem journal_refines_map:
  "(case into_diff (fold journal_step ops (journal_new st)) of (d, logs, touched) \<Rightarrow>
      fold map_step ops (st, []) = (st ++ d, logs) \<and> \<not> (\<exists>k v. d k = Some v \<and> st k = Some v))"
proof -
  define j where "j = fold journal_step ops (journal_new st)"
  have "minimal_diff j" "snapshot j = st"
    using journal_run_frame [OF minimal_new, of ops st] by (simp_all add: j_def journal_new_def)
  moreover have "(journal_lookup j, events j) = fold map_step ops (st, [])"
    using journal_run_refines [of ops "journal_new st"] by (simp add: j_def journal_new_def journal_lookup_def)
  ultimately show ?thesis by (auto simp flip: j_def simp: into_diff_def journal_lookup_def minimal_diff_def)
qed

end
