(* ===== verification/System_Context.thy ===== *)
theory System_Context
  imports Journal
begin

text \<open>
  The environment a system contract runs in: the context it can read
  (\<open>crates/sdk/src/types/context.rs\<close>), the recoverable state of a frame
  (\<open>crates/sdk/src/system/state.rs\<close>) and the SDK calls on it (\<open>crates/sdk/src/system.rs\<close> and the
  provided methods of \<open>crates/sdk/src/types/sdk.rs\<close>). Its storage calls are interpreted as a
  \<open>storage_spec\<close>.
\<close>

section \<open>context.rs\<close>

record block_context =
  chain_id :: u64
  coinbase :: address
  timestamp :: u64
  number :: u64
  difficulty :: u256
  prev_randao :: "byte list"
  block_gas_limit :: u64
  base_fee :: u256

record tx_context =
  tx_gas_limit :: u64
  tx_nonce :: u64
  tx_gas_price :: u256
  tx_gas_priority_fee :: "u256 option"
  tx_origin :: address
  tx_value :: u256

record contract_context =
  contract_address :: address
  contract_bytecode_address :: address
  contract_caller :: address
  contract_is_static :: bool
  contract_value :: u256
  contract_gas_limit :: u64

record shared_context =
  block :: block_context
  tx :: tx_context
  contract :: contract_context

section \<open>The state of a frame (state.rs, system.rs)\<close>

text \<open>
  \<open>native_fuel\<close> is the fuel counter of the host behind \<open>NativeAPI\<close>. Interruptions are not modelled,
  so their fields are left out.
\<close>

record system_context =
  sys_storage :: journal_storage
  contract_metadata :: "byte list"
  sys_input :: "byte list"
  sys_context :: shared_context
  sys_output :: "byte list"
  transfers :: "(address \<times> u256) list option"
  new_metadata :: "byte list option"
  native_fuel :: u64

record runtime_new_frame_input =
  frame_metadata :: "byte list"
  frame_input :: "byte list"
  frame_context :: "byte list"
  frame_storage :: "(u256 \<rightharpoonup> u256) option"

record runtime_execution_outcome =
  outcome_exit_code :: exit_code
  outcome_output :: "byte list"
  outcome_storage :: "(u256 \<rightharpoonup> u256) option"
  outcome_logs :: "journal_log list"
  outcome_new_metadata :: "byte list option"
  outcome_touched :: "u256 list option"
  outcome_transfers :: "(address \<times> u256) list option"

text \<open>\<open>RecoverableState::new\<close>, with the context already decoded.\<close>

definition recoverable_state_new :: "runtime_new_frame_input \<Rightarrow> shared_context \<Rightarrow> u64 \<Rightarrow> system_context" where
  "recoverable_state_new inp ctx fuel =
     \<lparr>sys_storage = journal_new (case frame_storage inp of Some m \<Rightarrow> m | None \<Rightarrow> Map.empty),
      contract_metadata = frame_metadata inp, sys_input = frame_input inp, sys_context = ctx,
      sys_output = [], transfers = None, new_metadata = None, native_fuel = fuel\<rparr>"

text \<open>
  \<open>finalize\<close> for results other than an interruption, \<open>err\<close> being \<open>result.err()\<close>: the outcome reports
  whatever the state holds, also after an error.
\<close>

definition finalize :: "exit_code option \<Rightarrow> system_context \<Rightarrow> runtime_execution_outcome" where
  "finalize err s =
     (let exit_code = (case err of Some e \<Rightarrow> e | None \<Rightarrow> ExitCode_Ok);
          (st, logs, touched) = into_diff (sys_storage s)
      in \<lparr>outcome_exit_code = exit_code, outcome_output = sys_output s, outcome_storage = Some st,
          outcome_logs = logs, outcome_new_metadata = new_metadata s, outcome_touched = Some touched,
          outcome_transfers = transfers s\<rparr>)"

section \<open>SharedAPI\<close>

definition sys_read :: "nat \<Rightarrow> u32 \<Rightarrow> (system_context, byte list) comp" where
  "sys_read len off = cbind (read_state sys_input) (\<lambda>inp. lift_oc (slice inp (unat off) (unat off + len)))"

definition input_size :: "system_context \<Rightarrow> u32" where
  "input_size s = word_of_nat (length (sys_input s))"

definition bytes_input :: "system_context \<Rightarrow> byte list" where
  "bytes_input s = sys_input s"

definition sys_write :: "byte list \<Rightarrow> (system_context, unit) comp" where
  "sys_write out = modify (\<lambda>s. s\<lparr>sys_output := sys_output s @ out\<rparr>)"

definition emit_log :: "byte list list \<Rightarrow> byte list \<Rightarrow> (system_context, unit) comp" where
  "emit_log ts d = modify (\<lambda>s. s\<lparr>sys_storage := journal_emit_log ts d (sys_storage s)\<rparr>)"

section \<open>StorageAPI\<close>

definition sys_write_storage :: "u256 \<Rightarrow> u256 \<Rightarrow> system_context \<Rightarrow> unit syscall_result \<times> system_context" where
  "sys_write_storage slot value s =
     (syscall_new () 0 0 ExitCode_Ok, s\<lparr>sys_storage := journal_write slot value (sys_storage s)\<rparr>)"

definition sys_storage_read :: "u256 \<Rightarrow> system_context \<Rightarrow> u256 syscall_result \<times> system_context" where
  "sys_storage_read slot s =
     (case journal_read slot (sys_storage s) of
        (Some v, j) \<Rightarrow> (syscall_new v 0 0 ExitCode_Ok, s\<lparr>sys_storage := j\<rparr>)
      | (None, j) \<Rightarrow> (syscall_new 0 0 0 MissingStorageSlot, s\<lparr>sys_storage := j\<rparr>))"

definition sys_api :: "system_context storage_api" where
  "sys_api = \<lparr>storage = sys_storage_read, write_storage = sys_write_storage\<rparr>"

section \<open>SystemAPI\<close>

definition write_contract_metadata :: "byte list \<Rightarrow> (system_context, unit) comp" where
  "write_contract_metadata m = modify (\<lambda>s. s\<lparr>new_metadata := Some m\<rparr>)"

definition transfer_value_to :: "address \<Rightarrow> u256 \<Rightarrow> (system_context, unit) comp" where
  "transfer_value_to addr value s =
     (if contract_is_static (contract (sys_context s)) then (Err StateChangeDuringStaticCall, s)
      else (Ok (), s\<lparr>transfers := Some ((case transfers s of Some l \<Rightarrow> l | None \<Rightarrow> []) @ [(addr, value)])\<rparr>))"

definition FUEL_DENOM_RATE :: u64 where
  "FUEL_DENOM_RATE = 20"

text \<open>The host takes the charged fuel off its counter; the check before the call makes the charge succeed.\<close>

definition sync_evm_gas :: "u64 \<Rightarrow> (system_context, unit) comp" where
  "sync_evm_gas gas_consumed =
     (let fuel = saturating_mul gas_consumed FUEL_DENOM_RATE
      in cbind (read_state native_fuel)
         (\<lambda>fuel_remaining. if fuel > fuel_remaining then throw OutOfFuel
            else modify (\<lambda>s. s\<lparr>native_fuel := native_fuel s - fuel\<rparr>)))"

section \<open>The storage calls keep the contract\<close>

definition sys_lookup :: "system_context \<Rightarrow> u256 \<rightharpoonup> u256" where
  "sys_lookup s = journal_lookup (sys_storage s)"

text \<open>What storage calls leave alone: everything but the journal, and the logs in it.\<close>

type_synonym sys_rest =
  "journal_log list \<times> byte list \<times> byte list \<times> shared_context \<times> byte list \<times> (address \<times> u256) list option
     \<times> byte list option \<times> u64"

definition sys_rest :: "system_context \<Rightarrow> sys_rest" where
  "sys_rest s = (events (sys_storage s), contract_metadata s, sys_input s, sys_context s, sys_output s,
     transfers s, new_metadata s, native_fuel s)"

lemma sys_storage_read_eq:
  "sys_storage_read k s =
     ((case sys_lookup s k of Some v \<Rightarrow> syscall_new v 0 0 ExitCode_Ok | None \<Rightarrow> syscall_new 0 0 0 MissingStorageSlot),
      s\<lparr>sys_storage := snd (journal_read k (sys_storage s))\<rparr>)"
  using fst_journal_read [of k "sys_storage s"]
  by (cases "journal_read k (sys_storage s)") (auto simp: sys_storage_read_def sys_lookup_def split: option.splits)

interpretation sys: storage_spec sys_api sys_lookup sys_rest
  by unfold_locales
    (auto simp: sys_api_def sys_storage_read_eq sys_write_storage_def touch_def put_slot_def sys_lookup_def
      sys_rest_def journal_simps)

text \<open>
  C21. Packed values do not disturb each other: writing a value at a readable location succeeds, the
  location then holds the value, and every location that shares no byte with it reads as before, for
  every pair of packable types.
\<close>

theorem packed_write_isolated:
  assumes "packable T enc valid" "valid v" "fits T loc" "sys_lookup s (fst loc) \<noteq> None"
  shows "\<exists>s'. set_checked sys_api T loc v s = (Ok (), s') \<and> fst (get_checked sys_api T loc s') = Ok v \<and>
     (\<forall>loc'. fits T' loc' \<longrightarrow> occupies T' loc' \<inter> occupies T loc = {} \<longrightarrow>
        fst (get_checked sys_api T' loc' s') = fst (get_checked sys_api T' loc' s))"
proof -
  have "packed_storage sys_api sys_lookup sys_rest T enc valid"
    using assms(1) sys.storage_spec_axioms by (simp add: packed_storage_def)
  with assms(2-4) show ?thesis by (auto elim!: packed_storage.set_isolated)
qed

definition example_context :: shared_context where
  "example_context =
     \<lparr>block = \<lparr>chain_id = 1, coinbase = 0, timestamp = 1700000000, number = 1, difficulty = 0,
        prev_randao = replicate 32 0, block_gas_limit = 30000000, base_fee = 7\<rparr>,
      tx = \<lparr>tx_gas_limit = 21000, tx_nonce = 4, tx_gas_price = 9, tx_gas_priority_fee = None, tx_origin = 4, tx_value = 0\<rparr>,
      contract = \<lparr>contract_address = 2, contract_bytecode_address = 3, contract_caller = 4,
        contract_is_static = False, contract_value = 0, contract_gas_limit = 100000\<rparr>\<rparr>"

definition example_frame :: "(u256 \<rightharpoonup> u256) \<Rightarrow> system_context" where
  "example_frame m = recoverable_state_new
     \<lparr>frame_metadata = [], frame_input = [], frame_context = [], frame_storage = Some m\<rparr> example_context 1000000"

lemma lookup_example_frame [simp]: "sys_lookup (example_frame m) = m"
  by (simp add: example_frame_def sys_lookup_def recoverable_state_new_def)

theorem packed_write_isolated_witness:
  "\<exists>s'. set_checked sys_api bool_packable (0, 31) True (example_frame [0 \<mapsto> 513]) = (Ok (), s') \<and>
     fst (get_checked sys_api bool_packable (0, 31) s') = Ok True \<and>
     fst (get_checked sys_api (int_packable :: u8 packable_codec) (0, 30) s') = Ok 2"
proof -
  let ?s = "example_frame [0 \<mapsto> 513]" and ?T = "int_packable :: u8 packable_codec"
  have v: "pdecode ?T (window (to_be_bytes (513 :: u256)) 30 1) = Ok 2" by code_simp
  have sz: "ENCODED_SIZE ?T = 1" "ENCODED_SIZE bool_packable = 1" by (simp_all add: int_packable_def bool_packable_def)
  have g: "fst (get_checked sys_api ?T (0, 30) ?s) = Ok 2"
    using sys.read_at_hit [of ?s 0 513 "30 :: u8" ?T] v by (simp add: get_checked_def sz)
  have d: "occupies ?T (0, 30) \<inter> occupies bool_packable (0, 31) = {}" by (auto simp: occupies_def sz)
  have "fits ?T (0, 30)" "fits bool_packable (0, 31)" by (simp_all add: fits_def sz)
  with packed_write_isolated [OF bool_codec.packable_axioms, where v = True and loc = "(0, 31)" and s = ?s and T' = ?T] d g
  show ?thesis by (fastforce simp del: split_paired_All)
qed

end
