(* ===== verification/Syscall_Encode.thy ===== *)
theory Syscall_Encode
  imports Exit_Code
begin

text \<open>
  System calls as contracts make them: the identifiers (\<open>crates/sdk/src/syscall.rs\<close>), the input
  encodings (\<open>crates/sdk/src/syscall/encode.rs\<close>) and the calls of \<open>SharedContextImpl\<close>
  (\<open>crates/sdk/src/shared.rs\<close>) that build an input, execute it and read the result. The native
  interface behind \<open>exec\<close> is a parameter here; \<open>Host_Syscall\<close> has the host that serves it.
\<close>

section \<open>Identifiers (syscall.rs)\<close>

definition SYSCALL_ID_STORAGE_READ :: u256 where
  "SYSCALL_ID_STORAGE_READ = 0x1"

definition SYSCALL_ID_STORAGE_WRITE :: u256 where
  "SYSCALL_ID_STORAGE_WRITE = 0x2"

definition SYSCALL_ID_CALL :: u256 where
  "SYSCALL_ID_CALL = 0x3"

definition SYSCALL_ID_STATIC_CALL :: u256 where
  "SYSCALL_ID_STATIC_CALL = 0x4"

definition SYSCALL_ID_CALL_CODE :: u256 where
  "SYSCALL_ID_CALL_CODE = 0x5"

definition SYSCALL_ID_DELEGATE_CALL :: u256 where
  "SYSCALL_ID_DELEGATE_CALL = 0x6"

definition SYSCALL_ID_CREATE :: u256 where
  "SYSCALL_ID_CREATE = 0x7"

definition SYSCALL_ID_CREATE2 :: u256 where
  "SYSCALL_ID_CREATE2 = 0x8"

definition SYSCALL_ID_EMIT_LOG :: u256 where
  "SYSCALL_ID_EMIT_LOG = 0x9"

definition SYSCALL_ID_DESTROY_ACCOUNT :: u256 where
  "SYSCALL_ID_DESTROY_ACCOUNT = 0xa"

definition SYSCALL_ID_BALANCE :: u256 where
  "SYSCALL_ID_BALANCE = 0xb"

definition SYSCALL_ID_SELF_BALANCE :: u256 where
  "SYSCALL_ID_SELF_BALANCE = 0xc"

definition SYSCALL_ID_CODE_SIZE :: u256 where
  "SYSCALL_ID_CODE_SIZE = 0xd"

definition SYSCALL_ID_CODE_HASH :: u256 where
  "SYSCALL_ID_CODE_HASH = 0xe"

definition SYSCALL_ID_CODE_COPY :: u256 where
  "SYSCALL_ID_CODE_COPY = 0xf"

definition SYSCALL_ID_TRANSIENT_READ :: u256 where
  "SYSCALL_ID_TRANSIENT_READ = 0x11"

definition SYSCALL_ID_TRANSIENT_WRITE :: u256 where
  "SYSCALL_ID_TRANSIENT_WRITE = 0x12"

definition SYSCALL_ID_BLOCK_HASH :: u256 where
  "SYSCALL_ID_BLOCK_HASH = 0x13"

definition SYSCALL_ID_METADATA_WRITE :: u256 where
  "SYSCALL_ID_METADATA_WRITE = 0x40"

definition SYSCALL_ID_METADATA_SIZE :: u256 where
  "SYSCALL_ID_METADATA_SIZE = 0x41"

definition SYSCALL_ID_METADATA_CREATE :: u256 where
  "SYSCALL_ID_METADATA_CREATE = 0x42"

definition SYSCALL_ID_METADATA_COPY :: u256 where
  "SYSCALL_ID_METADATA_COPY = 0x43"

definition SYSCALL_ID_METADATA_STORAGE_READ :: u256 where
  "SYSCALL_ID_METADATA_STORAGE_READ = 0x44"

definition SYSCALL_ID_METADATA_STORAGE_WRITE :: u256 where
  "SYSCALL_ID_METADATA_STORAGE_WRITE = 0x45"

definition SYSCALL_ID_METADATA_ACCOUNT_OWNER :: u256 where
  "SYSCALL_ID_METADATA_ACCOUNT_OWNER = 0x46"

definition SYSCALL_ID_UPGRADE_EVM_RUNTIME :: u256 where
  "SYSCALL_ID_UPGRADE_EVM_RUNTIME = 0xfe"

definition SYSCALL_ID_UPGRADE_WASM_RUNTIME :: u256 where
  "SYSCALL_ID_UPGRADE_WASM_RUNTIME = 0xff"

lemmas syscall_ids =
  SYSCALL_ID_STORAGE_READ_def SYSCALL_ID_STORAGE_WRITE_def SYSCALL_ID_CALL_def
  SYSCALL_ID_STATIC_CALL_def SYSCALL_ID_CALL_CODE_def SYSCALL_ID_DELEGATE_CALL_def
  SYSCALL_ID_CREATE_def SYSCALL_ID_CREATE2_def SYSCALL_ID_EMIT_LOG_def
  SYSCALL_ID_DESTROY_ACCOUNT_def SYSCALL_ID_BALANCE_def SYSCALL_ID_SELF_BALANCE_def
  SYSCALL_ID_CODE_SIZE_def SYSCALL_ID_CODE_HASH_def SYSCALL_ID_CODE_COPY_def
  SYSCALL_ID_TRANSIENT_READ_def SYSCALL_ID_TRANSIENT_WRITE_def SYSCALL_ID_BLOCK_HASH_def
  SYSCALL_ID_METADATA_WRITE_def SYSCALL_ID_METADATA_SIZE_def SYSCALL_ID_METADATA_CREATE_def
  SYSCALL_ID_METADATA_COPY_def SYSCALL_ID_METADATA_STORAGE_READ_def
  SYSCALL_ID_METADATA_STORAGE_WRITE_def SYSCALL_ID_METADATA_ACCOUNT_OWNER_def
  SYSCALL_ID_UPGRADE_EVM_RUNTIME_def SYSCALL_ID_UPGRADE_WASM_RUNTIME_def

definition STATE_MAIN :: u32 where
  "STATE_MAIN = 0"

section \<open>Input buffers (encode.rs)\<close>

text \<open>
  The \<open>BufMut\<close> of a byte slice: what has been written and how much room is left. Writing past the
  end panics.
\<close>

type_synonym sink = "byte list \<times> nat"

definition put_slice :: "byte list \<Rightarrow> sink \<Rightarrow> (exit_code, sink) outcome" where
  "put_slice b out = (if length b \<le> snd out then Ok (fst out @ b, snd out - length b) else Panic)"

definition put_all :: "byte list list \<Rightarrow> sink \<Rightarrow> (exit_code, sink) outcome" where
  "put_all bs out = foldl (\<lambda>r b. oc_bind r (put_slice b)) (Ok out) bs"

text \<open>\<open>let mut buffer = [0u8; hint]; into(&mut &mut buffer[..])\<close>\<close>

definition fill_buffer :: "nat \<Rightarrow> (sink \<Rightarrow> (exit_code, sink) outcome) \<Rightarrow> (exit_code, byte list) outcome" where
  "fill_buffer hint into = oc_bind (into ([], hint)) (\<lambda>(w, room). Ok (w @ replicate room 0))"

definition storage_read_size_hint :: "nat" where
  "storage_read_size_hint = 32"

definition storage_read_into :: "u256 \<Rightarrow> sink \<Rightarrow> (exit_code, sink) outcome" where
  "storage_read_into slot = put_all [to_le_bytes slot]"

definition storage_write_size_hint :: "nat" where
  "storage_write_size_hint = 64"

definition storage_write_into :: "u256 \<Rightarrow> u256 \<Rightarrow> sink \<Rightarrow> (exit_code, sink) outcome" where
  "storage_write_into slot value = put_all [to_le_bytes slot, to_le_bytes value]"

definition metadata_size_size_hint :: "nat" where
  "metadata_size_size_hint = 20"

definition metadata_size_into :: "address \<Rightarrow> sink \<Rightarrow> (exit_code, sink) outcome" where
  "metadata_size_into address = put_all [to_be_bytes address]"

definition metadata_account_owner_size_hint :: "nat" where
  "metadata_account_owner_size_hint = 20"

definition metadata_account_owner_into :: "address \<Rightarrow> sink \<Rightarrow> (exit_code, sink) outcome" where
  "metadata_account_owner_into address = put_all [to_be_bytes address]"

definition metadata_copy_size_hint :: "nat" where
  "metadata_copy_size_hint = 20 + 4 + 4"

definition metadata_copy_into :: "address \<Rightarrow> u32 \<Rightarrow> u32 \<Rightarrow> sink \<Rightarrow> (exit_code, sink) outcome" where
  "metadata_copy_into address off len = put_all [to_be_bytes address, to_le_bytes off, to_le_bytes len]"

definition metadata_storage_read_size_hint :: "nat" where
  "metadata_storage_read_size_hint = 32"

definition metadata_storage_read_into :: "u256 \<Rightarrow> sink \<Rightarrow> (exit_code, sink) outcome" where
  "metadata_storage_read_into slot = put_all [to_le_bytes slot]"

definition metadata_storage_write_size_hint :: "nat" where
  "metadata_storage_write_size_hint = 32 + 32"

definition metadata_storage_write_into :: "u256 \<Rightarrow> u256 \<Rightarrow> sink \<Rightarrow> (exit_code, sink) outcome" where
  "metadata_storage_write_into slot value = put_all [to_le_bytes slot, to_le_bytes value]"

definition metadata_write_size_hint :: "nat \<Rightarrow> nat" where
  "metadata_write_size_hint metadata_len = 20 + 4 + metadata_len"

definition metadata_write_into :: "address \<Rightarrow> u32 \<Rightarrow> byte list \<Rightarrow> sink \<Rightarrow> (exit_code, sink) outcome" where
  "metadata_write_into address off metadata = put_all [to_be_bytes address, to_le_bytes off, metadata]"

definition metadata_create_size_hint :: "nat \<Rightarrow> nat" where
  "metadata_create_size_hint metadata_len = 32 + metadata_len"

definition metadata_create_into :: "u256 \<Rightarrow> byte list \<Rightarrow> sink \<Rightarrow> (exit_code, sink) outcome" where
  "metadata_create_into salt metadata = put_all [to_be_bytes salt, metadata]"

definition transient_write_size_hint :: nat where
  "transient_write_size_hint = 32 + 32"

text \<open>Zero words are left as the zeros the buffer starts with.\<close>

definition transient_write_into :: "u256 \<Rightarrow> u256 \<Rightarrow> sink \<Rightarrow> (exit_code, sink) outcome" where
  "transient_write_into slot value =
     (let buf = replicate 64 0;
          buf = (if slot \<noteq> 0 then blit buf 0 (to_le_bytes slot) else buf);
          buf = (if value \<noteq> 0 then blit buf 32 (to_le_bytes value) else buf)
      in put_all [buf])"

definition transient_read_size_hint :: "nat" where
  "transient_read_size_hint = 32"

definition transient_read_into :: "u256 \<Rightarrow> sink \<Rightarrow> (exit_code, sink) outcome" where
  "transient_read_into slot = put_all [to_le_bytes slot]"

definition emit_log_size_hint :: "nat \<Rightarrow> nat \<Rightarrow> nat" where
  "emit_log_size_hint topics_len data_len = 1 + topics_len * 32 + data_len"

definition emit_log_into :: "byte list list \<Rightarrow> byte list \<Rightarrow> sink \<Rightarrow> (exit_code, sink) outcome" where
  "emit_log_into topics d = put_all ([[word_of_nat (length topics)]] @ topics @ [d])"

definition self_balance_size_hint :: "nat" where
  "self_balance_size_hint = 0"

definition self_balance_into :: "sink \<Rightarrow> (exit_code, sink) outcome" where
  "self_balance_into = put_all []"

definition balance_size_hint :: "nat" where
  "balance_size_hint = 20"

definition balance_into :: "address \<Rightarrow> sink \<Rightarrow> (exit_code, sink) outcome" where
  "balance_into address = put_all [to_be_bytes address]"

definition block_hash_size_hint :: "nat" where
  "block_hash_size_hint = 8"

definition block_hash_into :: "u64 \<Rightarrow> sink \<Rightarrow> (exit_code, sink) outcome" where
  "block_hash_into block_number = put_all [to_le_bytes block_number]"

definition code_size_size_hint :: "nat" where
  "code_size_size_hint = 20"

definition code_size_into :: "address \<Rightarrow> sink \<Rightarrow> (exit_code, sink) outcome" where
  "code_size_into address = put_all [to_be_bytes address]"

definition code_hash_size_hint :: "nat" where
  "code_hash_size_hint = 20"

definition code_hash_into :: "address \<Rightarrow> sink \<Rightarrow> (exit_code, sink) outcome" where
  "code_hash_into address = put_all [to_be_bytes address]"

definition code_copy_size_hint :: "nat" where
  "code_copy_size_hint = 20 + 8 + 8"

definition code_copy_into :: "address \<Rightarrow> u64 \<Rightarrow> u64 \<Rightarrow> sink \<Rightarrow> (exit_code, sink) outcome" where
  "code_copy_into address code_offset code_length = put_all [to_be_bytes address, to_le_bytes code_offset, to_le_bytes code_length]"

definition create_size_hint :: "nat \<Rightarrow> bool \<Rightarrow> nat" where
  "create_size_hint init_code_len has_salt = (if has_salt then 32 + 32 + init_code_len else 32 + init_code_len)"

definition create_into :: "u256 option \<Rightarrow> u256 \<Rightarrow> byte list \<Rightarrow> sink \<Rightarrow> (exit_code, sink) outcome" where
  "create_into salt value init_code =
     put_all ([to_le_bytes value] @ (case salt of Some s \<Rightarrow> [to_le_bytes s] | None \<Rightarrow> []) @ [init_code])"

definition call_size_hint :: "nat \<Rightarrow> bool \<Rightarrow> nat" where
  "call_size_hint input_len has_value = (if has_value then 20 + 32 + input_len else 20 + input_len)"

definition call_into :: "address \<Rightarrow> u256 option \<Rightarrow> byte list \<Rightarrow> sink \<Rightarrow> (exit_code, sink) outcome" where
  "call_into address value input =
     put_all ([to_be_bytes address] @ (case value of Some v \<Rightarrow> [to_le_bytes v] | None \<Rightarrow> []) @ [input])"

definition delegate_call_size_hint :: "nat \<Rightarrow> nat" where
  "delegate_call_size_hint input_len = 20 + input_len"

definition delegate_call_into :: "address \<Rightarrow> byte list \<Rightarrow> sink \<Rightarrow> (exit_code, sink) outcome" where
  "delegate_call_into address input = put_all [to_be_bytes address, input]"

definition static_call_size_hint :: "nat \<Rightarrow> nat" where
  "static_call_size_hint input_len = 20 + input_len"

definition static_call_into :: "address \<Rightarrow> byte list \<Rightarrow> sink \<Rightarrow> (exit_code, sink) outcome" where
  "static_call_into address input = put_all [to_be_bytes address, input]"

definition destroy_account_size_hint :: "nat" where
  "destroy_account_size_hint = 20"

definition destroy_account_into :: "address \<Rightarrow> sink \<Rightarrow> (exit_code, sink) outcome" where
  "destroy_account_into address = put_all [to_be_bytes address]"

definition upgrade_runtime_size_hint :: "nat \<Rightarrow> nat" where
  "upgrade_runtime_size_hint rwasm_bytecode_len = 20 + rwasm_bytecode_len"

definition upgrade_runtime_into :: "address \<Rightarrow> byte list \<Rightarrow> sink \<Rightarrow> (exit_code, sink) outcome" where
  "upgrade_runtime_into address rwasm_bytecode = put_all [to_be_bytes address, rwasm_bytecode]"

definition upgrade_evm_runtime_size_hint :: "nat \<Rightarrow> nat" where
  "upgrade_evm_runtime_size_hint evm_bytecode_len = 20 + evm_bytecode_len"

definition upgrade_evm_runtime_into :: "address \<Rightarrow> byte list \<Rightarrow> sink \<Rightarrow> (exit_code, sink) outcome" where
  "upgrade_evm_runtime_into address evm_bytecode = put_all [to_be_bytes address, evm_bytecode]"

section \<open>The calls (shared.rs)\<close>

text \<open>
  The native interface: \<open>exec\<close> runs a system call and gives consumed fuel, refunded fuel and an exit
  code; the output it leaves behind is read afterwards, and reading beyond its end ends the
  execution.
\<close>

record 's native_api =
  exec :: "u256 \<Rightarrow> byte list \<Rightarrow> u64 option \<Rightarrow> u32 \<Rightarrow> 's \<Rightarrow> (u64 \<times> 64 word \<times> int) \<times> 's"
  return_buffer :: "'s \<Rightarrow> byte list"

definition exec_call :: "'s native_api \<Rightarrow> u256 \<Rightarrow> (exit_code, byte list) outcome \<Rightarrow> u64 option \<Rightarrow> ('s, u64 \<times> 64 word \<times> int) comp" where
  "exec_call N syscall_id buffer fuel_limit =
     cbind (lift_oc buffer) (\<lambda>b s. case exec N syscall_id b fuel_limit STATE_MAIN s of (r, s') \<Rightarrow> (Ok r, s'))"

definition read_output :: "'s native_api \<Rightarrow> nat \<Rightarrow> ('s, byte list) comp" where
  "read_output N n = cbind (read_state (return_buffer N)) (\<lambda>out. lift_oc (slice out 0 n))"

definition return_data :: "'s native_api \<Rightarrow> ('s, byte list) comp" where
  "return_data N = read_state (return_buffer N)"

definition syscall_is_ok :: "int \<Rightarrow> bool" where
  "syscall_is_ok exit_code = (exit_code_from exit_code = ExitCode_Ok)"

definition output_if_ok :: "'s native_api \<Rightarrow> nat \<Rightarrow> int \<Rightarrow> ('s, byte list) comp" where
  "output_if_ok N n exit_code = (if syscall_is_ok exit_code then read_output N n else ret (replicate n 0))"

definition call_result :: "(byte list \<Rightarrow> 'a) \<Rightarrow> byte list \<Rightarrow> u64 \<times> 64 word \<times> int \<Rightarrow> 'a syscall_result" where
  "call_result f out r = (case r of (fc, fr, ec) \<Rightarrow> syscall_new (f out) fc fr (exit_code_from ec))"

definition sdk_write_storage :: "'s native_api \<Rightarrow> u256 \<Rightarrow> u256 \<Rightarrow> ('s, unit syscall_result) comp" where
  "sdk_write_storage N slot value =
     cbind (exec_call N SYSCALL_ID_STORAGE_WRITE (fill_buffer storage_write_size_hint (storage_write_into slot value)) None)
       (\<lambda>r. ret (call_result (\<lambda>_. ()) [] r))"

definition sdk_storage :: "'s native_api \<Rightarrow> u256 \<Rightarrow> ('s, u256 syscall_result) comp" where
  "sdk_storage N slot =
     cbind (exec_call N SYSCALL_ID_STORAGE_READ (fill_buffer storage_read_size_hint (storage_read_into slot)) None)
       (\<lambda>r. cbind (output_if_ok N 32 (snd (snd r))) (\<lambda>out. ret (call_result from_le_bytes out r)))"

definition sdk_write_transient_storage :: "'s native_api \<Rightarrow> u256 \<Rightarrow> u256 \<Rightarrow> ('s, unit syscall_result) comp" where
  "sdk_write_transient_storage N slot value =
     cbind (exec_call N SYSCALL_ID_TRANSIENT_WRITE (fill_buffer transient_write_size_hint (transient_write_into slot value)) None)
       (\<lambda>r. ret (call_result (\<lambda>_. ()) [] r))"

definition sdk_transient_storage :: "'s native_api \<Rightarrow> u256 \<Rightarrow> ('s, u256 syscall_result) comp" where
  "sdk_transient_storage N slot =
     cbind (exec_call N SYSCALL_ID_TRANSIENT_READ (fill_buffer transient_read_size_hint (transient_read_into slot)) None)
       (\<lambda>r. cbind (output_if_ok N 32 (snd (snd r))) (\<lambda>out. ret (call_result from_le_bytes out r)))"

definition sdk_emit_log :: "'s native_api \<Rightarrow> byte list list \<Rightarrow> byte list \<Rightarrow> ('s, unit syscall_result) comp" where
  "sdk_emit_log N topics d =
     cbind (exec_call N SYSCALL_ID_EMIT_LOG (fill_buffer (emit_log_size_hint (length topics) (length d)) (emit_log_into topics d)) None)
       (\<lambda>r. ret (call_result (\<lambda>_. ()) [] r))"

definition sdk_self_balance :: "'s native_api \<Rightarrow> ('s, u256 syscall_result) comp" where
  "sdk_self_balance N =
     cbind (exec_call N SYSCALL_ID_SELF_BALANCE (fill_buffer self_balance_size_hint (self_balance_into)) None)
       (\<lambda>r. cbind (output_if_ok N 32 (snd (snd r))) (\<lambda>out. ret (call_result from_le_bytes out r)))"

definition sdk_balance :: "'s native_api \<Rightarrow> address \<Rightarrow> ('s, u256 syscall_result) comp" where
  "sdk_balance N address =
     cbind (exec_call N SYSCALL_ID_BALANCE (fill_buffer balance_size_hint (balance_into address)) None)
       (\<lambda>r. cbind (output_if_ok N 32 (snd (snd r))) (\<lambda>out. ret (call_result from_le_bytes out r)))"

definition sdk_block_hash :: "'s native_api \<Rightarrow> u64 \<Rightarrow> ('s, byte list syscall_result) comp" where
  "sdk_block_hash N block_number =
     cbind (exec_call N SYSCALL_ID_BLOCK_HASH (fill_buffer block_hash_size_hint (block_hash_into block_number)) None)
       (\<lambda>r. cbind (output_if_ok N 32 (snd (snd r))) (\<lambda>out. ret (call_result id out r)))"

definition sdk_code_size :: "'s native_api \<Rightarrow> address \<Rightarrow> ('s, u32 syscall_result) comp" where
  "sdk_code_size N address =
     cbind (exec_call N SYSCALL_ID_CODE_SIZE (fill_buffer code_size_size_hint (code_size_into address)) None)
       (\<lambda>r. cbind (output_if_ok N 4 (snd (snd r))) (\<lambda>out. ret (call_result from_le_bytes out r)))"

definition sdk_code_hash :: "'s native_api \<Rightarrow> address \<Rightarrow> ('s, byte list syscall_result) comp" where
  "sdk_code_hash N address =
     cbind (exec_call N SYSCALL_ID_CODE_HASH (fill_buffer code_hash_size_hint (code_hash_into address)) None)
       (\<lambda>r. cbind (output_if_ok N 32 (snd (snd r))) (\<lambda>out. ret (call_result id out r)))"

definition sdk_code_copy :: "'s native_api \<Rightarrow> address \<Rightarrow> u64 \<Rightarrow> u64 \<Rightarrow> ('s, byte list syscall_result) comp" where
  "sdk_code_copy N address code_offset code_length =
     cbind (exec_call N SYSCALL_ID_CODE_COPY (fill_buffer code_copy_size_hint (code_copy_into address code_offset code_length)) None)
       (\<lambda>r. cbind (if syscall_is_ok (snd (snd r)) then return_data N else ret []) (\<lambda>out. ret (call_result id out r)))"

definition sdk_create :: "'s native_api \<Rightarrow> u256 option \<Rightarrow> u256 \<Rightarrow> byte list \<Rightarrow> ('s, byte list syscall_result) comp" where
  "sdk_create N salt value init_code =
     (let syscall_id = (if salt \<noteq> None then SYSCALL_ID_CREATE2 else SYSCALL_ID_CREATE)
      in cbind (exec_call N syscall_id
             (fill_buffer (create_size_hint (length init_code) (salt \<noteq> None)) (create_into salt value init_code)) None)
           (\<lambda>r. cbind (return_data N) (\<lambda>out. ret (call_result id out r))))"

definition sdk_call :: "'s native_api \<Rightarrow> address \<Rightarrow> u256 \<Rightarrow> byte list \<Rightarrow> u64 option \<Rightarrow> ('s, byte list syscall_result) comp" where
  "sdk_call N address value input fuel_limit =
     cbind (exec_call N SYSCALL_ID_CALL (fill_buffer (call_size_hint (length input) True) (call_into address (Some value) input)) fuel_limit)
       (\<lambda>r. cbind (return_data N) (\<lambda>out. ret (call_result id out r)))"

definition sdk_call_code :: "'s native_api \<Rightarrow> address \<Rightarrow> u256 \<Rightarrow> byte list \<Rightarrow> u64 option \<Rightarrow> ('s, byte list syscall_result) comp" where
  "sdk_call_code N address value input fuel_limit =
     cbind (exec_call N SYSCALL_ID_CALL_CODE (fill_buffer (call_size_hint (length input) True) (call_into address (Some value) input)) fuel_limit)
       (\<lambda>r. cbind (return_data N) (\<lambda>out. ret (call_result id out r)))"

definition sdk_delegate_call :: "'s native_api \<Rightarrow> address \<Rightarrow> byte list \<Rightarrow> u64 option \<Rightarrow> ('s, byte list syscall_result) comp" where
  "sdk_delegate_call N address input fuel_limit =
     cbind (exec_call N SYSCALL_ID_DELEGATE_CALL (fill_buffer (call_size_hint (length input) False) (call_into address None input)) fuel_limit)
       (\<lambda>r. cbind (return_data N) (\<lambda>out. ret (call_result id out r)))"

definition sdk_static_call :: "'s native_api \<Rightarrow> address \<Rightarrow> byte list \<Rightarrow> u64 option \<Rightarrow> ('s, byte list syscall_result) comp" where
  "sdk_static_call N address input fuel_limit =
     cbind (exec_call N SYSCALL_ID_STATIC_CALL (fill_buffer (call_size_hint (length input) False) (call_into address None input)) fuel_limit)
       (\<lambda>r. cbind (return_data N) (\<lambda>out. ret (call_result id out r)))"

definition sdk_destroy_account :: "'s native_api \<Rightarrow> address \<Rightarrow> ('s, unit syscall_result) comp" where
  "sdk_destroy_account N address =
     cbind (exec_call N SYSCALL_ID_DESTROY_ACCOUNT (fill_buffer destroy_account_size_hint (destroy_account_into address)) None)
       (\<lambda>r. ret (call_result (\<lambda>_. ()) [] r))"

section \<open>The buffers are filled exactly\<close>

lemma put_all_append:
  "put_all bs (w, n) = (if sum_list (map length bs) \<le> n then Ok (w @ concat bs, n - sum_list (map length bs)) else Panic)"
proof (induction bs rule: rev_induct)
  case (snoc b bs)
  have "put_all (bs @ [b]) (w, n) = oc_bind (put_all bs (w, n)) (put_slice b)" by (simp add: put_all_def)
  with snoc show ?case by (auto simp: put_slice_def)
qed (simp add: put_all_def)

lemma fill_put_all: "hint = sum_list (map length bs) \<Longrightarrow> fill_buffer hint (put_all bs) = Ok (concat bs)"
  by (simp add: fill_buffer_def put_all_append)

named_theorems encoded \<open>inputs of system calls\<close>

lemma storage_read_encoded [encoded]: "fill_buffer storage_read_size_hint (storage_read_into slot) = Ok (to_le_bytes slot)"
  unfolding storage_read_into_def by (subst fill_put_all) (simp_all add: storage_read_size_hint_def)

lemma storage_write_encoded [encoded]: "fill_buffer storage_write_size_hint (storage_write_into slot value) = Ok (to_le_bytes slot @ to_le_bytes value)"
  unfolding storage_write_into_def by (subst fill_put_all) (simp_all add: storage_write_size_hint_def)

lemma metadata_size_encoded [encoded]: "fill_buffer metadata_size_size_hint (metadata_size_into address) = Ok (to_be_bytes address)"
  unfolding metadata_size_into_def by (subst fill_put_all) (simp_all add: metadata_size_size_hint_def)

lemma metadata_account_owner_encoded [encoded]: "fill_buffer metadata_account_owner_size_hint (metadata_account_owner_into address) = Ok (to_be_bytes address)"
  unfolding metadata_account_owner_into_def by (subst fill_put_all) (simp_all add: metadata_account_owner_size_hint_def)

lemma metadata_copy_encoded [encoded]: "fill_buffer metadata_copy_size_hint (metadata_copy_into address off len) = Ok (to_be_bytes address @ to_le_bytes off @ to_le_bytes len)"
  unfolding metadata_copy_into_def by (subst fill_put_all) (simp_all add: metadata_copy_size_hint_def)

lemma metadata_storage_read_encoded [encoded]: "fill_buffer metadata_storage_read_size_hint (metadata_storage_read_into slot) = Ok (to_le_bytes slot)"
  unfolding metadata_storage_read_into_def by (subst fill_put_all) (simp_all add: metadata_storage_read_size_hint_def)

lemma metadata_storage_write_encoded [encoded]: "fill_buffer metadata_storage_write_size_hint (metadata_storage_write_into slot value) = Ok (to_le_bytes slot @ to_le_bytes value)"
  unfolding metadata_storage_write_into_def by (subst fill_put_all) (simp_all add: metadata_storage_write_size_hint_def)

lemma metadata_write_encoded [encoded]: "fill_buffer (metadata_write_size_hint (length metadata)) (metadata_write_into address off metadata) = Ok (to_be_bytes address @ to_le_bytes off @ metadata)"
  unfolding metadata_write_into_def by (subst fill_put_all) (simp_all add: metadata_write_size_hint_def)

lemma metadata_create_encoded [encoded]: "fill_buffer (metadata_create_size_hint (length metadata)) (metadata_create_into salt metadata) = Ok (to_be_bytes salt @ metadata)"
  unfolding metadata_create_into_def by (subst fill_put_all) (simp_all add: metadata_create_size_hint_def)

lemma transient_read_encoded [encoded]: "fill_buffer transient_read_size_hint (transient_read_into slot) = Ok (to_le_bytes slot)"
  unfolding transient_read_into_def by (subst fill_put_all) (simp_all add: transient_read_size_hint_def)

lemma self_balance_encoded [encoded]: "fill_buffer self_balance_size_hint self_balance_into = Ok ([])"
  unfolding self_balance_into_def by (subst fill_put_all) (simp_all add: self_balance_size_hint_def)

lemma balance_encoded [encoded]: "fill_buffer balance_size_hint (balance_into address) = Ok (to_be_bytes address)"
  unfolding balance_into_def by (subst fill_put_all) (simp_all add: balance_size_hint_def)

lemma block_hash_encoded [encoded]: "fill_buffer block_hash_size_hint (block_hash_into block_number) = Ok (to_le_bytes block_number)"
  unfolding block_hash_into_def by (subst fill_put_all) (simp_all add: block_hash_size_hint_def)

lemma code_size_encoded [encoded]: "fill_buffer code_size_size_hint (code_size_into address) = Ok (to_be_bytes address)"
  unfolding code_size_into_def by (subst fill_put_all) (simp_all add: code_size_size_hint_def)

lemma code_hash_encoded [encoded]: "fill_buffer code_hash_size_hint (code_hash_into address) = Ok (to_be_bytes address)"
  unfolding code_hash_into_def by (subst fill_put_all) (simp_all add: code_hash_size_hint_def)

lemma code_copy_encoded [encoded]: "fill_buffer code_copy_size_hint (code_copy_into address code_offset code_length) = Ok (to_be_bytes address @ to_le_bytes code_offset @ to_le_bytes code_length)"
  unfolding code_copy_into_def by (subst fill_put_all) (simp_all add: code_copy_size_hint_def)

lemma delegate_call_encoded [encoded]: "fill_buffer (delegate_call_size_hint (length input)) (delegate_call_into address input) = Ok (to_be_bytes address @ input)"
  unfolding delegate_call_into_def by (subst fill_put_all) (simp_all add: delegate_call_size_hint_def)

lemma static_call_encoded [encoded]: "fill_buffer (static_call_size_hint (length input)) (static_call_into address input) = Ok (to_be_bytes address @ input)"
  unfolding static_call_into_def by (subst fill_put_all) (simp_all add: static_call_size_hint_def)

lemma destroy_account_encoded [encoded]: "fill_buffer destroy_account_size_hint (destroy_account_into address) = Ok (to_be_bytes address)"
  unfolding destroy_account_into_def by (subst fill_put_all) (simp_all add: destroy_account_size_hint_def)

lemma upgrade_runtime_encoded [encoded]: "fill_buffer (upgrade_runtime_size_hint (length rwasm_bytecode)) (upgrade_runtime_into address rwasm_bytecode) = Ok (to_be_bytes address @ rwasm_bytecode)"
  unfolding upgrade_runtime_into_def by (subst fill_put_all) (simp_all add: upgrade_runtime_size_hint_def)

lemma upgrade_evm_runtime_encoded [encoded]: "fill_buffer (upgrade_evm_runtime_size_hint (length evm_bytecode)) (upgrade_evm_runtime_into address evm_bytecode) = Ok (to_be_bytes address @ evm_bytecode)"
  unfolding upgrade_evm_runtime_into_def by (subst fill_put_all) (simp_all add: upgrade_evm_runtime_size_hint_def)

lemma le_bytes_zero: "le_bytes n 0 = replicate n 0"
  by (induction n) simp_all

lemma to_le_bytes_zero: "to_le_bytes (0 :: u256) = replicate 32 0"
  by (simp add: to_le_bytes_def le_bytes_zero)

lemma transient_write_encoded [encoded]:
  "fill_buffer transient_write_size_hint (transient_write_into slot value) = Ok (to_le_bytes slot @ to_le_bytes value)"
proof -
  have "transient_write_into slot value = put_all [to_le_bytes slot @ to_le_bytes value]"
    by (cases "slot = 0"; cases "value = 0")
      (simp_all add: transient_write_into_def to_le_bytes_zero blit_def replicate_add [symmetric] Let_def)
  then show ?thesis by (simp add: fill_put_all transient_write_size_hint_def)
qed

lemma emit_log_encoded [encoded]:
  assumes "\<forall>t \<in> set topics. length t = 32"
  shows "fill_buffer (emit_log_size_hint (length topics) (length d)) (emit_log_into topics d) =
    Ok ([word_of_nat (length topics)] @ concat topics @ d)"
proof -
  have "sum_list (map length topics) = length topics * 32" using assms by (induction topics) auto
  then show ?thesis
    unfolding emit_log_into_def by (subst fill_put_all) (simp_all add: emit_log_size_hint_def)
qed

lemma create_encoded [encoded]:
  "fill_buffer (create_size_hint (length init_code) (salt \<noteq> None)) (create_into salt value init_code) =
    Ok (to_le_bytes value @ (case salt of Some s \<Rightarrow> to_le_bytes s | None \<Rightarrow> []) @ init_code)"
  unfolding create_into_def by (subst fill_put_all) (auto simp: create_size_hint_def split: option.splits)

lemma call_encoded [encoded]:
  "fill_buffer (call_size_hint (length input) True) (call_into address (Some value) input) =
    Ok (to_be_bytes address @ to_le_bytes value @ input)"
  "fill_buffer (call_size_hint (length input) False) (call_into address None input) = Ok (to_be_bytes address @ input)"
  unfolding call_into_def by (subst fill_put_all; simp add: call_size_hint_def)+

end
