(* ===== verification/Evm_Result.thy ===== *)
theory Evm_Result
  imports Exit_Code
begin

text \<open>
  The passage between exit codes of the runtime and instruction results of the EVM
  (\<open>crates/evm/src/types.rs\<close>), in both directions.
\<close>

datatype (plugins only: code) instruction_result =
    IR_Return
  | IR_Stop
  | IR_SelfDestruct
  | IR_Revert
  | IR_CallTooDeep
  | IR_OutOfFunds
  | IR_CreateInitCodeStartingEF00
  | IR_InvalidEOFInitCode
  | IR_InvalidExtDelegateCallTarget
  | IR_OutOfGas
  | IR_MemoryOOG
  | IR_MemoryLimitOOG
  | IR_PrecompileOOG
  | IR_InvalidOperandOOG
  | IR_ReentrancySentryOOG
  | IR_OpcodeNotFound
  | IR_CallNotAllowedInsideStatic
  | IR_StateChangeDuringStaticCall
  | IR_InvalidFEOpcode
  | IR_InvalidJump
  | IR_NotActivated
  | IR_StackUnderflow
  | IR_StackOverflow
  | IR_OutOfOffset
  | IR_CreateCollision
  | IR_OverflowPayment
  | IR_PrecompileError
  | IR_NonceOverflow
  | IR_CreateContractSizeLimit
  | IR_CreateContractStartingWithEF
  | IR_CreateInitCodeSizeLimit
  | IR_FatalExternalError
  | IR_InvalidImmediateEncoding
  | IR_RootCallOnly
  | IR_MalformedBuiltinParams
  | IR_CallDepthOverflow
  | IR_NonNegativeExitCode
  | IR_UnknownError
  | IR_InputOutputOutOfBounds
  | IR_UnreachableCodeReached
  | IR_MemoryOutOfBounds
  | IR_TableOutOfBounds
  | IR_IndirectCallToNull
  | IR_IntegerDivisionByZero
  | IR_IntegerOverflow
  | IR_BadConversionToInteger
  | IR_BadSignature
  | IR_OutOfFuel
  | IR_UnknownExternalFunction

fun instruction_result_from_exit_code :: "exit_code \<Rightarrow> bool \<Rightarrow> instruction_result" where
  "instruction_result_from_exit_code ExitCode_Ok is_empty_return_data = (if is_empty_return_data then IR_Stop else IR_Return)"
| "instruction_result_from_exit_code ExitCode_Panic is_empty_return_data = IR_Revert"
| "instruction_result_from_exit_code InterruptionCalled is_empty_return_data = IR_Stop"
| "instruction_result_from_exit_code RootCallOnly is_empty_return_data = IR_RootCallOnly"
| "instruction_result_from_exit_code MalformedBuiltinParams is_empty_return_data = IR_MalformedBuiltinParams"
| "instruction_result_from_exit_code CallDepthOverflow is_empty_return_data = IR_CallDepthOverflow"
| "instruction_result_from_exit_code NonNegativeExitCode is_empty_return_data = IR_NonNegativeExitCode"
| "instruction_result_from_exit_code UnknownError is_empty_return_data = IR_UnknownError"
| "instruction_result_from_exit_code InputOutputOutOfBounds is_empty_return_data = IR_InputOutputOutOfBounds"
| "instruction_result_from_exit_code PrecompileError is_empty_return_data = IR_PrecompileError"
| "instruction_result_from_exit_code NotSupportedBytecode is_empty_return_data = IR_OpcodeNotFound"
| "instruction_result_from_exit_code StateChangeDuringStaticCall is_empty_return_data = IR_StateChangeDuringStaticCall"
| "instruction_result_from_exit_code CreateContractSizeLimit is_empty_return_data = IR_CreateContractSizeLimit"
| "instruction_result_from_exit_code CreateContractCollision is_empty_return_data = IR_CreateCollision"
| "instruction_result_from_exit_code CreateContractStartingWithEF is_empty_return_data = IR_CreateContractStartingWithEF"
| "instruction_result_from_exit_code OutOfMemory is_empty_return_data = IR_MemoryOutOfBounds"
| "instruction_result_from_exit_code InsufficientBalance is_empty_return_data = IR_OutOfFunds"
| "instruction_result_from_exit_code UnreachableCodeReached is_empty_return_data = IR_UnreachableCodeReached"
| "instruction_result_from_exit_code MemoryOutOfBounds is_empty_return_data = IR_MemoryOutOfBounds"
| "instruction_result_from_exit_code TableOutOfBounds is_empty_return_data = IR_TableOutOfBounds"
| "instruction_result_from_exit_code IndirectCallToNull is_empty_return_data = IR_IndirectCallToNull"
| "instruction_result_from_exit_code IntegerDivisionByZero is_empty_return_data = IR_IntegerDivisionByZero"
| "instruction_result_from_exit_code IntegerOverflow is_empty_return_data = IR_IntegerOverflow"
| "instruction_result_from_exit_code BadConversionToInteger is_empty_return_data = IR_BadConversionToInteger"
| "instruction_result_from_exit_code StackOverflow is_empty_return_data = IR_StackOverflow"
| "instruction_result_from_exit_code BadSignature is_empty_return_data = IR_BadSignature"
| "instruction_result_from_exit_code OutOfFuel is_empty_return_data = IR_OutOfFuel"
| "instruction_result_from_exit_code UnknownExternalFunction is_empty_return_data = IR_UnknownExternalFunction"
| "instruction_result_from_exit_code UnexpectedFatalExecutionFailure is_empty_return_data = IR_FatalExternalError"
| "instruction_result_from_exit_code MissingStorageSlot is_empty_return_data = IR_InvalidOperandOOG"

fun exit_code_from_instruction_result :: "instruction_result \<Rightarrow> exit_code" where
  "exit_code_from_instruction_result IR_Return = ExitCode_Ok"
| "exit_code_from_instruction_result IR_Stop = ExitCode_Ok"
| "exit_code_from_instruction_result IR_SelfDestruct = ExitCode_Ok"
| "exit_code_from_instruction_result IR_Revert = ExitCode_Panic"
| "exit_code_from_instruction_result IR_CallTooDeep = CallDepthOverflow"
| "exit_code_from_instruction_result IR_OutOfFunds = OutOfFuel"
| "exit_code_from_instruction_result IR_CreateInitCodeStartingEF00 = CreateContractStartingWithEF"
| "exit_code_from_instruction_result IR_InvalidEOFInitCode = CreateContractSizeLimit"
| "exit_code_from_instruction_result IR_InvalidExtDelegateCallTarget = StateChangeDuringStaticCall"
| "exit_code_from_instruction_result IR_OutOfGas = OutOfFuel"
| "exit_code_from_instruction_result IR_MemoryOOG = OutOfFuel"
| "exit_code_from_instruction_result IR_MemoryLimitOOG = OutOfFuel"
| "exit_code_from_instruction_result IR_PrecompileOOG = OutOfFuel"
| "exit_code_from_instruction_result IR_InvalidOperandOOG = OutOfFuel"
| "exit_code_from_instruction_result IR_ReentrancySentryOOG = OutOfFuel"
| "exit_code_from_instruction_result IR_OpcodeNotFound = NotSupportedBytecode"
| "exit_code_from_instruction_result IR_CallNotAllowedInsideStatic = StateChangeDuringStaticCall"
| "exit_code_from_instruction_result IR_StateChangeDuringStaticCall = StateChangeDuringStaticCall"
| "exit_code_from_instruction_result IR_InvalidFEOpcode = NotSupportedBytecode"
| "exit_code_from_instruction_result IR_InvalidJump = NotSupportedBytecode"
| "exit_code_from_instruction_result IR_NotActivated = NotSupportedBytecode"
| "exit_code_from_instruction_result IR_StackUnderflow = StackOverflow"
| "exit_code_from_instruction_result IR_StackOverflow = StackOverflow"
| "exit_code_from_instruction_result IR_OutOfOffset = InputOutputOutOfBounds"
| "exit_code_from_instruction_result IR_CreateCollision = CreateContractCollision"
| "exit_code_from_instruction_result IR_OverflowPayment = IntegerOverflow"
| "exit_code_from_instruction_result IR_PrecompileError = PrecompileError"
| "exit_code_from_instruction_result IR_NonceOverflow = UnknownError"
| "exit_code_from_instruction_result IR_CreateContractSizeLimit = CreateContractSizeLimit"
| "exit_code_from_instruction_result IR_CreateContractStartingWithEF = CreateContractStartingWithEF"
| "exit_code_from_instruction_result IR_CreateInitCodeSizeLimit = CreateContractSizeLimit"
| "exit_code_from_instruction_result IR_FatalExternalError = UnexpectedFatalExecutionFailure"
| "exit_code_from_instruction_result IR_InvalidImmediateEncoding = UnreachableCodeReached"
| "exit_code_from_instruction_result IR_RootCallOnly = RootCallOnly"
| "exit_code_from_instruction_result IR_MalformedBuiltinParams = MalformedBuiltinParams"
| "exit_code_from_instruction_result IR_CallDepthOverflow = CallDepthOverflow"
| "exit_code_from_instruction_result IR_NonNegativeExitCode = NonNegativeExitCode"
| "exit_code_from_instruction_result IR_UnknownError = UnknownError"
| "exit_code_from_instruction_result IR_InputOutputOutOfBounds = InputOutputOutOfBounds"
| "exit_code_from_instruction_result IR_UnreachableCodeReached = UnreachableCodeReached"
| "exit_code_from_instruction_result IR_MemoryOutOfBounds = MemoryOutOfBounds"
| "exit_code_from_instruction_result IR_TableOutOfBounds = TableOutOfBounds"
| "exit_code_from_instruction_result IR_IndirectCallToNull = IndirectCallToNull"
| "exit_code_from_instruction_result IR_IntegerDivisionByZero = IntegerDivisionByZero"
| "exit_code_from_instruction_result IR_IntegerOverflow = IntegerOverflow"
| "exit_code_from_instruction_result IR_BadConversionToInteger = BadConversionToInteger"
| "exit_code_from_instruction_result IR_BadSignature = BadSignature"
| "exit_code_from_instruction_result IR_OutOfFuel = OutOfFuel"
| "exit_code_from_instruction_result IR_UnknownExternalFunction = UnknownExternalFunction"

text \<open>
  C29. An exit code that leaves a frame as an EVM instruction result comes back as itself, with four
  exceptions: an interruption looks like success, missing funds and a missing storage slot come back
  as exhausted fuel, and exhausted memory as an access out of bounds. Success never comes from a
  failure other than an interruption.
\<close>

theorem exit_code_through_evm:
  "exit_code_from_instruction_result (instruction_result_from_exit_code c e) =
     (if c = InterruptionCalled then ExitCode_Ok
      else if c = InsufficientBalance \<or> c = MissingStorageSlot then OutOfFuel
      else if c = OutOfMemory then MemoryOutOfBounds else c)"
  by (cases c) simp_all

end
