(* ===== verification/Evm_Metadata.thy ===== *)
theory Evm_Metadata
  imports Exit_Code
begin

text \<open>
  EVM bytecode as the metadata of an ownable account keeps it (\<open>crates/evm/src/bytecode.rs\<close>,
  \<open>crates/evm/src/metadata.rs\<close>). The serialization primitives of \<open>bincode\<close>, the jump analysis and
  the hash function are parameters.
\<close>

section \<open>bytecode.rs\<close>

text \<open>What the code uses of \<open>bincode\<close> with the legacy configuration: hashes, \<open>u64\<close> and byte slices.\<close>

record bincode =
  enc_hash :: "byte list \<Rightarrow> byte list"
  dec_hash :: "byte list \<Rightarrow> (byte list \<times> byte list) option"
  enc_u64 :: "u64 \<Rightarrow> byte list"
  dec_u64 :: "byte list \<Rightarrow> (u64 \<times> byte list) option"
  enc_slice :: "byte list \<Rightarrow> byte list"
  dec_slice :: "byte list \<Rightarrow> (byte list \<times> byte list) option"

record legacy_bytecode =
  legacy_hash :: "byte list"
  legacy_code :: "byte list"

record analyzed_bytecode =
  padded_code :: "byte list"
  original_len :: u64
  jump_table :: "byte list"
  analyzed_hash :: "byte list"

definition analyzed_new :: "(byte list \<Rightarrow> byte list \<times> byte list) \<Rightarrow> byte list \<Rightarrow> byte list \<Rightarrow> analyzed_bytecode" where
  "analyzed_new analyze_legacy bytecode hash =
     (let len = word_of_nat (length bytecode); (table, padded) = analyze_legacy bytecode
      in \<lparr>padded_code = padded, original_len = len, jump_table = table, analyzed_hash = hash\<rparr>)"

definition hint_size :: "analyzed_bytecode \<Rightarrow> nat" where
  "hint_size a = 8 + length (padded_code a) + 8 + 8 + length (jump_table a) + 32"

text \<open>The writer fails when the buffer is too short; bytes behind the last write stay zero.\<close>

definition serialize :: "bincode \<Rightarrow> analyzed_bytecode \<Rightarrow> nat \<Rightarrow> byte list option" where
  "serialize B a room =
     (let out = enc_hash B (analyzed_hash a) @ enc_u64 B (original_len a) @ enc_slice B (padded_code a) @ enc_slice B (jump_table a)
      in if length out \<le> room then Some (out @ replicate (room - length out) 0) else None)"

definition deserialize :: "bincode \<Rightarrow> byte list \<Rightarrow> analyzed_bytecode option" where
  "deserialize B bytes =
     (case dec_hash B bytes of None \<Rightarrow> None | Some (hash, r1) \<Rightarrow>
      (case dec_u64 B r1 of None \<Rightarrow> None | Some (len, r2) \<Rightarrow>
      (case dec_slice B r2 of None \<Rightarrow> None | Some (bytecode, r3) \<Rightarrow>
      (case dec_slice B r3 of None \<Rightarrow> None | Some (table, r4) \<Rightarrow>
       if len > word_of_nat (length bytecode) then None
       else Some \<lparr>padded_code = bytecode, original_len = len, jump_table = table, analyzed_hash = hash\<rparr>))))"

definition as_slice :: "analyzed_bytecode \<Rightarrow> (exit_code, byte list) outcome" where
  "as_slice a = slice (padded_code a) 0 (unat (original_len a))"

definition analyzed_len :: "analyzed_bytecode \<Rightarrow> nat" where
  "analyzed_len a = unat (original_len a)"

definition analyzed_is_empty :: "analyzed_bytecode \<Rightarrow> bool" where
  "analyzed_is_empty a = (original_len a = 0)"

section \<open>metadata.rs\<close>

datatype ethereum_metadata = Legacy legacy_bytecode | Analyzed analyzed_bytecode

definition ETHEREUM_METADATA_VERSION_ANALYZED :: "byte list" where
  "ETHEREUM_METADATA_VERSION_ANALYZED = replicate 31 0 @ [1]"

definition new_analyzed ::
  "(byte list \<Rightarrow> byte list) \<Rightarrow> (byte list \<Rightarrow> byte list \<times> byte list) \<Rightarrow> byte list \<Rightarrow> ethereum_metadata" where
  "new_analyzed keccak analyze_legacy bytecode = Analyzed (analyzed_new analyze_legacy bytecode (keccak bytecode))"

definition new_legacy :: "(byte list \<Rightarrow> byte list) \<Rightarrow> byte list \<Rightarrow> ethereum_metadata" where
  "new_legacy keccak bytecode = Legacy \<lparr>legacy_hash = keccak bytecode, legacy_code = bytecode\<rparr>"

definition read_from_bytes :: "bincode \<Rightarrow> byte list \<Rightarrow> (exit_code, ethereum_metadata option) outcome" where
  "read_from_bytes B metadata =
     (if length metadata < 32 then Ok None
      else if take 32 metadata = ETHEREUM_METADATA_VERSION_ANALYZED
      then (case deserialize B (drop 32 metadata) of Some a \<Rightarrow> Ok (Some (Analyzed a)) | None \<Rightarrow> Panic)
      else Ok (Some (Legacy \<lparr>legacy_hash = take 32 metadata, legacy_code = drop 32 metadata\<rparr>)))"

definition write_to_bytes :: "bincode \<Rightarrow> ethereum_metadata \<Rightarrow> (exit_code, byte list) outcome" where
  "write_to_bytes B m =
     (case m of
        Legacy l \<Rightarrow> Ok (legacy_hash l @ legacy_code l)
      | Analyzed a \<Rightarrow> (case serialize B a (hint_size a) of
            Some out \<Rightarrow> Ok (ETHEREUM_METADATA_VERSION_ANALYZED @ out)
          | None \<Rightarrow> Panic))"

definition metadata_code_size :: "ethereum_metadata \<Rightarrow> nat" where
  "metadata_code_size m = (case m of Legacy l \<Rightarrow> length (legacy_code l) | Analyzed a \<Rightarrow> analyzed_len a)"

definition metadata_code_hash :: "ethereum_metadata \<Rightarrow> byte list" where
  "metadata_code_hash m = (case m of Legacy l \<Rightarrow> legacy_hash l | Analyzed a \<Rightarrow> analyzed_hash a)"

definition metadata_code_copy :: "ethereum_metadata \<Rightarrow> (exit_code, byte list) outcome" where
  "metadata_code_copy m =
     (case m of Legacy l \<Rightarrow> Ok (legacy_code l) | Analyzed a \<Rightarrow> slice (padded_code a) 0 (analyzed_len a))"

section \<open>Round trip\<close>

text \<open>
  The documented behaviour of the format: what is encoded is decoded, with the rest of the input left
  over; hashes are copied, numbers take eight bytes, slices carry a length of eight bytes.
\<close>

definition lawful_bincode :: "bincode \<Rightarrow> bool" where
  "lawful_bincode B =
     ((\<forall>h r. length h = 32 \<longrightarrow> dec_hash B (enc_hash B h @ r) = Some (h, r) \<and> length (enc_hash B h) = 32) \<and>
      (\<forall>n r. dec_u64 B (enc_u64 B n @ r) = Some (n, r) \<and> length (enc_u64 B n) = 8) \<and>
      (\<forall>b r. length b < 2 ^ 64 \<longrightarrow> dec_slice B (enc_slice B b @ r) = Some (b, r) \<and> length (enc_slice B b) = 8 + length b))"

text \<open>The analysis appends padding to the code.\<close>

definition lawful_analysis :: "(byte list \<Rightarrow> byte list \<times> byte list) \<Rightarrow> byte list \<Rightarrow> bool" where
  "lawful_analysis analyze_legacy code =
     (case analyze_legacy code of (table, padded) \<Rightarrow>
        take (length code) padded = code \<and> length code \<le> length padded \<and> length padded < 2 ^ 64 \<and> length table < 2 ^ 64)"

lemma serialize_deserialize:
  assumes "lawful_bincode B" "length (analyzed_hash a) = 32" "length (padded_code a) < 2 ^ 64" "length (jump_table a) < 2 ^ 64"
    "unat (original_len a) \<le> length (padded_code a)"
  shows "\<exists>out. serialize B a (hint_size a) = Some out \<and> deserialize B out = Some a"
proof -
  have le: "original_len a \<le> word_of_nat (length (padded_code a))"
    using assms(3,5) by (simp add: word_le_nat_alt unat_of_nat)
  have "dec_slice B (enc_slice B (jump_table a) @ []) = Some (jump_table a, [])"
    using assms(1,4) unfolding lawful_bincode_def by blast
  then show ?thesis
    using assms(1-4) le by (auto simp: lawful_bincode_def serialize_def deserialize_def hint_size_def Let_def not_less)
qed

lemma analyzed_round_trip:
  assumes "lawful_bincode B" "lawful_analysis analyze_legacy code" "length (keccak code) = 32"
  shows "\<exists>b m. write_to_bytes B (new_analyzed keccak analyze_legacy code) = Ok b \<and> read_from_bytes B b = Ok (Some m) \<and>
      metadata_code_size m = length code \<and> metadata_code_hash m = keccak code \<and> metadata_code_copy m = Ok code"
proof -
  obtain table padded where A: "analyze_legacy code = (table, padded)" by (cases "analyze_legacy code")
  let ?a = "\<lparr>padded_code = padded, original_len = word_of_nat (length code), jump_table = table, analyzed_hash = keccak code\<rparr>"
  have L: "unat (word_of_nat (length code) :: u64) = length code"
    using assms(2) A by (simp add: lawful_analysis_def unat_of_nat)
  have "\<exists>out. serialize B ?a (hint_size ?a) = Some out \<and> deserialize B out = Some ?a"
    using assms A L by (intro serialize_deserialize) (auto simp: lawful_analysis_def)
  then obtain out where "serialize B ?a (hint_size ?a) = Some out" "deserialize B out = Some ?a" by blast
  moreover have "length ETHEREUM_METADATA_VERSION_ANALYZED = 32" by (simp add: ETHEREUM_METADATA_VERSION_ANALYZED_def)
  ultimately show ?thesis
    using assms(2) A L
    by (simp add: write_to_bytes_def new_analyzed_def analyzed_new_def Let_def read_from_bytes_def metadata_code_size_def
        metadata_code_hash_def metadata_code_copy_def analyzed_len_def slice_def window_def lawful_analysis_def)
qed

lemma legacy_round_trip:
  assumes "length (keccak code) = 32" "keccak code \<noteq> ETHEREUM_METADATA_VERSION_ANALYZED"
  shows "\<exists>b m. write_to_bytes B (new_legacy keccak code) = Ok b \<and> read_from_bytes B b = Ok (Some m) \<and>
      metadata_code_size m = length code \<and> metadata_code_hash m = keccak code \<and> metadata_code_copy m = Ok code"
  using assms
  by (simp add: write_to_bytes_def new_legacy_def read_from_bytes_def metadata_code_size_def metadata_code_hash_def
      metadata_code_copy_def)

text \<open>
  C27. EVM code that is installed with its analysis is found again in the metadata: reading back what
  was written gives metadata with the size, the hash and the bytes of the original code, without the
  padding of the analysis, and neither direction panics. Code kept in the older form, its hash in front,
  comes back likewise unless the hash is the version marker.
\<close>

theorem evm_metadata_round_trip:
  assumes "lawful_bincode B" "lawful_analysis analyze_legacy code" "length (keccak code) = 32"
  shows "(\<exists>b m. write_to_bytes B (new_analyzed keccak analyze_legacy code) = Ok b \<and> read_from_bytes B b = Ok (Some m) \<and>
      metadata_code_size m = length code \<and> metadata_code_hash m = keccak code \<and> metadata_code_copy m = Ok code) \<and>
    (keccak code \<noteq> ETHEREUM_METADATA_VERSION_ANALYZED \<longrightarrow>
     (\<exists>b m. write_to_bytes B (new_legacy keccak code) = Ok b \<and> read_from_bytes B b = Ok (Some m) \<and>
      metadata_code_size m = length code \<and> metadata_code_hash m = keccak code \<and> metadata_code_copy m = Ok code))"
  using analyzed_round_trip [where keccak = keccak, OF assms] legacy_round_trip [of keccak code B] assms(3) by blast

definition le_bincode :: bincode where
  "le_bincode =
     \<lparr>enc_hash = id, dec_hash = \<lambda>b. if length b < 32 then None else Some (take 32 b, drop 32 b),
      enc_u64 = to_le_bytes, dec_u64 = \<lambda>b. if length b < 8 then None else Some (from_le_bytes (take 8 b), drop 8 b),
      enc_slice = \<lambda>b. to_le_bytes (word_of_nat (length b) :: u64) @ b,
      dec_slice = \<lambda>b. if length b < 8 then None
        else let n = unat (from_le_bytes (take 8 b) :: u64) in if length b < 8 + n then None else Some (take n (drop 8 b), drop (8 + n) b)\<rparr>"

lemma le_bincode_lawful: "lawful_bincode le_bincode"
  by (auto simp: lawful_bincode_def le_bincode_def Let_def unat_of_nat)

theorem evm_metadata_round_trip_witness:
  "\<exists>b m. write_to_bytes le_bincode (new_analyzed (\<lambda>_. replicate 32 7) (\<lambda>c. ([0], c @ replicate 33 0)) [0x5b]) = Ok b \<and>
     read_from_bytes le_bincode b = Ok (Some m) \<and> metadata_code_size m = 1 \<and> metadata_code_hash m = replicate 32 7 \<and>
     metadata_code_copy m = Ok [0x5b]"
  using evm_metadata_round_trip [OF le_bincode_lawful,
      where analyze_legacy = "\<lambda>c. ([0], c @ replicate 33 0)" and code = "[0x5b]" and keccak = "\<lambda>_. replicate 32 7"]
  by (simp add: lawful_analysis_def)

end
