(* ===== verification/Host_Base.thy ===== *)
theory Host_Base
  imports System_Context Syscall_Encode Evm_Result Evm_Metadata
begin

text \<open>
  What the host side of system calls is made of: the parts of \<open>revm\<close> it calls (journal, gas meter,
  gas schedule, bytecode), which are parameters, and the helpers of \<open>crates/revm/src/gas.rs\<close>,
  \<open>crates/revm/src/types.rs\<close>, \<open>crates/revm/src/result.rs\<close>, \<open>crates/sdk/src/address.rs\<close> and
  \<open>crates/types/src/genesis.rs\<close>.
\<close>

section \<open>The parameters\<close>

text \<open>\<open>JournalLoadError\<close>; the payload of database errors is dropped.\<close>

datatype load_error = ColdLoadSkipped | DBError

record 'a state_load =
  loaded :: 'a
  is_cold :: bool

record 'b account_info =
  info_balance :: u256
  info_nonce :: u64
  info_code_hash :: "byte list"
  info_code :: "'b option"
  info_is_empty :: bool

record selfdestruct_result =
  had_value :: bool
  target_exists :: bool

datatype transfer_error = OutOfFunds | OverflowPayment | CreateCollision

text \<open>The journal, over its own state \<open>'j\<close>; \<open>'r\<close> is the report of a storage write.\<close>

record ('j, 'b, 'r) journal_ops =
  sload_skip_cold_load :: "address \<Rightarrow> u256 \<Rightarrow> bool \<Rightarrow> 'j \<Rightarrow> (load_error + u256 state_load) \<times> 'j"
  sstore_skip_cold_load :: "address \<Rightarrow> u256 \<Rightarrow> u256 \<Rightarrow> bool \<Rightarrow> 'j \<Rightarrow> (load_error + 'r state_load) \<times> 'j"
  jr_sstore :: "address \<Rightarrow> u256 \<Rightarrow> u256 \<Rightarrow> 'j \<Rightarrow> unit option \<times> 'j"
  load_account_info_skip_cold_load :: "address \<Rightarrow> bool \<Rightarrow> bool \<Rightarrow> 'j \<Rightarrow> (load_error + 'b account_info state_load) \<times> 'j"
  load_account :: "address \<Rightarrow> 'j \<Rightarrow> 'b account_info state_load option \<times> 'j"
  load_account_with_code :: "address \<Rightarrow> 'j \<Rightarrow> 'b account_info state_load option \<times> 'j"
  set_code :: "address \<Rightarrow> 'b \<Rightarrow> 'j \<Rightarrow> 'j"
  journal_log :: "address \<Rightarrow> byte list list \<Rightarrow> byte list \<Rightarrow> 'j \<Rightarrow> 'j"
  selfdestruct :: "address \<Rightarrow> address \<Rightarrow> bool \<Rightarrow> 'j \<Rightarrow> (load_error + selfdestruct_result state_load) \<times> 'j"
  tload :: "address \<Rightarrow> u256 \<Rightarrow> 'j \<Rightarrow> u256 \<times> 'j"
  tstore :: "address \<Rightarrow> u256 \<Rightarrow> u256 \<Rightarrow> 'j \<Rightarrow> 'j"
  touch_account :: "address \<Rightarrow> 'j \<Rightarrow> 'j"
  jr_transfer :: "address \<Rightarrow> address \<Rightarrow> u256 \<Rightarrow> 'j \<Rightarrow> transfer_error option option \<times> 'j"
  db_block_hash :: "u64 \<Rightarrow> 'j \<Rightarrow> byte list option \<times> 'j"

record 'g gas_ops =
  remaining :: "'g \<Rightarrow> u64"
  total_gas_spent :: "'g \<Rightarrow> u64"
  reservoir :: "'g \<Rightarrow> u64"
  record_regular_cost :: "u64 \<Rightarrow> 'g \<Rightarrow> bool \<times> 'g"
  record_state_cost :: "u64 \<Rightarrow> 'g \<Rightarrow> bool \<times> 'g"
  record_refund :: "64 word \<Rightarrow> 'g \<Rightarrow> 'g"
  erase_cost :: "u64 \<Rightarrow> 'g \<Rightarrow> 'g"
  spend_all :: "'g \<Rightarrow> 'g"
  new_spent :: "u64 \<Rightarrow> 'g"

record 'r gas_schedule =
  cold_storage_cost :: u64
  warm_storage_read_cost :: u64
  cold_account_additional_cost :: u64
  call_stipend :: u64
  transfer_value_cost :: u64
  create_cost :: u64
  sstore_static_gas :: u64
  sstore_dynamic_gas :: "'r \<Rightarrow> bool \<Rightarrow> u64"
  sstore_refund :: "'r \<Rightarrow> 64 word"
  call_stipend_reduction :: "u64 \<Rightarrow> u64"
  initcode_cost :: "nat \<Rightarrow> u64"
  create2_cost :: "nat \<Rightarrow> u64"
  log_cost :: "u8 \<Rightarrow> u64 \<Rightarrow> u64"
  selfdestruct_cost :: "bool \<Rightarrow> bool \<Rightarrow> u64"
  extcodecopy_cost :: "nat \<Rightarrow> u64"
  new_account_cost :: "bool \<Rightarrow> bool \<Rightarrow> u64"
  new_account_state_gas :: u64
  gas_WARM_STORAGE_READ_COST :: u64
  gas_COLD_ACCOUNT_ACCESS_COST :: u64
  gas_LOG :: u64
  gas_LOW :: u64
  gas_BLOCKHASH :: u64

record 'b bytecode_ops =
  as_ownable :: "'b \<Rightarrow> (address \<times> byte list) option"
  new_ownable_account :: "address \<Rightarrow> byte list \<Rightarrow> 'b"
  rwasm_bytecode :: "byte list \<Rightarrow> 'b option"
  eip7702_address :: "'b \<Rightarrow> address option"
  bytecode_len :: "'b \<Rightarrow> nat"
  original_bytes :: "'b \<Rightarrow> byte list"
  default_bytecode :: 'b

record ('j, 'g, 'b, 'r) revm =
  J :: "('j, 'b, 'r) journal_ops"
  M :: "'g gas_ops"
  S :: "'r gas_schedule"
  B :: "'b bytecode_ops"
  bincode_fns :: bincode
  keccak256 :: "byte list \<Rightarrow> byte list"
  analyze_legacy :: "byte list \<Rightarrow> byte list \<times> byte list"
  KECCAK_EMPTY :: "byte list"
  is_berlin :: bool
  is_spurious_dragon :: bool
  is_amsterdam_eip8037_enabled :: bool
  spec_precompiles :: "address \<Rightarrow> bool"
  current_block :: u64
  wasm_max_code_size :: "byte list \<Rightarrow> nat option"
  WASM_MAX_CODE_SIZE :: nat
  MAX_INITCODE_SIZE :: nat

section \<open>Frames and their outcomes\<close>

datatype call_value = Transfer u256 | Apparent u256

datatype call_scheme = Scheme_Call | Scheme_CallCode | Scheme_DelegateCall | Scheme_StaticCall

record 'b call_inputs =
  call_input :: "byte list"
  call_gas_limit :: u64
  call_reservoir :: u64
  call_bytecode_address :: address
  known_bytecode :: "byte list \<times> 'b"
  call_target_address :: address
  call_caller :: address
  call_value :: call_value
  call_scheme :: call_scheme
  call_is_static :: bool

datatype create_scheme = Create | Create2 u256

record create_inputs =
  create_caller :: address
  create_scheme :: create_scheme
  create_value :: u256
  create_init_code :: "byte list"
  create_gas_limit :: u64
  create_reservoir :: u64

datatype 'b frame_input = CallFrame "'b call_inputs" | CreateFrame create_inputs

text \<open>\<open>ExecutionResult\<close> and \<open>NextAction\<close> of \<open>result.rs\<close>.\<close>

record 'g execution_result =
  result :: instruction_result
  result_output :: "byte list"
  result_gas :: 'g

datatype ('b, 'g) next_action = NewFrame "'b frame_input" | Return "'g execution_result" | InterruptionResult

definition action_error :: "exit_code \<Rightarrow> 'g \<Rightarrow> ('b, 'g) next_action" where
  "action_error exit_code g =
     Return \<lparr>result = instruction_result_from_exit_code exit_code True, result_output = [], result_gas = g\<rparr>"

definition action_out_of_fuel :: "'g \<Rightarrow> ('b, 'g) next_action" where
  "action_out_of_fuel g = action_error OutOfFuel g"

text \<open>
  While a system call is served the host has the journal and the gas meter of the frame. A step either
  goes on with a value or leaves: with a result for the contract, by halting the frame, with a new
  frame, with a database error, or by a panic of the host.
\<close>

record ('j, 'g) world =
  journal :: 'j
  gas :: 'g

datatype 'b host_exit = Result "byte list" exit_code | Halt exit_code | Frame "'b frame_input" | Fatal | Abort

type_synonym ('j, 'g, 'b, 'a) host = "('j, 'g) world \<Rightarrow> ('b host_exit + 'a) \<times> ('j, 'g) world"

definition hret :: "'a \<Rightarrow> ('j, 'g, 'b, 'a) host" where
  "hret a w = (Inr a, w)"

definition hexit :: "'b host_exit \<Rightarrow> ('j, 'g, 'b, 'a) host" where
  "hexit x w = (Inl x, w)"

definition hbind :: "('j, 'g, 'b, 'a) host \<Rightarrow> ('a \<Rightarrow> ('j, 'g, 'b, 'c) host) \<Rightarrow> ('j, 'g, 'b, 'c) host" where
  "hbind f k w = (case f w of (Inl x, w') \<Rightarrow> (Inl x, w') | (Inr a, w') \<Rightarrow> k a w')"

definition assert_halt :: "bool \<Rightarrow> exit_code \<Rightarrow> ('j, 'g, 'b, unit) host" where
  "assert_halt c e = (if c then hret () else hexit (Halt e))"

definition on_journal :: "('j \<Rightarrow> 'a \<times> 'j) \<Rightarrow> ('j, 'g, 'b, 'a) host" where
  "on_journal f w = (case f (journal w) of (a, j) \<Rightarrow> (Inr a, w\<lparr>journal := j\<rparr>))"

definition update_journal :: "('j \<Rightarrow> 'j) \<Rightarrow> ('j, 'g, 'b, unit) host" where
  "update_journal f w = (Inr (), w\<lparr>journal := f (journal w)\<rparr>)"

definition read_gas :: "('g \<Rightarrow> 'a) \<Rightarrow> ('j, 'g, 'b, 'a) host" where
  "read_gas f w = (Inr (f (gas w)), w)"

definition charge_regular_gas :: "('j, 'g, 'b, 'r) revm \<Rightarrow> u64 \<Rightarrow> ('j, 'g, 'b, unit) host" where
  "charge_regular_gas R cost w =
     (case record_regular_cost (M R) cost (gas w) of
        (enough, g) \<Rightarrow> (if enough then Inr () else Inl (Halt OutOfFuel), w\<lparr>gas := g\<rparr>))"

definition charge_state_gas :: "('j, 'g, 'b, 'r) revm \<Rightarrow> u64 \<Rightarrow> ('j, 'g, 'b, unit) host" where
  "charge_state_gas R cost w =
     (case record_state_cost (M R) cost (gas w) of
        (enough, g) \<Rightarrow> (if enough then Inr () else Inl (Halt OutOfFuel), w\<lparr>gas := g\<rparr>))"

definition unwrap_journal_load_error :: "load_error + 'a \<Rightarrow> ('j, 'g, 'b, 'a) host" where
  "unwrap_journal_load_error r =
     (case r of Inr v \<Rightarrow> hret v | Inl ColdLoadSkipped \<Rightarrow> hexit (Halt OutOfFuel) | Inl DBError \<Rightarrow> hexit Fatal)"

text \<open>\<open>?\<close> on the result of a journal call that can only fail in the database.\<close>

definition or_fatal :: "'a option \<Rightarrow> ('j, 'g, 'b, 'a) host" where
  "or_fatal r = (case r of Some v \<Rightarrow> hret v | None \<Rightarrow> hexit Fatal)"

definition or_abort :: "(exit_code, 'a) outcome \<Rightarrow> ('j, 'g, 'b, 'a) host" where
  "or_abort r = (case r of Ok v \<Rightarrow> hret v | _ \<Rightarrow> hexit Abort)"

section \<open>gas.rs\<close>

datatype sstore_gas_error = SstoreOutOfFuel | Store load_error

definition sstore_gas ::
  "('j, 'g, 'b, 'r) revm \<Rightarrow> (bool \<Rightarrow> 'j \<Rightarrow> (load_error + 'r state_load) \<times> 'j) \<Rightarrow> ('j, 'g) world \<Rightarrow>
   (sstore_gas_error + unit) \<times> ('j, 'g) world" where
  "sstore_gas R store w =
     (if remaining (M R) (gas w) \<le> call_stipend (S R) then (Inl SstoreOutOfFuel, w)
      else (case record_regular_cost (M R) (sstore_static_gas (S R)) (gas w) of (enough, g) \<Rightarrow>
        if \<not> enough then (Inl SstoreOutOfFuel, w\<lparr>gas := g\<rparr>)
        else (let skip_cold = remaining (M R) g < cold_storage_cost (S R)
              in case store skip_cold (journal w) of
                   (Inl e, j) \<Rightarrow> (Inl (Store e), w\<lparr>gas := g, journal := j\<rparr>)
                 | (Inr state_load, j) \<Rightarrow>
                     (let gas_cost = sstore_dynamic_gas (S R) (loaded state_load) (is_cold state_load)
                      in case record_regular_cost (M R) gas_cost g of (enough, g) \<Rightarrow>
                           if \<not> enough then (Inl SstoreOutOfFuel, w\<lparr>gas := g, journal := j\<rparr>)
                           else (Inr (), w\<lparr>gas := record_refund (M R) (sstore_refund (S R) (loaded state_load)) g, journal := j\<rparr>)))))"

section \<open>types.rs\<close>

definition is_evm_system_precompile :: "('j, 'g, 'b, 'r) revm \<Rightarrow> address \<Rightarrow> bool" where
  "is_evm_system_precompile R a = spec_precompiles R a"

text \<open>
  Cost, state gas, code, code hash and address of the code that a call to \<open>address\<close> runs. Errors of
  the journal are given back to the caller.
\<close>

definition load_account_delegated ::
  "('j, 'g, 'b, 'r) revm \<Rightarrow> address \<Rightarrow> bool \<Rightarrow> bool \<Rightarrow> ('j, 'g) world \<Rightarrow>
   (load_error + u64 \<times> u64 \<times> 'b \<times> byte list \<times> address) \<times> ('j, 'g) world" where
  "load_account_delegated R address transfers_value create_empty_account w =
     (let remaining_gas = remaining (M R) (gas w);
          additional_cold_cost = cold_account_additional_cost (S R);
          skip_cold_load = is_berlin R \<and> remaining_gas < additional_cold_cost
      in case load_account_info_skip_cold_load (J R) address True skip_cold_load (journal w) of
           (Inl e, j) \<Rightarrow> (Inl e, w\<lparr>journal := j\<rparr>)
         | (Inr account, j) \<Rightarrow>
             (let cost = (if is_berlin R \<and> is_cold account then additional_cold_cost else 0);
                  info = loaded account;
                  bytecode = (case info_code info of Some b \<Rightarrow> b | None \<Rightarrow> default_bytecode (B R));
                  code_hash = info_code_hash info;
                  is_empty = (if create_empty_account \<and> is_evm_system_precompile R address then True else info_is_empty info)
              in if create_empty_account \<and> is_empty
                 then (Inr (cost + new_account_cost (S R) (is_spurious_dragon R) transfers_value,
                            if is_amsterdam_eip8037_enabled R \<and> transfers_value then new_account_state_gas (S R) else 0,
                            bytecode, code_hash, address), w\<lparr>journal := j\<rparr>)
                 else (case Option.bind (info_code info) (eip7702_address (B R)) of
                         None \<Rightarrow> (Inr (cost, 0, bytecode, code_hash, address), w\<lparr>journal := j\<rparr>)
                       | Some delegate \<Rightarrow>
                           (let cost = cost + warm_storage_read_cost (S R)
                            in if cost > remaining_gas then (Inl ColdLoadSkipped, w\<lparr>journal := j\<rparr>)
                               else (case load_account_info_skip_cold_load (J R) delegate True
                                            (remaining_gas < cost + additional_cold_cost) j of
                                       (Inl e, j) \<Rightarrow> (Inl e, w\<lparr>journal := j\<rparr>)
                                     | (Inr d, j) \<Rightarrow>
                                         (Inr (if is_cold d then cost + additional_cold_cost else cost, 0,
                                               case info_code (loaded d) of Some b \<Rightarrow> b | None \<Rightarrow> default_bytecode (B R),
                                               info_code_hash (loaded d), delegate), w\<lparr>journal := j\<rparr>))))))"

section \<open>address.rs and genesis.rs\<close>

definition calc_create_metadata_address :: "(byte list \<Rightarrow> byte list) \<Rightarrow> address \<Rightarrow> u256 \<Rightarrow> address" where
  "calc_create_metadata_address keccak owner salt =
     (let bytes = replicate 53 0; bytes = bytes[0 := 0x44];
          bytes = blit bytes 1 (to_be_bytes owner); bytes = blit bytes 21 (to_be_bytes salt)
      in from_be_bytes (drop 12 (keccak bytes)))"

definition calc_create2_address :: "(byte list \<Rightarrow> byte list) \<Rightarrow> address \<Rightarrow> u256 \<Rightarrow> byte list \<Rightarrow> address" where
  "calc_create2_address keccak deployer salt init_code_hash =
     (let bytes = replicate 85 0; bytes = bytes[0 := 0xff];
          bytes = blit bytes 1 (to_be_bytes deployer); bytes = blit bytes 21 (to_be_bytes salt);
          bytes = blit bytes 53 init_code_hash
      in from_be_bytes (drop 12 (keccak bytes)))"

definition PRECOMPILE_EVM_RUNTIME :: address where
  "PRECOMPILE_EVM_RUNTIME = 0x520001"

definition PRECOMPILE_SVM_RUNTIME :: address where
  "PRECOMPILE_SVM_RUNTIME = 0x520003"

definition PRECOMPILE_WEBAUTHN_VERIFIER :: address where
  "PRECOMPILE_WEBAUTHN_VERIFIER = 0x520005"

definition PRECOMPILE_OAUTH2_VERIFIER :: address where
  "PRECOMPILE_OAUTH2_VERIFIER = 0x520006"

definition PRECOMPILE_NITRO_VERIFIER :: address where
  "PRECOMPILE_NITRO_VERIFIER = 0x520007"

definition PRECOMPILE_UNIVERSAL_TOKEN_RUNTIME :: address where
  "PRECOMPILE_UNIVERSAL_TOKEN_RUNTIME = 0x520008"

definition PRECOMPILE_WASM_RUNTIME :: address where
  "PRECOMPILE_WASM_RUNTIME = 0x520009"

definition PRECOMPILE_RUNTIME_UPGRADE :: address where
  "PRECOMPILE_RUNTIME_UPGRADE = 0x520010"

definition PRECOMPILE_EIP2935 :: address where
  "PRECOMPILE_EIP2935 = 0x0000F90827F1C53a10cb7A02335B175320002935"

definition PRECOMPILE_EIP7951 :: address where
  "PRECOMPILE_EIP7951 = 0x100"

text \<open>The precompiles of the EVM that the system runtime executes have the addresses 1 to 17.\<close>

definition EXECUTE_USING_SYSTEM_RUNTIME_ADDRESSES :: "address list" where
  "EXECUTE_USING_SYSTEM_RUNTIME_ADDRESSES =
     [0x05, 0x09, 0x0b, 0x0c, 0x0d, 0x0e, 0x10, 0x11, 0x0f, 0x06, 0x07, 0x08, PRECOMPILE_EIP7951,
      PRECOMPILE_UNIVERSAL_TOKEN_RUNTIME, PRECOMPILE_EVM_RUNTIME, 0x04, 0x0a, PRECOMPILE_NITRO_VERIFIER,
      PRECOMPILE_OAUTH2_VERIFIER, 0x03, 0x01, 0x02, PRECOMPILE_WASM_RUNTIME, PRECOMPILE_WEBAUTHN_VERIFIER]"

definition is_execute_using_system_runtime :: "address \<Rightarrow> bool" where
  "is_execute_using_system_runtime a = (a \<in> set EXECUTE_USING_SYSTEM_RUNTIME_ADDRESSES)"

definition is_delegated_runtime_address :: "address \<Rightarrow> bool" where
  "is_delegated_runtime_address a =
     (a = PRECOMPILE_EVM_RUNTIME \<or> a = PRECOMPILE_SVM_RUNTIME \<or> a = PRECOMPILE_UNIVERSAL_TOKEN_RUNTIME \<or> a = PRECOMPILE_WASM_RUNTIME)"

end
