(* ===== verification/Host_Syscall.thy ===== *)
theory Host_Syscall
  imports Host_Base
begin

text \<open>
  The host side of system calls, \<open>execute_rwasm_interruption\<close> of \<open>crates/revm/src/syscall.rs\<close>: one
  definition per system call, the dispatch on the identifier, and the packaging of the outcome for
  the frame that was interrupted. Tracing (the inspector) and debug output are not modelled.
\<close>

section \<open>Inputs\<close>

record host_frame =
  frame_target :: address
  frame_owner :: "address option"
  frame_caller :: address
  frame_value :: u256
  frame_static :: bool

record 'g interruption_inputs =
  int_call_id :: u32
  int_code_hash :: u256
  int_start :: nat
  int_end :: nat
  int_fuel_limit :: u64
  int_state :: u32
  int_gas :: 'g

text \<open>\<open>MemoryReaderTr\<close>: the bytes of guest memory at an offset, if they are in bounds.\<close>

type_synonym memory_reader = "u32 \<Rightarrow> nat \<Rightarrow> nat \<Rightarrow> byte list option"

definition int_len :: "'g interruption_inputs \<Rightarrow> nat" where
  "int_len inp = int_end inp - int_start inp"

text \<open>
  \<open>get_input_validated!\<close> in its three forms. The second and the third also give the rest of the input,
  which the caller reads later.
\<close>

definition read_input :: "memory_reader \<Rightarrow> 'g interruption_inputs \<Rightarrow> nat \<Rightarrow> ('j, 'g, 'b, byte list) host" where
  "read_input mr inp len =
     (case mr (int_call_id inp) (int_start inp) len of Some b \<Rightarrow> hret b | None \<Rightarrow> hexit (Result [] MemoryOutOfBounds))"

definition get_input_eq :: "memory_reader \<Rightarrow> 'g interruption_inputs \<Rightarrow> nat \<Rightarrow> ('j, 'g, 'b, byte list) host" where
  "get_input_eq mr inp len =
     hbind (assert_halt (int_len inp = len \<and> int_state inp = STATE_MAIN) MalformedBuiltinParams) (\<lambda>_. read_input mr inp len)"

definition lazy_rest :: "memory_reader \<Rightarrow> 'g interruption_inputs \<Rightarrow> nat \<Rightarrow> byte list option" where
  "lazy_rest mr inp len = mr (int_call_id inp) (int_start inp + len) (int_end inp - int_start inp - len)"

definition get_input_ge ::
  "memory_reader \<Rightarrow> 'g interruption_inputs \<Rightarrow> nat \<Rightarrow> ('j, 'g, 'b, byte list \<times> byte list option) host" where
  "get_input_ge mr inp len =
     hbind (assert_halt (int_len inp \<ge> len \<and> int_state inp = STATE_MAIN) MalformedBuiltinParams)
       (\<lambda>_. hbind (read_input mr inp len) (\<lambda>input. hret (input, lazy_rest mr inp len)))"

definition get_input_gt ::
  "memory_reader \<Rightarrow> 'g interruption_inputs \<Rightarrow> nat \<Rightarrow> ('j, 'g, 'b, byte list \<times> byte list option) host" where
  "get_input_gt mr inp len =
     hbind (assert_halt (int_len inp > len \<and> int_state inp = STATE_MAIN) MalformedBuiltinParams)
       (\<lambda>_. hbind (read_input mr inp (len + 1)) (\<lambda>input. hret (input, lazy_rest mr inp (len + 1))))"

definition or_out_of_bounds :: "byte list option \<Rightarrow> ('j, 'g, 'b, byte list) host" where
  "or_out_of_bounds r = (case r of Some b \<Rightarrow> hret b | None \<Rightarrow> hexit (Halt MemoryOutOfBounds))"

section \<open>Storage\<close>

definition storage_load :: "('j, 'g, 'b, 'r) revm \<Rightarrow> address \<Rightarrow> u256 \<Rightarrow> ('j, 'g, 'b, u256) host" where
  "storage_load R a slot =
     hbind (read_gas (\<lambda>g. remaining (M R) g < cold_storage_cost (S R))) (\<lambda>skip_cold.
     hbind (on_journal (sload_skip_cold_load (J R) a slot skip_cold)) (\<lambda>r.
     hbind (unwrap_journal_load_error r) (\<lambda>value.
     hbind (charge_regular_gas R (if is_cold value then cold_storage_cost (S R) else warm_storage_read_cost (S R))) (\<lambda>_.
     hret (loaded value)))))"

definition storage_store :: "('j, 'g, 'b, 'r) revm \<Rightarrow> address \<Rightarrow> u256 \<Rightarrow> u256 \<Rightarrow> ('j, 'g, 'b, unit) host" where
  "storage_store R a slot new_value w =
     (case sstore_gas R (\<lambda>skip_cold. sstore_skip_cold_load (J R) a slot new_value skip_cold) w of
        (Inr u, w') \<Rightarrow> (Inr u, w')
      | (Inl SstoreOutOfFuel, w') \<Rightarrow> (Inl (Halt OutOfFuel), w')
      | (Inl (Store ColdLoadSkipped), w') \<Rightarrow> (Inl (Halt OutOfFuel), w')
      | (Inl (Store DBError), w') \<Rightarrow> (Inl Fatal, w'))"

definition host_storage_read where
  "host_storage_read R mr fr inp =
     hbind (get_input_eq mr inp 32) (\<lambda>input.
     hbind (storage_load R (frame_target fr) (from_le_bytes (window input 0 32))) (\<lambda>value.
     hret (Result (to_le_bytes value) ExitCode_Ok)))"

definition host_storage_write where
  "host_storage_write R mr fr inp =
     hbind (assert_halt (\<not> frame_static fr) StateChangeDuringStaticCall) (\<lambda>_.
     hbind (get_input_eq mr inp 64) (\<lambda>input.
     hbind (storage_store R (frame_target fr) (from_le_bytes (window input 0 32)) (from_le_bytes (window input 32 32))) (\<lambda>_.
     hret (Result [] ExitCode_Ok))))"

section \<open>Calls\<close>

definition call_account ::
  "('j, 'g, 'b, 'r) revm \<Rightarrow> address \<Rightarrow> bool \<Rightarrow> bool \<Rightarrow> ('j, 'g, 'b, 'b \<times> byte list \<times> address) host" where
  "call_account R a transfers_value create_empty_account =
     hbind (\<lambda>w. case load_account_delegated R a transfers_value create_empty_account w of (r, w') \<Rightarrow> (Inr r, w')) (\<lambda>r.
     hbind (unwrap_journal_load_error r) (\<lambda>(gas_cost, state_gas_cost, bytecode, code_hash, bytecode_address).
     hbind (charge_regular_gas R gas_cost) (\<lambda>_.
     hbind (charge_state_gas R state_gas_cost) (\<lambda>_.
     hret (bytecode, code_hash, bytecode_address)))))"

definition charge_call_gas :: "('j, 'g, 'b, 'r) revm \<Rightarrow> 'g interruption_inputs \<Rightarrow> ('j, 'g, 'b, u64) host" where
  "charge_call_gas R inp =
     hbind (read_gas (\<lambda>g. min (call_stipend_reduction (S R) (remaining (M R) g)) (int_fuel_limit inp div FUEL_DENOM_RATE))) (\<lambda>gas_limit.
     hbind (charge_regular_gas R gas_limit) (\<lambda>_. hret gas_limit))"

definition saturating_add_u64 :: "u64 \<Rightarrow> u64 \<Rightarrow> u64" where
  "saturating_add_u64 a b = (if a + b < a then - 1 else a + b)"

definition host_call where
  "host_call R mr fr inp =
     hbind (get_input_ge mr inp (20 + 32)) (\<lambda>(input, rest).
     let target = from_be_bytes (window input 0 20); value = from_le_bytes (window input 20 32); has_transfer = value \<noteq> 0
     in hbind (assert_halt (\<not> (frame_static fr \<and> has_transfer)) StateChangeDuringStaticCall) (\<lambda>_.
     hbind (charge_regular_gas R (gas_WARM_STORAGE_READ_COST (S R))) (\<lambda>_.
     hbind (if has_transfer then charge_regular_gas R (transfer_value_cost (S R)) else hret ()) (\<lambda>_.
     hbind (call_account R target has_transfer True) (\<lambda>(bytecode, code_hash, bytecode_address).
     hbind (charge_call_gas R inp) (\<lambda>gas_limit.
     let gas_limit = (if has_transfer then saturating_add_u64 gas_limit (call_stipend (S R)) else gas_limit)
     in hbind (or_out_of_bounds rest) (\<lambda>contract_input.
     hbind (read_gas (reservoir (M R))) (\<lambda>res.
     hret (Frame (CallFrame
       \<lparr>call_input = contract_input, call_gas_limit = gas_limit, call_reservoir = res, call_bytecode_address = bytecode_address,
        known_bytecode = (code_hash, bytecode), call_target_address = target, call_caller = frame_target fr,
        call_value = Transfer value, call_scheme = Scheme_Call, call_is_static = frame_static fr\<rparr>))))))))))"

definition host_static_call where
  "host_static_call R mr fr inp =
     hbind (get_input_ge mr inp 20) (\<lambda>(input, rest).
     let target = from_be_bytes (window input 0 20)
     in hbind (charge_regular_gas R (gas_WARM_STORAGE_READ_COST (S R))) (\<lambda>_.
     hbind (call_account R target False False) (\<lambda>(bytecode, code_hash, bytecode_address).
     hbind (charge_call_gas R inp) (\<lambda>gas_limit.
     hbind (or_out_of_bounds rest) (\<lambda>contract_input.
     hbind (read_gas (reservoir (M R))) (\<lambda>res.
     hret (Frame (CallFrame
       \<lparr>call_input = contract_input, call_gas_limit = gas_limit, call_reservoir = res, call_bytecode_address = bytecode_address,
        known_bytecode = (code_hash, bytecode), call_target_address = target, call_caller = frame_target fr,
        call_value = Transfer 0, call_scheme = Scheme_StaticCall, call_is_static = True\<rparr>))))))))"

definition host_call_code where
  "host_call_code R mr fr inp =
     hbind (get_input_ge mr inp (20 + 32)) (\<lambda>(input, rest).
     let target = from_be_bytes (window input 0 20); value = from_le_bytes (window input 20 32); has_transfer = value \<noteq> 0
     in hbind (assert_halt (\<not> (frame_static fr \<and> has_transfer)) StateChangeDuringStaticCall) (\<lambda>_.
     hbind (charge_regular_gas R (gas_WARM_STORAGE_READ_COST (S R))) (\<lambda>_.
     hbind (if has_transfer then charge_regular_gas R (transfer_value_cost (S R)) else hret ()) (\<lambda>_.
     hbind (call_account R target has_transfer False) (\<lambda>(bytecode, code_hash, bytecode_address).
     hbind (charge_call_gas R inp) (\<lambda>gas_limit.
     let gas_limit = (if value \<noteq> 0 then saturating_add_u64 gas_limit (call_stipend (S R)) else gas_limit)
     in hbind (or_out_of_bounds rest) (\<lambda>contract_input.
     hbind (read_gas (reservoir (M R))) (\<lambda>res.
     hret (Frame (CallFrame
       \<lparr>call_input = contract_input, call_gas_limit = gas_limit, call_reservoir = res, call_bytecode_address = bytecode_address,
        known_bytecode = (code_hash, bytecode), call_target_address = frame_target fr, call_caller = frame_target fr,
        call_value = Transfer value, call_scheme = Scheme_CallCode, call_is_static = frame_static fr\<rparr>))))))))))"

definition host_delegate_call where
  "host_delegate_call R mr fr inp =
     hbind (get_input_ge mr inp 20) (\<lambda>(input, rest).
     let target = from_be_bytes (window input 0 20)
     in hbind (charge_regular_gas R (gas_WARM_STORAGE_READ_COST (S R))) (\<lambda>_.
     hbind (call_account R target False False) (\<lambda>(bytecode, code_hash, bytecode_address).
     hbind (charge_call_gas R inp) (\<lambda>gas_limit.
     hbind (or_out_of_bounds rest) (\<lambda>contract_input.
     hbind (read_gas (reservoir (M R))) (\<lambda>res.
     hret (Frame (CallFrame
       \<lparr>call_input = contract_input, call_gas_limit = gas_limit, call_reservoir = res, call_bytecode_address = bytecode_address,
        known_bytecode = (code_hash, bytecode), call_target_address = frame_target fr, call_caller = frame_caller fr,
        call_value = Apparent (frame_value fr), call_scheme = Scheme_DelegateCall, call_is_static = frame_static fr\<rparr>))))))))"

definition host_create where
  "host_create R mr fr inp =
     hbind (assert_halt (\<not> frame_static fr) StateChangeDuringStaticCall) (\<lambda>_.
     hbind (assert_halt (int_len inp \<le> WASM_MAX_CODE_SIZE R + 32 + 32) MalformedBuiltinParams) (\<lambda>_.
     let is_create2 = (int_code_hash inp = SYSCALL_ID_CREATE2)
     in hbind (get_input_ge mr inp (if is_create2 then 32 + 32 else 32)) (\<lambda>(input, rest).
     let value = from_le_bytes (window input 0 32);
         scheme = (if is_create2 then Create2 (from_le_bytes (window input 32 32)) else Create);
         init_code_length = int_len inp - length input
     in hbind (if init_code_length > 0 then charge_regular_gas R (initcode_cost (S R) init_code_length) else hret ()) (\<lambda>_.
     hbind (or_out_of_bounds rest) (\<lambda>init_code.
     let max_initcode_size = (case wasm_max_code_size R init_code of Some n \<Rightarrow> n | None \<Rightarrow> MAX_INITCODE_SIZE R)
     in hbind (assert_halt (init_code_length \<le> max_initcode_size) CreateContractSizeLimit) (\<lambda>_.
     hbind (charge_regular_gas R (if is_create2 then create2_cost (S R) init_code_length else create_cost (S R))) (\<lambda>_.
     hbind (read_gas (\<lambda>g. remaining (M R) g - remaining (M R) g div 64)) (\<lambda>gas_limit.
     hbind (charge_regular_gas R gas_limit) (\<lambda>_.
     hbind (read_gas (reservoir (M R))) (\<lambda>res.
     hret (Frame (CreateFrame
       \<lparr>create_caller = frame_target fr, create_scheme = scheme, create_value = value, create_init_code = init_code,
        create_gas_limit = gas_limit, create_reservoir = res\<rparr>))))))))))))"

section \<open>Logs and accounts\<close>

definition host_emit_log where
  "host_emit_log R mr fr inp =
     hbind (assert_halt (\<not> frame_static fr) StateChangeDuringStaticCall) (\<lambda>_.
     hbind (assert_halt (int_start inp < int_end inp \<and> int_state inp = STATE_MAIN) MalformedBuiltinParams) (\<lambda>_.
     hbind (read_input mr inp 1) (\<lambda>first.
     let topics_len = unat (hd first)
     in hbind (assert_halt (topics_len \<le> 4) MalformedBuiltinParams) (\<lambda>_.
     hbind (get_input_gt mr inp (topics_len * 32)) (\<lambda>(input, rest).
     let topics = map (\<lambda>i. window input (1 + i * 32) 32) [0..<topics_len];
         data_length = int_len inp - 1 - topics_len * 32
     in hbind (charge_regular_gas R (gas_LOG (S R) + log_cost (S R) (word_of_nat topics_len) (word_of_nat data_length))) (\<lambda>_.
     hbind (or_out_of_bounds rest) (\<lambda>d.
     hbind (update_journal (journal_log (J R) (frame_target fr) topics d)) (\<lambda>_.
     hret (Result [] ExitCode_Ok)))))))))"

definition host_destroy_account where
  "host_destroy_account R mr fr inp =
     hbind (get_input_eq mr inp 20) (\<lambda>input.
     hbind (assert_halt (\<not> frame_static fr) StateChangeDuringStaticCall) (\<lambda>_.
     let target = from_be_bytes (window input 0 20)
     in hbind (read_gas (\<lambda>g. remaining (M R) g < cold_account_additional_cost (S R) + warm_storage_read_cost (S R))) (\<lambda>skip_cold.
     hbind (on_journal (selfdestruct (J R) (frame_target fr) target skip_cold)) (\<lambda>r.
     hbind (unwrap_journal_load_error r) (\<lambda>res.
     let exists = (if target_exists (loaded res) \<and> is_evm_system_precompile R target then False else target_exists (loaded res));
         should_charge_top_up = had_value (loaded res) \<and> \<not> exists
     in hbind (charge_regular_gas R (5000 + selfdestruct_cost (S R) should_charge_top_up (is_cold res))) (\<lambda>_.
     hret (Result [] ExitCode_Ok)))))))"

text \<open>An account with its code, paid for as cold or warm.\<close>

definition account_load ::
  "('j, 'g, 'b, 'r) revm \<Rightarrow> address \<Rightarrow> bool \<Rightarrow> ('j, 'g, 'b, 'b account_info) host" where
  "account_load R a load_code =
     hbind (read_gas (\<lambda>g. remaining (M R) g < cold_account_additional_cost (S R))) (\<lambda>skip_cold.
     hbind (on_journal (load_account_info_skip_cold_load (J R) a load_code skip_cold)) (\<lambda>r.
     hbind (unwrap_journal_load_error r) (\<lambda>account.
     hbind (charge_regular_gas R (if is_cold account then gas_COLD_ACCOUNT_ACCESS_COST (S R) else gas_WARM_STORAGE_READ_COST (S R))) (\<lambda>_.
     hret (loaded account)))))"

definition host_balance where
  "host_balance R mr fr inp =
     hbind (get_input_eq mr inp 20) (\<lambda>input.
     hbind (account_load R (from_be_bytes (window input 0 20)) False) (\<lambda>info.
     hret (Result (to_le_bytes (info_balance info)) ExitCode_Ok)))"

definition host_self_balance where
  "host_self_balance R mr fr inp =
     hbind (get_input_eq mr inp 0) (\<lambda>_.
     hbind (on_journal (load_account (J R) (frame_target fr))) (\<lambda>r.
     hbind (or_fatal r) (\<lambda>value.
     hbind (charge_regular_gas R (gas_LOW (S R))) (\<lambda>_.
     hret (Result (to_le_bytes (info_balance (loaded value))) ExitCode_Ok)))))"

text \<open>The code of an account whose owner is the EVM runtime is in its metadata.\<close>

definition evm_metadata_of :: "('j, 'g, 'b, 'r) revm \<Rightarrow> 'b account_info \<Rightarrow> byte list option" where
  "evm_metadata_of R info =
     (case Option.bind (info_code info) (as_ownable (B R)) of
        Some (owner, metadata) \<Rightarrow> if owner = PRECOMPILE_EVM_RUNTIME then Some metadata else None
      | None \<Rightarrow> None)"

definition evm_metadata_read ::
  "('j, 'g, 'b, 'r) revm \<Rightarrow> byte list \<Rightarrow> (ethereum_metadata \<Rightarrow> (exit_code, 'a) outcome) \<Rightarrow> 'a \<Rightarrow> ('j, 'g, 'b, 'a) host" where
  "evm_metadata_read R metadata f dflt =
     or_abort (oc_bind (read_from_bytes (bincode_fns R) metadata) (\<lambda>m. case m of Some e \<Rightarrow> f e | None \<Rightarrow> Ok dflt))"

definition host_code_size where
  "host_code_size R mr fr inp =
     hbind (get_input_eq mr inp 20) (\<lambda>input.
     let a = from_be_bytes (window input 0 20)
     in hbind (account_load R a True) (\<lambda>info.
     hbind (case evm_metadata_of R info of
              Some m \<Rightarrow> evm_metadata_read R m (\<lambda>e. Ok (metadata_code_size e)) 0
            | None \<Rightarrow> hret (case info_code info of Some c \<Rightarrow> bytecode_len (B R) c | None \<Rightarrow> 0)) (\<lambda>code_len.
     let code_len = (if is_evm_system_precompile R a then 0 else code_len)
     in hret (Result (to_le_bytes (word_of_nat code_len :: u256)) ExitCode_Ok))))"

definition host_code_hash where
  "host_code_hash R mr fr inp =
     hbind (get_input_eq mr inp 20) (\<lambda>input.
     let a = from_be_bytes (window input 0 20)
     in hbind (account_load R a True) (\<lambda>info.
     hbind (case evm_metadata_of R info of
              Some m \<Rightarrow> evm_metadata_read R m (\<lambda>e. Ok (metadata_code_hash e)) (replicate 32 0)
            | None \<Rightarrow> hret (if info_is_empty info then replicate 32 0 else info_code_hash info)) (\<lambda>code_hash.
     let code_hash = (if is_evm_system_precompile R a then replicate 32 0
                      else if code_hash = replicate 32 0 \<and> \<not> info_is_empty info then KECCAK_EMPTY R else code_hash)
     in hret (Result code_hash ExitCode_Ok))))"

definition EXT_CODE_COPY_MAX_COPY_SIZE :: nat where
  "EXT_CODE_COPY_MAX_COPY_SIZE = 12 * 1024 * 1024"

text \<open>The copy: zeros behind the end of the code, a slice of it where it is long enough, a padded one otherwise.\<close>

definition copy_code :: "byte list \<Rightarrow> nat \<Rightarrow> nat \<Rightarrow> byte list" where
  "copy_code bytecode start len =
     (if start \<ge> length bytecode then replicate len 0
      else (let available = length bytecode - start; to_copy = min len available
            in if to_copy = len then window bytecode start to_copy
               else blit (replicate len 0) 0 (window bytecode start to_copy)))"

definition host_code_copy where
  "host_code_copy R mr fr inp =
     hbind (get_input_eq mr inp (20 + 8 * 2)) (\<lambda>input.
     let a = from_be_bytes (window input 0 20); code_offset = (from_le_bytes (window input 20 8) :: u64);
         code_length = (from_le_bytes (window input 28 8) :: u64)
     in hbind (assert_halt (unat code_length \<le> EXT_CODE_COPY_MAX_COPY_SIZE) MalformedBuiltinParams) (\<lambda>_.
     hbind (charge_regular_gas R (extcodecopy_cost (S R) (unat code_length))) (\<lambda>_.
     hbind (account_load R a True) (\<lambda>info.
     if code_length = 0 then hret (Result [] ExitCode_Ok)
     else hbind (case evm_metadata_of R info of
              Some m \<Rightarrow> evm_metadata_read R m metadata_code_copy []
            | None \<Rightarrow> hret (case info_code info of Some c \<Rightarrow> original_bytes (B R) c | None \<Rightarrow> [])) (\<lambda>bytecode.
     hret (Result (copy_code (if is_evm_system_precompile R a then [] else bytecode) (unat code_offset) (unat code_length)) ExitCode_Ok))))))"

section \<open>Metadata of ownable accounts\<close>

definition require_owner :: "host_frame \<Rightarrow> ('j, 'g, 'b, address) host" where
  "require_owner fr = (case frame_owner fr of Some a \<Rightarrow> hret a | None \<Rightarrow> hexit (Halt MalformedBuiltinParams))"

definition account_with_code :: "('j, 'g, 'b, 'r) revm \<Rightarrow> address \<Rightarrow> ('j, 'g, 'b, 'b account_info state_load) host" where
  "account_with_code R a = hbind (on_journal (load_account_with_code (J R) a)) or_fatal"

definition ownable_of :: "('j, 'g, 'b, 'r) revm \<Rightarrow> 'b account_info \<Rightarrow> (address \<times> byte list) option" where
  "ownable_of R info = Option.bind (info_code info) (as_ownable (B R))"

definition host_metadata_size where
  "host_metadata_size R mr fr inp =
     hbind (require_owner fr) (\<lambda>owner.
     hbind (get_input_eq mr inp 20) (\<lambda>input.
     hbind (account_with_code R (from_be_bytes (window input 0 20))) (\<lambda>account.
     let (size, same) = (case ownable_of R (loaded account) of
            Some (ow, metadata) \<Rightarrow> if ow = owner then (word_of_nat (length metadata) :: u32, True) else (0, False)
          | None \<Rightarrow> (0, False))
     in hret (Result (to_le_bytes size @ [of_bool same, of_bool (is_cold account), of_bool (info_is_empty (loaded account))]) ExitCode_Ok))))"

definition host_metadata_account_owner where
  "host_metadata_account_owner R mr fr inp =
     hbind (require_owner fr) (\<lambda>owner.
     hbind (get_input_eq mr inp 20) (\<lambda>input.
     let a = from_be_bytes (window input 0 20)
     in if a = frame_target fr then hret (Result (to_be_bytes owner) ExitCode_Ok)
        else hbind (account_with_code R a) (\<lambda>account.
          case ownable_of R (loaded account) of
            Some (ow, _) \<Rightarrow> hret (Result (to_be_bytes ow) ExitCode_Ok)
          | None \<Rightarrow> hret (Result (to_be_bytes (0 :: address)) ExitCode_Ok))))"

definition host_metadata_create where
  "host_metadata_create R mr fr inp =
     hbind (require_owner fr) (\<lambda>owner.
     hbind (assert_halt (\<not> frame_static fr) StateChangeDuringStaticCall) (\<lambda>_.
     hbind (get_input_ge mr inp 32) (\<lambda>(input, rest).
     let salt = from_be_bytes input; derived = calc_create_metadata_address (keccak256 R) owner salt
     in hbind (account_with_code R derived) (\<lambda>account.
     if info_code_hash (loaded account) \<noteq> KECCAK_EMPTY R \<or> info_nonce (loaded account) \<noteq> 0
     then hret (Result [] CreateContractCollision)
     else hbind (or_out_of_bounds rest) (\<lambda>metadata.
     hbind (update_journal (set_code (J R) derived (new_ownable_account (B R) owner metadata))) (\<lambda>_.
     hret (Result [] ExitCode_Ok)))))))"

definition require_owned :: "('j, 'g, 'b, 'r) revm \<Rightarrow> address \<Rightarrow> 'b account_info \<Rightarrow> ('j, 'g, 'b, address \<times> byte list) host" where
  "require_owned R owner info =
     (case ownable_of R info of
        Some (ow, metadata) \<Rightarrow> if ow = owner then hret (ow, metadata) else hexit (Halt MalformedBuiltinParams)
      | None \<Rightarrow> hexit (Halt MalformedBuiltinParams))"

definition host_metadata_write where
  "host_metadata_write R mr fr inp =
     hbind (require_owner fr) (\<lambda>owner.
     hbind (assert_halt (\<not> frame_static fr) StateChangeDuringStaticCall) (\<lambda>_.
     hbind (get_input_ge mr inp (20 + 4)) (\<lambda>(input, rest).
     let a = from_be_bytes (window input 0 20)
     in hbind (account_with_code R a) (\<lambda>account.
     hbind (require_owned R owner (loaded account)) (\<lambda>(ow, _).
     hbind (or_out_of_bounds rest) (\<lambda>metadata.
     hbind (update_journal (set_code (J R) a (new_ownable_account (B R) ow metadata))) (\<lambda>_.
     hret (Result [] ExitCode_Ok))))))))"

definition host_metadata_copy where
  "host_metadata_copy R mr fr inp =
     hbind (require_owner fr) (\<lambda>owner.
     hbind (get_input_eq mr inp 28) (\<lambda>input.
     let a = from_be_bytes (window input 0 20);
         off = unat (from_le_bytes (window input 20 4) :: u32); len = unat (from_le_bytes (window input 24 4) :: u32)
     in hbind (account_with_code R a) (\<lambda>account.
     hbind (require_owned R owner (loaded account)) (\<lambda>(_, metadata).
     if off \<ge> length metadata then hret (Result [] ExitCode_Ok)
     else hret (Result (window metadata off (min len (length metadata - off))) ExitCode_Ok)))))"

definition host_metadata_storage_read where
  "host_metadata_storage_read R mr fr inp =
     hbind (require_owner fr) (\<lambda>owner.
     hbind (get_input_eq mr inp 32) (\<lambda>input.
     hbind (storage_load R owner (from_le_bytes (window input 0 32))) (\<lambda>value.
     hret (Result (to_le_bytes value) ExitCode_Ok))))"

definition host_metadata_storage_write where
  "host_metadata_storage_write R mr fr inp =
     hbind (require_owner fr) (\<lambda>owner.
     hbind (assert_halt (\<not> frame_static fr) StateChangeDuringStaticCall) (\<lambda>_.
     hbind (get_input_eq mr inp 64) (\<lambda>input.
     hbind (storage_store R owner (from_le_bytes (window input 0 32)) (from_le_bytes (window input 32 32))) (\<lambda>_.
     hbind (update_journal (touch_account (J R) owner)) (\<lambda>_.
     hret (Result [] ExitCode_Ok))))))"

section \<open>Transient storage and block hashes\<close>

definition host_transient_read where
  "host_transient_read R mr fr inp =
     hbind (get_input_eq mr inp 32) (\<lambda>input.
     hbind (charge_regular_gas R (warm_storage_read_cost (S R))) (\<lambda>_.
     hbind (on_journal (tload (J R) (frame_target fr) (from_le_bytes (window input 0 32)))) (\<lambda>value.
     hret (Result (to_le_bytes value) ExitCode_Ok))))"

definition host_transient_write where
  "host_transient_write R mr fr inp =
     hbind (get_input_eq mr inp 64) (\<lambda>input.
     hbind (assert_halt (\<not> frame_static fr) StateChangeDuringStaticCall) (\<lambda>_.
     hbind (charge_regular_gas R (warm_storage_read_cost (S R))) (\<lambda>_.
     hbind (update_journal (tstore (J R) (frame_target fr) (from_le_bytes (window input 0 32)) (from_le_bytes (window input 32 32)))) (\<lambda>_.
     hret (Result [] ExitCode_Ok)))))"

definition host_block_hash where
  "host_block_hash R mr fr inp =
     hbind (get_input_eq mr inp 8) (\<lambda>input.
     hbind (charge_regular_gas R (gas_BLOCKHASH (S R))) (\<lambda>_.
     let requested_block = (from_le_bytes (window input 0 8) :: u64); diff = current_block R - requested_block
     in if requested_block \<le> current_block R \<and> diff > 0 \<and> diff \<le> 256
        then hbind (on_journal (db_block_hash (J R) requested_block)) (\<lambda>r. hbind (or_fatal r) (\<lambda>hash. hret (Result hash ExitCode_Ok)))
        else hret (Result (replicate 32 0) ExitCode_Ok)))"

section \<open>Runtime upgrades\<close>

definition EVM_MAX_CODE_SIZE :: nat where
  "EVM_MAX_CODE_SIZE = 0x6000"

definition host_upgrade_wasm_runtime where
  "host_upgrade_wasm_runtime R mr fr inp =
     hbind (assert_halt (\<not> frame_static fr) StateChangeDuringStaticCall) (\<lambda>_.
     hbind (assert_halt (frame_target fr = PRECOMPILE_RUNTIME_UPGRADE) MalformedBuiltinParams) (\<lambda>_.
     hbind (get_input_ge mr inp 20) (\<lambda>(input, rest).
     let target = from_be_bytes (window input 0 20)
     in hbind (or_out_of_bounds rest) (\<lambda>rwasm_binary.
     case rwasm_bytecode (B R) rwasm_binary of
       None \<Rightarrow> hexit (Halt MalformedBuiltinParams)
     | Some bytecode \<Rightarrow>
         hbind (account_with_code R target) (\<lambda>_.
         hbind (update_journal (set_code (J R) target bytecode)) (\<lambda>_.
         hret (Result [] ExitCode_Ok)))))))"

definition host_upgrade_evm_runtime where
  "host_upgrade_evm_runtime R mr fr inp =
     hbind (assert_halt (\<not> frame_static fr) StateChangeDuringStaticCall) (\<lambda>_.
     hbind (assert_halt (frame_target fr = PRECOMPILE_RUNTIME_UPGRADE) MalformedBuiltinParams) (\<lambda>_.
     hbind (get_input_ge mr inp 20) (\<lambda>(input, rest).
     let target = from_be_bytes (window input 0 20)
     in hbind (or_out_of_bounds rest) (\<lambda>evm_binary.
     hbind (assert_halt (evm_binary \<noteq> [] \<and> length evm_binary \<le> EVM_MAX_CODE_SIZE) MalformedBuiltinParams) (\<lambda>_.
     hbind (or_abort (write_to_bytes (bincode_fns R) (new_analyzed (keccak256 R) (analyze_legacy R) evm_binary))) (\<lambda>metadata.
     hbind (account_with_code R target) (\<lambda>_.
     hbind (update_journal (set_code (J R) target (new_ownable_account (B R) PRECOMPILE_EVM_RUNTIME metadata))) (\<lambda>_.
     hret (Result [] ExitCode_Ok)))))))))"

section \<open>The dispatch\<close>

definition serve_syscall ::
  "('j, 'g, 'b, 'r) revm \<Rightarrow> memory_reader \<Rightarrow> host_frame \<Rightarrow> 'g interruption_inputs \<Rightarrow> ('j, 'g, 'b, 'b host_exit) host" where
  "serve_syscall R mr fr inp =
     (let id = int_code_hash inp
      in if id = SYSCALL_ID_STORAGE_READ then host_storage_read R mr fr inp
         else if id = SYSCALL_ID_STORAGE_WRITE then host_storage_write R mr fr inp
         else if id = SYSCALL_ID_CALL then host_call R mr fr inp
         else if id = SYSCALL_ID_STATIC_CALL then host_static_call R mr fr inp
         else if id = SYSCALL_ID_CALL_CODE then host_call_code R mr fr inp
         else if id = SYSCALL_ID_DELEGATE_CALL then host_delegate_call R mr fr inp
         else if id = SYSCALL_ID_CREATE \<or> id = SYSCALL_ID_CREATE2 then host_create R mr fr inp
         else if id = SYSCALL_ID_EMIT_LOG then host_emit_log R mr fr inp
         else if id = SYSCALL_ID_DESTROY_ACCOUNT then host_destroy_account R mr fr inp
         else if id = SYSCALL_ID_BALANCE then host_balance R mr fr inp
         else if id = SYSCALL_ID_SELF_BALANCE then host_self_balance R mr fr inp
         else if id = SYSCALL_ID_CODE_SIZE then host_code_size R mr fr inp
         else if id = SYSCALL_ID_CODE_HASH then host_code_hash R mr fr inp
         else if id = SYSCALL_ID_CODE_COPY then host_code_copy R mr fr inp
         else if id = SYSCALL_ID_METADATA_SIZE then host_metadata_size R mr fr inp
         else if id = SYSCALL_ID_METADATA_ACCOUNT_OWNER then host_metadata_account_owner R mr fr inp
         else if id = SYSCALL_ID_METADATA_CREATE then host_metadata_create R mr fr inp
         else if id = SYSCALL_ID_METADATA_WRITE then host_metadata_write R mr fr inp
         else if id = SYSCALL_ID_METADATA_COPY then host_metadata_copy R mr fr inp
         else if id = SYSCALL_ID_METADATA_STORAGE_READ then host_metadata_storage_read R mr fr inp
         else if id = SYSCALL_ID_METADATA_STORAGE_WRITE then host_metadata_storage_write R mr fr inp
         else if id = SYSCALL_ID_TRANSIENT_READ then host_transient_read R mr fr inp
         else if id = SYSCALL_ID_TRANSIENT_WRITE then host_transient_write R mr fr inp
         else if id = SYSCALL_ID_BLOCK_HASH then host_block_hash R mr fr inp
         else if id = SYSCALL_ID_UPGRADE_WASM_RUNTIME then host_upgrade_wasm_runtime R mr fr inp
         else if id = SYSCALL_ID_UPGRADE_EVM_RUNTIME then host_upgrade_evm_runtime R mr fr inp
         else hexit (Halt MalformedBuiltinParams))"

text \<open>
  \<open>return_result!\<close>, \<open>return_halt!\<close> and \<open>return_frame!\<close>: what is kept for the interrupted frame and what
  the driver does next. A halt of a system runtime is forwarded to it like a result.
\<close>

record 'g saved_outcome =
  saved_result :: "'g execution_result option"
  halted_frame :: bool

datatype ('b, 'g) served =
    Action "('b, 'g) next_action" "'g saved_outcome option"
  | ContextError
  | HostPanic

definition execute_rwasm_interruption ::
  "('j, 'g, 'b, 'r) revm \<Rightarrow> memory_reader \<Rightarrow> host_frame \<Rightarrow> 'g interruption_inputs \<Rightarrow> ('j, 'g) world \<Rightarrow>
   ('b, 'g) served \<times> ('j, 'g) world" where
  "execute_rwasm_interruption R mr fr inp w =
     (let (r, w') = serve_syscall R mr fr inp w;
          x = (case r of Inl x \<Rightarrow> x | Inr x \<Rightarrow> x);
          spent = new_spent (M R) (total_gas_spent (M R) (gas w') - total_gas_spent (M R) (int_gas inp));
          is_system_runtime = (case frame_owner fr of Some a \<Rightarrow> is_execute_using_system_runtime a | None \<Rightarrow> False)
      in (case x of
            Result out e \<Rightarrow>
              Action InterruptionResult (Some \<lparr>saved_result = Some \<lparr>result = instruction_result_from_exit_code e (out = []),
                result_output = out, result_gas = spent\<rparr>, halted_frame = False\<rparr>)
          | Halt e \<Rightarrow>
              (let res = \<lparr>result = instruction_result_from_exit_code e True, result_output = [], result_gas = spent\<rparr>
               in if is_system_runtime then Action InterruptionResult (Some \<lparr>saved_result = Some res, halted_frame = True\<rparr>)
                  else Action (Return res) None)
          | Frame f \<Rightarrow> Action (NewFrame f) (Some \<lparr>saved_result = None, halted_frame = False\<rparr>)
          | Fatal \<Rightarrow> ContextError
          | Abort \<Rightarrow> HostPanic, w'))"

end
