(* ===== verification/Host_Safety.thy ===== *)
theory Host_Safety
  imports Host_Syscall
begin

text \<open>
  What a contract can do to the state through system calls. The journal is only known through an
  observation; a small logic of invariants and exits carries the proofs over the handlers.
\<close>

section \<open>Invariants and exits\<close>

text \<open>
  \<open>keeps I Post f\<close>: from a journal with \<open>I\<close>, either \<open>f\<close> goes on with \<open>I\<close>, or it leaves with \<open>Post\<close>.
  \<open>ends I Post f\<close>: from a journal with \<open>I\<close>, \<open>f\<close> finishes with \<open>Post\<close>.
\<close>

definition keeps :: "('j \<Rightarrow> bool) \<Rightarrow> ('b host_exit \<Rightarrow> 'j \<Rightarrow> bool) \<Rightarrow> ('j, 'g, 'b, 'a) host \<Rightarrow> bool" where
  "keeps I Post f =
     (\<forall>w. I (journal w) \<longrightarrow> (case f w of (Inl x, w') \<Rightarrow> Post x (journal w') | (Inr _, w') \<Rightarrow> I (journal w')))"

definition ends :: "('j \<Rightarrow> bool) \<Rightarrow> ('b host_exit \<Rightarrow> 'j \<Rightarrow> bool) \<Rightarrow> ('j, 'g, 'b, 'b host_exit) host \<Rightarrow> bool" where
  "ends I Post f =
     (\<forall>w. I (journal w) \<longrightarrow> (case f w of (Inl x, w') \<Rightarrow> Post x (journal w') | (Inr x, w') \<Rightarrow> Post x (journal w')))"

text \<open>Leaving without a new frame is always allowed, and loads keep the invariant.\<close>

definition plain_exit :: "'b host_exit \<Rightarrow> bool" where
  "plain_exit x = (case x of Frame _ \<Rightarrow> False | _ \<Rightarrow> True)"

definition loads_keep :: "('j, 'g, 'b, 'r) revm \<Rightarrow> ('j \<Rightarrow> bool) \<Rightarrow> bool" where
  "loads_keep R I =
     ((\<forall>a s c j. I j \<longrightarrow> I (snd (sload_skip_cold_load (J R) a s c j))) \<and>
      (\<forall>a l c j. I j \<longrightarrow> I (snd (load_account_info_skip_cold_load (J R) a l c j))) \<and>
      (\<forall>a j. I j \<longrightarrow> I (snd (load_account (J R) a j))) \<and>
      (\<forall>a j. I j \<longrightarrow> I (snd (load_account_with_code (J R) a j))) \<and>
      (\<forall>a s j. I j \<longrightarrow> I (snd (tload (J R) a s j))) \<and>
      (\<forall>n j. I j \<longrightarrow> I (snd (db_block_hash (J R) n j))))"

definition host_ok :: "('j, 'g, 'b, 'r) revm \<Rightarrow> ('j \<Rightarrow> bool) \<Rightarrow> ('b host_exit \<Rightarrow> 'j \<Rightarrow> bool) \<Rightarrow> bool" where
  "host_ok R I Post = (loads_keep R I \<and> (\<forall>x j. plain_exit x \<longrightarrow> I j \<longrightarrow> Post x j))"

named_theorems host_rules \<open>the rules of the logic\<close>

lemma plain_exits [simp]:
  "plain_exit (Result out e)" "plain_exit (Halt e)" "plain_exit Fatal" "plain_exit Abort" "\<not> plain_exit (Frame f)"
  by (simp_all add: plain_exit_def)

lemma host_okD: "host_ok R I Post \<Longrightarrow> plain_exit x \<Longrightarrow> I j \<Longrightarrow> Post x j"
  by (simp add: host_ok_def)

lemma ends_bind:
  fixes f :: "('j, 'g, 'b, 'a) host"
  assumes "keeps I Post f" "\<And>v. ends I Post (k v)"
  shows "ends I Post (hbind f k)"
proof (unfold ends_def, intro allI impI)
  fix w :: "('j, 'g) world" assume "I (journal w)"
  moreover obtain r w' where f: "f w = (r, w')" by (cases "f w")
  ultimately have "case r of Inl x \<Rightarrow> Post x (journal w') | Inr _ \<Rightarrow> I (journal w')"
    using assms(1) [unfolded keeps_def, rule_format, of w] by simp
  with f assms(2) show "case hbind f k w of (Inl x, w') \<Rightarrow> Post x (journal w') | (Inr x, w') \<Rightarrow> Post x (journal w')"
    by (cases r) (simp_all add: hbind_def ends_def)
qed

lemma keeps_bind [host_rules]:
  fixes f :: "('j, 'g, 'b, 'a) host"
  assumes "keeps I Post f" "\<And>v. keeps I Post (k v)"
  shows "keeps I Post (hbind f k)"
proof (unfold keeps_def, intro allI impI)
  fix w :: "('j, 'g) world" assume "I (journal w)"
  moreover obtain r w' where f: "f w = (r, w')" by (cases "f w")
  ultimately have "case r of Inl x \<Rightarrow> Post x (journal w') | Inr _ \<Rightarrow> I (journal w')"
    using assms(1) [unfolded keeps_def, rule_format, of w] by simp
  with f assms(2) show "case hbind f k w of (Inl x, w') \<Rightarrow> Post x (journal w') | (Inr _, w') \<Rightarrow> I (journal w')"
    by (cases r) (simp_all add: hbind_def keeps_def)
qed

lemma keeps_ret [host_rules]: "keeps I Post (hret v)"
  by (simp add: keeps_def hret_def)

lemma ends_ret: "(\<And>j. I j \<Longrightarrow> Post x j) \<Longrightarrow> ends I Post (hret x)"
  by (simp add: ends_def hret_def)

lemma ends_plain: "host_ok R I Post \<Longrightarrow> plain_exit x \<Longrightarrow> ends I Post (hret x)"
  by (simp add: ends_def hret_def host_okD)

lemma ends_exit: "host_ok R I Post \<Longrightarrow> plain_exit x \<Longrightarrow> ends I Post (hexit x)"
  by (simp add: ends_def hexit_def host_okD)

lemma keeps_exit: "host_ok R I Post \<Longrightarrow> plain_exit x \<Longrightarrow> keeps I Post (hexit x)"
  by (simp add: keeps_def hexit_def host_okD)

lemma ends_if: "(c \<Longrightarrow> ends I Post f) \<Longrightarrow> (\<not> c \<Longrightarrow> ends I Post g) \<Longrightarrow> ends I Post (if c then f else g)"
  by simp

lemma ends_assert:
  assumes "host_ok R I Post" "c \<Longrightarrow> ends I Post (k ())"
  shows "ends I Post (hbind (assert_halt c e) k)"
  using assms by (auto simp: ends_def hbind_def assert_halt_def hret_def hexit_def host_okD)

lemma keeps_assert [host_rules]: "host_ok R I Post \<Longrightarrow> keeps I Post (assert_halt c e)"
  by (simp add: assert_halt_def keeps_ret keeps_exit)

lemma keeps_if [host_rules]: "keeps I Post f \<Longrightarrow> keeps I Post g \<Longrightarrow> keeps I Post (if c then f else g)"
  by simp

lemma keeps_read_gas [host_rules]: "keeps I Post (read_gas f)"
  by (simp add: keeps_def read_gas_def)

lemma keeps_charge [host_rules]:
  "host_ok R I Post \<Longrightarrow> keeps I Post (charge_regular_gas R' c)"
  "host_ok R I Post \<Longrightarrow> keeps I Post (charge_state_gas R' c)"
  by (auto simp: keeps_def charge_regular_gas_def charge_state_gas_def host_okD split: prod.splits if_splits)

lemma keeps_unwrap [host_rules]: "host_ok R I Post \<Longrightarrow> keeps I Post (unwrap_journal_load_error r)"
  by (auto simp: unwrap_journal_load_error_def keeps_ret keeps_exit split: sum.splits load_error.splits)

lemma keeps_or [host_rules]:
  "host_ok R I Post \<Longrightarrow> keeps I Post (or_fatal r)"
  "host_ok R I Post \<Longrightarrow> keeps I Post (or_abort q)"
  "host_ok R I Post \<Longrightarrow> keeps I Post (or_out_of_bounds o')"
  by (auto simp: or_fatal_def or_abort_def or_out_of_bounds_def keeps_ret keeps_exit split: option.splits outcome.splits)

lemma keeps_read_input [host_rules]:
  "host_ok R I Post \<Longrightarrow> keeps I Post (read_input mr inp n)"
  by (auto simp: read_input_def keeps_ret keeps_exit split: option.splits)

lemma keeps_get_input [host_rules]:
  "host_ok R I Post \<Longrightarrow> keeps I Post (get_input_eq mr inp n)"
  "host_ok R I Post \<Longrightarrow> keeps I Post (get_input_ge mr inp n)"
  "host_ok R I Post \<Longrightarrow> keeps I Post (get_input_gt mr inp n)"
  by (auto simp: get_input_eq_def get_input_ge_def get_input_gt_def intro!: host_rules)

lemma keeps_on_journal:
  "(\<And>j. I j \<Longrightarrow> I (snd (f j))) \<Longrightarrow> keeps I Post (on_journal f)"
  by (auto simp: keeps_def on_journal_def split: prod.splits) (metis snd_conv)

lemma keeps_loads [host_rules]:
  assumes "host_ok R I Post"
  shows "keeps I Post (on_journal (sload_skip_cold_load (J R) a s c))"
    "keeps I Post (on_journal (load_account_info_skip_cold_load (J R) a l c))"
    "keeps I Post (on_journal (load_account (J R) a))"
    "keeps I Post (on_journal (load_account_with_code (J R) a))"
    "keeps I Post (on_journal (tload (J R) a s))"
    "keeps I Post (on_journal (db_block_hash (J R) n))"
  using assms by (auto simp: host_ok_def loads_keep_def intro!: keeps_on_journal)

lemma keeps_delegated:
  assumes "host_ok R I Post" "I (journal w)"
  shows "I (journal (snd (load_account_delegated R a t c w)))"
proof -
  have L: "I j \<Longrightarrow> load_account_info_skip_cold_load (J R) a l c j = (r, j') \<Longrightarrow> I j'" for a l c j r j'
    using assms(1) unfolding host_ok_def loads_keep_def by (metis snd_conv)
  obtain r j where l: "load_account_info_skip_cold_load (J R) a True (is_berlin R \<and> remaining (M R) (gas w) < cold_account_additional_cost (S R)) (journal w) = (r, j)"
    by (cases "load_account_info_skip_cold_load (J R) a True (is_berlin R \<and> remaining (M R) (gas w) < cold_account_additional_cost (S R)) (journal w)")
  then have j: "I j" using L assms(2) by blast
  show ?thesis
  proof (cases r)
    case (Inr account)
    show ?thesis
    proof (cases "Option.bind (info_code (loaded account)) (eip7702_address (B R))")
      case (Some delegate)
      with l Inr j show ?thesis
        by (auto simp: load_account_delegated_def Let_def dest: L split: prod.split sum.split)
    qed (use l Inr j in \<open>simp add: load_account_delegated_def Let_def\<close>)
  qed (use l j in \<open>simp add: load_account_delegated_def Let_def\<close>)
qed

lemma keeps_call_account [host_rules]:
  assumes "host_ok R I Post"
  shows "keeps I Post (call_account R a t c)"
proof -
  have "keeps I Post (\<lambda>w. case load_account_delegated R a t c w of (r, w') \<Rightarrow> (Inr r, w'))"
    using keeps_delegated [OF assms] by (simp add: keeps_def split: prod.split) (metis snd_conv)
  with assms show ?thesis
    unfolding call_account_def by (intro keeps_bind) (auto intro!: host_rules split: prod.splits)
qed

lemma keeps_compound [host_rules]:
  assumes "host_ok R I Post"
  shows "keeps I Post (charge_call_gas R inp)" "keeps I Post (storage_load R a slot)" "keeps I Post (account_load R a l)"
    "keeps I Post (account_with_code R a)" "keeps I Post (require_owner fr)" "keeps I Post (require_owned R ow info)"
    "keeps I Post (evm_metadata_read R m f d)"
  using assms
  by (auto simp: charge_call_gas_def storage_load_def account_load_def account_with_code_def require_owner_def require_owned_def
      evm_metadata_read_def intro!: host_rules keeps_exit split: option.splits prod.splits)

section \<open>The handlers that only read\<close>

lemmas ends_rules = ends_bind ends_plain ends_exit host_rules

lemma ends_reads:
  assumes "host_ok R I Post"
  shows "ends I Post (host_storage_read R mr fr inp)" "ends I Post (host_balance R mr fr inp)"
    "ends I Post (host_self_balance R mr fr inp)" "ends I Post (host_code_size R mr fr inp)"
    "ends I Post (host_code_hash R mr fr inp)" "ends I Post (host_metadata_size R mr fr inp)"
    "ends I Post (host_metadata_account_owner R mr fr inp)" "ends I Post (host_metadata_copy R mr fr inp)"
    "ends I Post (host_metadata_storage_read R mr fr inp)" "ends I Post (host_transient_read R mr fr inp)"
    "ends I Post (host_block_hash R mr fr inp)"
  using assms
  unfolding host_storage_read_def host_balance_def host_self_balance_def host_code_size_def host_code_hash_def
    host_metadata_size_def host_metadata_account_owner_def host_metadata_copy_def
    host_metadata_storage_read_def host_transient_read_def host_block_hash_def Let_def
  by (auto intro!: ends_rules split: option.split prod.split)

lemma ends_code_copy:
  assumes "host_ok R I Post"
  shows "ends I Post (host_code_copy R mr fr inp)"
  using assms unfolding host_code_copy_def Let_def by (auto intro!: ends_rules split: option.split)

section \<open>Calls\<close>

definition moves_value :: "'b call_inputs \<Rightarrow> bool" where
  "moves_value ci = (case call_value ci of Transfer v \<Rightarrow> v \<noteq> 0 | Apparent _ \<Rightarrow> False)"

text \<open>What every frame a contract opens by a call has in common.\<close>

definition call_permitted :: "host_frame \<Rightarrow> 'b call_inputs \<Rightarrow> bool" where
  "call_permitted fr ci =
     ((frame_static fr \<longrightarrow> call_is_static ci \<and> \<not> moves_value ci) \<and>
      (call_caller ci = frame_target fr \<or> call_scheme ci = Scheme_DelegateCall \<and> call_caller ci = frame_caller fr) \<and>
      (call_scheme ci = Scheme_DelegateCall \<or> call_scheme ci = Scheme_CallCode \<longrightarrow> call_target_address ci = frame_target fr))"

lemma ends_calls:
  assumes ok: "host_ok R I Post" and frames: "\<And>ci j. I j \<Longrightarrow> call_permitted fr ci \<Longrightarrow> Post (Frame (CallFrame ci)) j"
  shows "ends I Post (host_call R mr fr inp)" "ends I Post (host_call_code R mr fr inp)"
    "ends I Post (host_static_call R mr fr inp)" "ends I Post (host_delegate_call R mr fr inp)"
proof -
  show "ends I Post (host_static_call R mr fr inp)" "ends I Post (host_delegate_call R mr fr inp)"
    unfolding host_static_call_def host_delegate_call_def Let_def using ok
    by (auto intro!: ends_bind host_rules ends_ret frames simp: call_permitted_def moves_value_def split: prod.split)
  have frame: "ends I Post (hbind (charge_regular_gas R a) (\<lambda>_. hbind f (\<lambda>_. hbind (call_account R t v c) (\<lambda>(b, h, ba).
      hbind (charge_call_gas R inp) (\<lambda>l. hbind (or_out_of_bounds rest) (\<lambda>i. hbind (read_gas (reservoir (M R))) (\<lambda>r.
      hret (Frame (CallFrame (ci b h ba l i r))))))))))"
    if "keeps I Post f" "\<And>b h ba l i r. call_permitted fr (ci b h ba l i r)" for a f t v c rest ci
    using ok that by (auto intro!: ends_bind host_rules ends_ret frames split: prod.split)
  show "ends I Post (host_call R mr fr inp)"
    unfolding host_call_def Let_def
  proof (rule ends_bind [OF keeps_get_input(2) [OF ok]], goal_cases)
    case (1 v)
    show ?case
      unfolding case_prod_beta
      by (rule ends_assert [OF ok], rule frame [unfolded case_prod_beta])
        (auto simp: call_permitted_def moves_value_def intro!: keeps_if host_rules ok)
  qed
  show "ends I Post (host_call_code R mr fr inp)"
    unfolding host_call_code_def Let_def
  proof (rule ends_bind [OF keeps_get_input(2) [OF ok]], goal_cases)
    case (1 v)
    show ?case
      unfolding case_prod_beta
      by (rule ends_assert [OF ok], rule frame [unfolded case_prod_beta])
        (auto simp: call_permitted_def moves_value_def intro!: keeps_if host_rules ok)
  qed
qed

section \<open>Static frames\<close>

lemma ends_served:
  assumes "ends I Post (serve_syscall R mr fr inp)" "I (journal w)" "execute_rwasm_interruption R mr fr inp w = (r, w')"
  obtains x where "Post x (journal w')" "\<And>f s. r = Action (NewFrame f) s \<Longrightarrow> x = Frame f"
proof -
  obtain q w1 where q: "serve_syscall R mr fr inp w = (q, w1)" by (cases "serve_syscall R mr fr inp w")
  let ?x = "case q of Inl x \<Rightarrow> x | Inr x \<Rightarrow> x"
  have w: "w1 = w'" using assms(3) q by (simp add: execute_rwasm_interruption_def Let_def)
  have "Post ?x (journal w')"
    using assms(1,2) q w by (cases q) (auto simp: ends_def dest!: spec [of _ w])
  moreover have "r = Action (NewFrame f) s \<Longrightarrow> ?x = Frame f" for f s
    using assms(3) q by (cases ?x) (auto simp: execute_rwasm_interruption_def Let_def split: if_splits)
  ultimately show ?thesis using that by blast
qed

lemma static_stop: "frame_static fr \<Longrightarrow> hbind (assert_halt (\<not> frame_static fr) e) k = hexit (Halt e)"
  by (rule ext) (simp add: assert_halt_def hbind_def hexit_def)

lemma ends_static_writes:
  assumes "host_ok R I Post" "frame_static fr"
  shows "ends I Post (host_storage_write R mr fr inp)" "ends I Post (host_create R mr fr inp)"
    "ends I Post (host_emit_log R mr fr inp)" "ends I Post (host_destroy_account R mr fr inp)"
    "ends I Post (host_metadata_create R mr fr inp)" "ends I Post (host_metadata_write R mr fr inp)"
    "ends I Post (host_metadata_storage_write R mr fr inp)" "ends I Post (host_transient_write R mr fr inp)"
    "ends I Post (host_upgrade_wasm_runtime R mr fr inp)" "ends I Post (host_upgrade_evm_runtime R mr fr inp)"
  using assms(1)
  unfolding host_storage_write_def host_create_def host_emit_log_def host_destroy_account_def host_metadata_create_def
    host_metadata_write_def host_metadata_storage_write_def host_transient_write_def host_upgrade_wasm_runtime_def
    host_upgrade_evm_runtime_def static_stop [OF assms(2)]
  by (auto intro!: ends_rules)

lemma ends_static:
  assumes "host_ok R I Post" "frame_static fr" "\<And>ci j. I j \<Longrightarrow> call_permitted fr ci \<Longrightarrow> Post (Frame (CallFrame ci)) j"
  shows "ends I Post (serve_syscall R mr fr inp)"
  unfolding serve_syscall_def Let_def
  using ends_reads [OF assms(1), where mr = mr and fr = fr and inp = inp] ends_code_copy [OF assms(1), where mr = mr and fr = fr and inp = inp] ends_calls [where fr = fr and mr = mr and inp = inp, OF assms(1,3)]
    ends_static_writes [OF assms(1,2), where mr = mr and inp = inp]
  by (simp add: ends_exit [OF assms(1)] del: if_split split: if_split)

text \<open>Loading accounts, slots and block hashes leaves what is observed alone.\<close>

definition loads_quiet :: "('j, 'g, 'b, 'r) revm \<Rightarrow> ('j \<Rightarrow> 'o) \<Rightarrow> bool" where
  "loads_quiet R obs = (\<forall>v. loads_keep R (\<lambda>j. obs j = v))"

text \<open>
  C11. A static frame cannot change anything through a system call, whatever it asks for and whatever
  its input is: every part of the state that loads do not touch (storage, code, balances, logs,
  transient storage) is as before, and a frame it opens is again static, is a call, and moves no
  value.
\<close>

theorem static_frame_is_read_only:
  assumes "loads_quiet R obs" "frame_static fr" "execute_rwasm_interruption R mr fr inp w = (r, w')"
  shows "obs (journal w') = obs (journal w) \<and>
    (\<forall>f s. r = Action (NewFrame f) s \<longrightarrow> (\<exists>ci. f = CallFrame ci \<and> call_is_static ci \<and> \<not> moves_value ci))"
proof -
  let ?I = "\<lambda>j. obs j = obs (journal w)"
  let ?Post = "\<lambda>x j. ?I j \<and> (\<forall>f. x = Frame f \<longrightarrow> (\<exists>ci. f = CallFrame ci \<and> call_is_static ci \<and> \<not> moves_value ci))"
  have "host_ok R ?I ?Post" using assms(1) by (auto simp: host_ok_def loads_quiet_def)
  then have "ends ?I ?Post (serve_syscall R mr fr inp)"
    by (rule ends_static) (use assms(2) in \<open>auto simp: call_permitted_def\<close>)
  from this refl assms(3) show ?thesis by (rule ends_served) blast
qed

section \<open>Who may change what\<close>

text \<open>
  The documented behaviour of the journal, seen through the code and the storage of accounts: loads
  change neither, an account that is loaded with its code shows the code it has, \<open>set_code\<close> changes the
  code of one account and \<open>sstore\<close> one slot, everything else (logs, transient storage, touching,
  scheduling a destruction) changes none of them.
\<close>

definition lawful_journal ::
  "('j, 'g, 'b, 'r) revm \<Rightarrow> ('j \<Rightarrow> address \<Rightarrow> 'b option) \<Rightarrow> ('j \<Rightarrow> address \<Rightarrow> u256 \<Rightarrow> u256) \<Rightarrow> bool" where
  "lawful_journal R code_of store_of =
     (loads_quiet R (\<lambda>j. (code_of j, store_of j)) \<and>
      (\<forall>a j i j'. load_account_with_code (J R) a j = (Some i, j') \<longrightarrow> info_code (loaded i) = code_of j a) \<and>
      (\<forall>a c j. code_of (set_code (J R) a c j) = (code_of j)(a := Some c) \<and> store_of (set_code (J R) a c j) = store_of j) \<and>
      (\<forall>a s v c j. code_of (snd (sstore_skip_cold_load (J R) a s v c j)) = code_of j \<and>
         (\<forall>b t. (b, t) \<noteq> (a, s) \<longrightarrow> store_of (snd (sstore_skip_cold_load (J R) a s v c j)) b t = store_of j b t)) \<and>
      (\<forall>a b c j. code_of (snd (selfdestruct (J R) a b c j)) = code_of j \<and> store_of (snd (selfdestruct (J R) a b c j)) = store_of j) \<and>
      (\<forall>a ts d j. code_of (journal_log (J R) a ts d j) = code_of j \<and> store_of (journal_log (J R) a ts d j) = store_of j) \<and>
      (\<forall>a s v j. code_of (tstore (J R) a s v j) = code_of j \<and> store_of (tstore (J R) a s v j) = store_of j) \<and>
      (\<forall>a j. code_of (touch_account (J R) a j) = code_of j \<and> store_of (touch_account (J R) a j) = store_of j))"

definition code_authorized ::
  "('j, 'g, 'b, 'r) revm \<Rightarrow> host_frame \<Rightarrow> 'g interruption_inputs \<Rightarrow> 'b option \<Rightarrow> 'b option \<Rightarrow> address \<Rightarrow> bool" where
  "code_authorized R fr inp old new a =
     (int_code_hash inp \<in> {SYSCALL_ID_UPGRADE_WASM_RUNTIME, SYSCALL_ID_UPGRADE_EVM_RUNTIME} \<and>
        frame_target fr = PRECOMPILE_RUNTIME_UPGRADE \<or>
      (\<exists>ow metadata. frame_owner fr = Some ow \<and> new = Some (new_ownable_account (B R) ow metadata) \<and>
         (int_code_hash inp = SYSCALL_ID_METADATA_WRITE \<and> (\<exists>md. Option.bind old (as_ownable (B R)) = Some (ow, md)) \<or>
          int_code_hash inp = SYSCALL_ID_METADATA_CREATE \<and> (\<exists>salt. a = calc_create_metadata_address (keccak256 R) ow salt))))"

definition slot_authorized :: "host_frame \<Rightarrow> 'g interruption_inputs \<Rightarrow> address \<Rightarrow> bool" where
  "slot_authorized fr inp a =
     (int_code_hash inp = SYSCALL_ID_STORAGE_WRITE \<and> a = frame_target fr \<or>
      int_code_hash inp = SYSCALL_ID_METADATA_STORAGE_WRITE \<and> frame_owner fr = Some a)"

definition changes_authorized ::
  "('j, 'g, 'b, 'r) revm \<Rightarrow> ('j \<Rightarrow> address \<Rightarrow> 'b option) \<Rightarrow> ('j \<Rightarrow> address \<Rightarrow> u256 \<Rightarrow> u256) \<Rightarrow>
   host_frame \<Rightarrow> 'g interruption_inputs \<Rightarrow> 'j \<Rightarrow> 'j \<Rightarrow> bool" where
  "changes_authorized R code_of store_of fr inp j0 j =
     ((\<forall>a. code_of j a \<noteq> code_of j0 a \<longrightarrow> code_authorized R fr inp (code_of j0 a) (code_of j a) a) \<and>
      (\<forall>a s. store_of j a s \<noteq> store_of j0 a s \<longrightarrow> slot_authorized fr inp a))"

lemma ends_update: "(\<And>j. I j \<Longrightarrow> Post x (f j)) \<Longrightarrow> ends I Post (hbind (update_journal f) (\<lambda>_. hret x))"
  by (simp add: ends_def hbind_def update_journal_def hret_def)

lemma keeps_update: "(\<And>j. I j \<Longrightarrow> I (f j)) \<Longrightarrow> keeps I Post (update_journal f)"
  by (simp add: keeps_def update_journal_def)

lemma ends_owner:
  "host_ok R I Post \<Longrightarrow> (\<And>ow. frame_owner fr = Some ow \<Longrightarrow> ends I Post (k ow)) \<Longrightarrow> ends I Post (hbind (require_owner fr) k)"
  by (cases "frame_owner fr") (auto simp: ends_def hbind_def require_owner_def hret_def hexit_def host_okD)

lemma ends_owned:
  "host_ok R I Post \<Longrightarrow> (\<And>md. ownable_of R info = Some (ow, md) \<Longrightarrow> ends I Post (k (ow, md))) \<Longrightarrow>
   ends I Post (hbind (require_owned R ow info) k)"
  by (cases "\<exists>md. ownable_of R info = Some (ow, md)")
    (auto simp: ends_def hbind_def require_owned_def hret_def hexit_def host_okD split: option.split)

lemma ends_account:
  fixes R :: "('j, 'g, 'b, 'r) revm"
  assumes ok: "host_ok R I Post" and law: "\<And>j i j'. I j \<Longrightarrow> load_account_with_code (J R) a j = (Some i, j') \<Longrightarrow> Q i"
    and k: "\<And>i. Q i \<Longrightarrow> ends I Post (k i)"
  shows "ends I Post (hbind (account_with_code R a) k)"
proof (unfold ends_def, intro allI impI)
  fix w :: "('j, 'g) world" assume I: "I (journal w)"
  obtain r j where r: "load_account_with_code (J R) a (journal w) = (r, j)" by (cases "load_account_with_code (J R) a (journal w)")
  then have "I j" using ok I unfolding host_ok_def loads_keep_def by (metis snd_conv)
  then show "case hbind (account_with_code R a) k w of (Inl x, w') \<Rightarrow> Post x (journal w') | (Inr x, w') \<Rightarrow> Post x (journal w')"
    using r k law [OF I] host_okD [OF ok]
    by (cases r) (simp_all add: account_with_code_def hbind_def on_journal_def or_fatal_def hret_def hexit_def ends_def)
qed

text \<open>A storage write leads to a state in which at most the slot differs.\<close>

lemma ends_store:
  fixes R :: "('j, 'g, 'b, 'r) revm"
  assumes inv: "\<And>v c j. I j \<Longrightarrow> I' (snd (sstore_skip_cold_load (J R) a slot v c j))" "\<And>j. I j \<Longrightarrow> I' j"
    and ok: "host_ok R I' Post" and k: "ends I' Post (k ())"
  shows "ends I Post (hbind (storage_store R a slot value) k)"
proof (unfold ends_def, intro allI impI)
  fix w :: "('j, 'g) world" assume I: "I (journal w)"
  obtain r w' where r: "sstore_gas R (\<lambda>skip_cold. sstore_skip_cold_load (J R) a slot value skip_cold) w = (r, w')" by fastforce
  have st: "sstore_skip_cold_load (J R) a slot value c (journal w) = (q, j) \<Longrightarrow> I' j" for c q j
    using inv(1) [OF I] by (metis snd_conv)
  have w': "I' (journal w')"
    using r inv(2) [OF I] by (auto simp: sstore_gas_def Let_def dest: st split: if_splits prod.splits sum.splits)
  have plain: "plain_exit x \<Longrightarrow> Post x (journal w')" for x by (rule host_okD [OF ok _ w'])
  have ends: "case k () w' of (Inl x, w') \<Rightarrow> Post x (journal w') | (Inr x, w') \<Rightarrow> Post x (journal w')"
    by (rule k [unfolded ends_def, rule_format, OF w'])
  show "case hbind (storage_store R a slot value) k w of (Inl x, w') \<Rightarrow> Post x (journal w') | (Inr x, w') \<Rightarrow> Post x (journal w')"
  proof (cases r)
    case (Inl e)
    with r plain show ?thesis
      by (simp add: storage_store_def hbind_def split: sstore_gas_error.split load_error.split)
  next
    case (Inr u)
    with r have "hbind (storage_store R a slot value) k w = k () w'" by (simp add: storage_store_def hbind_def)
    with ends show ?thesis by simp
  qed
qed

text \<open>The states a handler may reach: unchanged, or changed in one slot.\<close>

abbreviation same_view ::
  "('j \<Rightarrow> address \<Rightarrow> 'b option) \<Rightarrow> ('j \<Rightarrow> address \<Rightarrow> u256 \<Rightarrow> u256) \<Rightarrow> 'j \<Rightarrow> 'j \<Rightarrow> bool" where
  "same_view code_of store_of j0 \<equiv> \<lambda>j. code_of j = code_of j0 \<and> store_of j = store_of j0"

abbreviation slot_view ::
  "('j \<Rightarrow> address \<Rightarrow> 'b option) \<Rightarrow> ('j \<Rightarrow> address \<Rightarrow> u256 \<Rightarrow> u256) \<Rightarrow> address \<Rightarrow> u256 \<Rightarrow> 'j \<Rightarrow> 'j \<Rightarrow> bool" where
  "slot_view code_of store_of a s j0 \<equiv>
     \<lambda>j. code_of j = code_of j0 \<and> (\<forall>b t. (b, t) \<noteq> (a, s) \<longrightarrow> store_of j b t = store_of j0 b t)"

lemma quiet_loads_keep:
  assumes "loads_quiet R obs"
  shows "loads_keep R (\<lambda>j. P (obs j))"
proof -
  have L: "loads_keep R (\<lambda>j. obs j = v)" for v using assms by (simp add: loads_quiet_def)
  show ?thesis
    unfolding loads_keep_def using L [unfolded loads_keep_def] by simp
qed

lemma view_loads_keep:
  assumes "lawful_journal R code_of store_of"
  shows "loads_keep R (\<lambda>j. P (code_of j) (store_of j))"
proof -
  have "loads_quiet R (\<lambda>j. (code_of j, store_of j))" using assms by (simp add: lawful_journal_def)
  from quiet_loads_keep [OF this, of "\<lambda>v. P (fst v) (snd v)"] show ?thesis by simp
qed

lemma lawful_ok:
  assumes "lawful_journal R code_of store_of"
  shows "host_ok R (same_view code_of store_of j0) (\<lambda>_. changes_authorized R code_of store_of fr inp j0)"
  using view_loads_keep [OF assms, of "\<lambda>c st. c = code_of j0 \<and> st = store_of j0"]
  by (simp add: host_ok_def changes_authorized_def)

lemma slot_ok:
  assumes "lawful_journal R code_of store_of" "slot_authorized fr inp a"
  shows "host_ok R (slot_view code_of store_of a slot j0) (\<lambda>_. changes_authorized R code_of store_of fr inp j0)"
  using view_loads_keep [OF assms(1), of "\<lambda>c st. c = code_of j0 \<and> (\<forall>b t. (b, t) \<noteq> (a, slot) \<longrightarrow> st b t = store_of j0 b t)"] assms(2)
  by (auto simp: host_ok_def changes_authorized_def)

lemma ends_slot_writes:
  fixes R :: "('j, 'g, 'b, 'r) revm"
  assumes law: "lawful_journal R code_of store_of"
  shows "int_code_hash inp = SYSCALL_ID_STORAGE_WRITE \<Longrightarrow>
      ends (same_view code_of store_of j0) (\<lambda>_. changes_authorized R code_of store_of fr inp j0) (host_storage_write R mr fr inp)"
    "int_code_hash inp = SYSCALL_ID_METADATA_STORAGE_WRITE \<Longrightarrow>
      ends (same_view code_of store_of j0) (\<lambda>_. changes_authorized R code_of store_of fr inp j0) (host_metadata_storage_write R mr fr inp)"
proof -
  let ?I = "same_view code_of store_of j0" and ?P = "\<lambda>_ :: 'b host_exit. changes_authorized R code_of store_of fr inp j0"
  note ok = lawful_ok [OF law]
  have store: "ends ?I ?P (hbind (storage_store R a s v) k)"
    if "slot_authorized fr inp a" "ends (slot_view code_of store_of a s j0) ?P (k ())" for a s v k
    using law that by (intro ends_store [where I' = "slot_view code_of store_of a s j0"] slot_ok) (auto simp: lawful_journal_def)
  show "ends ?I ?P (host_storage_write R mr fr inp)" if "int_code_hash inp = SYSCALL_ID_STORAGE_WRITE"
  proof -
    have a: "slot_authorized fr inp (frame_target fr)" using that by (simp add: slot_authorized_def)
    show ?thesis unfolding host_storage_write_def
      by (intro ends_assert [OF ok] ends_bind keeps_get_input(1) [OF ok] store a ends_plain [OF slot_ok [OF law a]]) simp
  qed
  show "ends ?I ?P (host_metadata_storage_write R mr fr inp)" if "int_code_hash inp = SYSCALL_ID_METADATA_STORAGE_WRITE"
    unfolding host_metadata_storage_write_def
  proof (rule ends_owner [OF ok])
    fix ow assume "frame_owner fr = Some ow"
    with that have a: "slot_authorized fr inp ow" by (simp add: slot_authorized_def)
    have okS: "host_ok R (slot_view code_of store_of ow s j0) ?P" for s by (rule slot_ok [OF law a])
    have "ends (slot_view code_of store_of ow s j0) ?P (hbind (update_journal (touch_account (J R) ow)) (\<lambda>_. hret (Result [] ExitCode_Ok)))" for s
    proof (rule ends_bind)
      show "keeps (slot_view code_of store_of ow s j0) ?P (update_journal (touch_account (J R) ow))"
        by (rule keeps_update) (use law in \<open>simp add: lawful_journal_def\<close>)
      show "ends (slot_view code_of store_of ow s j0) ?P (hret (Result [] ExitCode_Ok))"
        by (rule ends_plain [OF okS]) simp
    qed
    note last = this
    show "ends ?I ?P (hbind (assert_halt (\<not> frame_static fr) StateChangeDuringStaticCall) (\<lambda>_.
        hbind (get_input_eq mr inp 64) (\<lambda>input.
        hbind (storage_store R ow (from_le_bytes (window input 0 32)) (from_le_bytes (window input 32 32))) (\<lambda>_.
        hbind (update_journal (touch_account (J R) ow)) (\<lambda>_. hret (Result [] ExitCode_Ok))))))"
      by (rule ends_assert [OF ok], rule ends_bind [OF keeps_get_input(1) [OF ok]], rule store [OF a], rule last)
  qed
qed

lemma ends_quiet_writes:
  fixes R :: "('j, 'g, 'b, 'r) revm"
  assumes law: "lawful_journal R code_of store_of"
  shows "ends (same_view code_of store_of j0) (\<lambda>_. changes_authorized R code_of store_of fr inp j0) (host_emit_log R mr fr inp)"
    "ends (same_view code_of store_of j0) (\<lambda>_. changes_authorized R code_of store_of fr inp j0) (host_destroy_account R mr fr inp)"
    "ends (same_view code_of store_of j0) (\<lambda>_. changes_authorized R code_of store_of fr inp j0) (host_transient_write R mr fr inp)"
    "ends (same_view code_of store_of j0) (\<lambda>_. changes_authorized R code_of store_of fr inp j0) (host_create R mr fr inp)"
proof -
  let ?I = "same_view code_of store_of j0" and ?P = "\<lambda>_ :: 'b host_exit. changes_authorized R code_of store_of fr inp j0"
  note ok = lawful_ok [OF law, of j0 fr inp]
  have k: "keeps ?I ?P (update_journal (journal_log (J R) a ts d))" "keeps ?I ?P (update_journal (tstore (J R) a s v))"
    "keeps ?I ?P (on_journal (selfdestruct (J R) a b c))" for a ts d s v b c
    using law by (auto simp: lawful_journal_def intro!: keeps_update keeps_on_journal)
  have c: "ends ?I ?P (hret (Frame f))" for f by (rule ends_ret) (simp add: changes_authorized_def)
  show "ends ?I ?P (host_emit_log R mr fr inp)" "ends ?I ?P (host_destroy_account R mr fr inp)"
    "ends ?I ?P (host_transient_write R mr fr inp)" "ends ?I ?P (host_create R mr fr inp)"
    unfolding host_emit_log_def host_destroy_account_def host_transient_write_def host_create_def Let_def
    using ok by (auto intro!: ends_bind ends_plain c k host_rules split: prod.split simp del: not_le)
qed

lemma ends_upgrades:
  fixes R :: "('j, 'g, 'b, 'r) revm"
  assumes law: "lawful_journal R code_of store_of"
  shows "int_code_hash inp = SYSCALL_ID_UPGRADE_WASM_RUNTIME \<Longrightarrow>
      ends (same_view code_of store_of j0) (\<lambda>_. changes_authorized R code_of store_of fr inp j0) (host_upgrade_wasm_runtime R mr fr inp)"
    "int_code_hash inp = SYSCALL_ID_UPGRADE_EVM_RUNTIME \<Longrightarrow>
      ends (same_view code_of store_of j0) (\<lambda>_. changes_authorized R code_of store_of fr inp j0) (host_upgrade_evm_runtime R mr fr inp)"
proof -
  let ?I = "same_view code_of store_of j0" and ?P = "\<lambda>_ :: 'b host_exit. changes_authorized R code_of store_of fr inp j0"
  note ok = lawful_ok [OF law, of j0 fr inp]
  have set: "ends ?I ?P (hbind (update_journal (set_code (J R) a c)) (\<lambda>_. hret x))"
    if "frame_target fr = PRECOMPILE_RUNTIME_UPGRADE" "int_code_hash inp \<in> {SYSCALL_ID_UPGRADE_WASM_RUNTIME, SYSCALL_ID_UPGRADE_EVM_RUNTIME}"
    for a c x
    by (rule ends_update) (use law that in \<open>auto simp: lawful_journal_def changes_authorized_def code_authorized_def\<close>)
  show "ends ?I ?P (host_upgrade_wasm_runtime R mr fr inp)" if "int_code_hash inp = SYSCALL_ID_UPGRADE_WASM_RUNTIME"
    unfolding host_upgrade_wasm_runtime_def Let_def
    by (intro ends_assert [OF ok]) (use that ok in \<open>auto intro!: ends_bind ends_exit set host_rules split: prod.split option.split\<close>)
  show "ends ?I ?P (host_upgrade_evm_runtime R mr fr inp)" if "int_code_hash inp = SYSCALL_ID_UPGRADE_EVM_RUNTIME"
    unfolding host_upgrade_evm_runtime_def Let_def
    by (intro ends_assert [OF ok]) (use that ok in \<open>auto intro!: ends_bind ends_exit set host_rules split: prod.split option.split\<close>)
qed

lemma lawful_load:
  "lawful_journal R code_of store_of \<Longrightarrow> load_account_with_code (J R) a j = (Some i, j') \<Longrightarrow> info_code (loaded i) = code_of j a"
  for R :: "('j, 'g, 'b, 'r) revm" and i :: "'b account_info state_load"
  by (auto simp: lawful_journal_def)

lemma ends_metadata_writes:
  fixes R :: "('j, 'g, 'b, 'r) revm"
  assumes law: "lawful_journal R code_of store_of"
  shows "int_code_hash inp = SYSCALL_ID_METADATA_CREATE \<Longrightarrow>
      ends (same_view code_of store_of j0) (\<lambda>_. changes_authorized R code_of store_of fr inp j0) (host_metadata_create R mr fr inp)"
    "int_code_hash inp = SYSCALL_ID_METADATA_WRITE \<Longrightarrow>
      ends (same_view code_of store_of j0) (\<lambda>_. changes_authorized R code_of store_of fr inp j0) (host_metadata_write R mr fr inp)"
proof -
  let ?I = "same_view code_of store_of j0" and ?P = "\<lambda>_ :: 'b host_exit. changes_authorized R code_of store_of fr inp j0"
  note ok = lawful_ok [OF law, of j0 fr inp]
  have set: "ends ?I ?P (hbind (update_journal (set_code (J R) a c)) (\<lambda>_. hret x))"
    if "code_authorized R fr inp (code_of j0 a) (Some c) a" for a c x
    by (rule ends_update) (use law that in \<open>auto simp: lawful_journal_def changes_authorized_def\<close>)
  show "ends ?I ?P (host_metadata_create R mr fr inp)" if id: "int_code_hash inp = SYSCALL_ID_METADATA_CREATE"
    unfolding host_metadata_create_def Let_def
  proof (rule ends_owner [OF ok], goal_cases)
    case (1 ow)
    then have "code_authorized R fr inp (code_of j0 a) (Some (new_ownable_account (B R) ow m)) a"
      if "a = calc_create_metadata_address (keccak256 R) ow salt" for a m salt
      using id that by (auto simp: code_authorized_def)
    then show ?case using ok by (auto intro!: ends_bind ends_plain set host_rules split: prod.split)
  qed
  show "ends ?I ?P (host_metadata_write R mr fr inp)" if id: "int_code_hash inp = SYSCALL_ID_METADATA_WRITE"
    unfolding host_metadata_write_def Let_def
  proof (rule ends_owner [OF ok], rule ends_assert [OF ok], rule ends_bind [OF keeps_get_input(2) [OF ok]], goal_cases)
    case (1 ow v)
    let ?a = "from_be_bytes (window (fst v) 0 20)"
    show ?case
      unfolding case_prod_beta
    proof (rule ends_account [OF ok, where Q = "\<lambda>i. info_code (loaded i) = code_of j0 ?a"], goal_cases)
      case (1 j i j')
      then show ?case using lawful_load [OF law, of ?a j i j'] by simp
    next
      case (2 i)
      show ?case
      proof (rule ends_owned [OF ok], goal_cases)
        case (1 md)
        then have "code_authorized R fr inp (code_of j0 ?a) (Some (new_ownable_account (B R) ow m)) ?a" for m
          using id \<open>frame_owner fr = Some ow\<close> 2 by (auto simp: code_authorized_def ownable_of_def)
        then show ?case by (auto intro!: ends_bind set keeps_or(3) [OF ok])
      qed
    qed
  qed
qed

text \<open>
  C9. Through system calls a contract changes only what it has authority over. Storage: its own slots,
  or, for a contract that runs under a delegated runtime, the slots of that runtime. Code: nothing,
  except that the runtime upgrade contract installs code, and that a contract under a delegated runtime
  rewrites the metadata of accounts that already belong to this runtime or creates accounts for it at
  addresses derived from the runtime and a salt; these accounts stay with the runtime.
\<close>

theorem syscall_changes_authorized:
  assumes "lawful_journal R code_of store_of" "execute_rwasm_interruption R mr fr inp w = (r, w')"
  shows "changes_authorized R code_of store_of fr inp (journal w) (journal w')"
proof -
  let ?I = "same_view code_of store_of (journal w)" and ?P = "\<lambda>_. changes_authorized R code_of store_of fr inp (journal w)"
  note ok = lawful_ok [OF assms(1), of "journal w" fr inp]
  have frame: "?I j \<Longrightarrow> call_permitted fr ci \<Longrightarrow> changes_authorized R code_of store_of fr inp (journal w) j" for ci j
    by (simp add: changes_authorized_def)
  have "ends ?I ?P (serve_syscall R mr fr inp)"
    unfolding serve_syscall_def Let_def
    by (intro ends_if)
      (assumption | rule ends_reads [OF ok] ends_code_copy [OF ok] ends_calls [OF ok frame] ends_slot_writes [OF assms(1)]
        ends_quiet_writes [OF assms(1)] ends_upgrades [OF assms(1)] ends_metadata_writes [OF assms(1)] ends_exit [OF ok] plain_exits)+
  from this _ assms(2) show ?thesis by (rule ends_served) simp_all
qed

section \<open>An example host\<close>

text \<open>
  A journal that is the code and the storage of accounts, code that is either owned metadata or plain
  bytes, and a gas meter that counts down.
\<close>

type_synonym toy_code = "(address \<times> byte list) + byte list"

type_synonym toy_journal = "(address \<Rightarrow> toy_code option) \<times> (address \<Rightarrow> u256 \<Rightarrow> u256)"

definition toy_account :: "toy_journal \<Rightarrow> address \<Rightarrow> toy_code account_info state_load" where
  "toy_account j a =
     \<lparr>loaded = \<lparr>info_balance = 0, info_nonce = 0, info_code_hash = [], info_code = fst j a, info_is_empty = fst j a = None\<rparr>,
      is_cold = False\<rparr>"

definition toy_journal_ops :: "(toy_journal, toy_code, unit) journal_ops" where
  "toy_journal_ops =
     \<lparr>sload_skip_cold_load = \<lambda>a s c j. (Inr \<lparr>loaded = snd j a s, is_cold = False\<rparr>, j),
      sstore_skip_cold_load = \<lambda>a s v c j. (Inr \<lparr>loaded = (), is_cold = False\<rparr>, (fst j, (snd j)(a := (snd j a)(s := v)))),
      jr_sstore = \<lambda>a s v j. (Some (), (fst j, (snd j)(a := (snd j a)(s := v)))),
      load_account_info_skip_cold_load = \<lambda>a l c j. (Inr (toy_account j a), j),
      load_account = \<lambda>a j. (Some (toy_account j a), j),
      load_account_with_code = \<lambda>a j. (Some (toy_account j a), j),
      set_code = \<lambda>a c j. ((fst j)(a := Some c), snd j),
      journal_log = \<lambda>a ts d j. j,
      selfdestruct = \<lambda>a b c j. (Inr \<lparr>loaded = \<lparr>had_value = False, target_exists = True\<rparr>, is_cold = False\<rparr>, j),
      tload = \<lambda>a s j. (0, j), tstore = \<lambda>a s v j. j, touch_account = \<lambda>a j. j,
      jr_transfer = \<lambda>a b v j. (Some None, j), db_block_hash = \<lambda>n j. (Some (replicate 32 1), j)\<rparr>"

definition toy_gas :: "u64 gas_ops" where
  "toy_gas =
     \<lparr>remaining = id, total_gas_spent = \<lambda>g. 1000000 - g, reservoir = \<lambda>_. 0,
      record_regular_cost = \<lambda>c g. if c \<le> g then (True, g - c) else (False, g),
      record_state_cost = \<lambda>c g. if c \<le> g then (True, g - c) else (False, g),
      record_refund = \<lambda>_ g. g, erase_cost = \<lambda>c g. g + c, spend_all = \<lambda>_. 0, new_spent = \<lambda>s. 1000000 - s\<rparr>"

definition toy_schedule :: "unit gas_schedule" where
  "toy_schedule =
     \<lparr>cold_storage_cost = 2100, warm_storage_read_cost = 100, cold_account_additional_cost = 2500, call_stipend = 2300,
      transfer_value_cost = 9000, create_cost = 32000, sstore_static_gas = 100, sstore_dynamic_gas = \<lambda>_ _. 2800,
      sstore_refund = \<lambda>_. 0, call_stipend_reduction = \<lambda>g. g - g div 64, initcode_cost = \<lambda>_. 2, create2_cost = \<lambda>_. 32006,
      log_cost = \<lambda>_ _. 375, selfdestruct_cost = \<lambda>_ _. 0, extcodecopy_cost = \<lambda>_. 3, new_account_cost = \<lambda>_ _. 25000,
      new_account_state_gas = 0, gas_WARM_STORAGE_READ_COST = 100, gas_COLD_ACCOUNT_ACCESS_COST = 2600, gas_LOG = 375,
      gas_LOW = 5, gas_BLOCKHASH = 20\<rparr>"

definition toy_bytecode :: "toy_code bytecode_ops" where
  "toy_bytecode =
     \<lparr>as_ownable = \<lambda>c. case c of Inl p \<Rightarrow> Some p | Inr _ \<Rightarrow> None, new_ownable_account = \<lambda>a m. Inl (a, m),
      rwasm_bytecode = \<lambda>b. if take 2 b = [0xef, 0x52] then Some (Inr b) else None, eip7702_address = \<lambda>_. None,
      bytecode_len = \<lambda>c. case c of Inl (_, m) \<Rightarrow> length m | Inr b \<Rightarrow> length b,
      original_bytes = \<lambda>c. case c of Inl (_, m) \<Rightarrow> m | Inr b \<Rightarrow> b, default_bytecode = Inr []\<rparr>"

definition toy_revm :: "(toy_journal, u64, toy_code, unit) revm" where
  "toy_revm =
     \<lparr>J = toy_journal_ops, M = toy_gas, S = toy_schedule, B = toy_bytecode, bincode_fns = le_bincode,
      keccak256 = \<lambda>_. replicate 32 9, analyze_legacy = \<lambda>c. ([], c), KECCAK_EMPTY = [], is_berlin = True,
      is_spurious_dragon = True, is_amsterdam_eip8037_enabled = False, spec_precompiles = \<lambda>a. a \<noteq> 0 \<and> a \<le> 0x11, current_block = 100,
      wasm_max_code_size = \<lambda>_. None, WASM_MAX_CODE_SIZE = 1000, MAX_INITCODE_SIZE = 500\<rparr>"

text \<open>Guest memory that holds the input of a system call and nothing else.\<close>

definition guest_memory :: "byte list \<Rightarrow> memory_reader" where
  "guest_memory b = (\<lambda>_ off n. if off + n \<le> length b then Some (window b off n) else None)"

definition syscall_inputs :: "u256 \<Rightarrow> byte list \<Rightarrow> u64 \<Rightarrow> 'g \<Rightarrow> 'g interruption_inputs" where
  "syscall_inputs syscall_id b fuel g =
     \<lparr>int_call_id = 1, int_code_hash = syscall_id, int_start = 0, int_end = length b, int_fuel_limit = fuel, int_state = STATE_MAIN, int_gas = g\<rparr>"

definition toy_world :: "(toy_journal, u64) world" where
  "toy_world = \<lparr>journal = ([7 \<mapsto> Inl (5, [1]), 8 \<mapsto> Inr [2]], \<lambda>_ _. 0), gas = 100000\<rparr>"

definition toy_frame :: "bool \<Rightarrow> host_frame" where
  "toy_frame static = \<lparr>frame_target = 7, frame_owner = Some 5, frame_caller = 4, frame_value = 0, frame_static = static\<rparr>"

lemma toy_quiet: "loads_quiet toy_revm obs"
  by (simp add: loads_quiet_def loads_keep_def toy_revm_def toy_journal_ops_def)

lemma toy_lawful: "lawful_journal toy_revm fst snd"
  using toy_quiet by (auto simp: lawful_journal_def toy_revm_def toy_journal_ops_def toy_account_def)

lemmas toy_host = toy_revm_def toy_journal_ops_def toy_gas_def toy_schedule_def toy_bytecode_def toy_account_def toy_world_def toy_frame_def

lemmas host_steps = hbind_def hret_def hexit_def assert_halt_def read_input_def get_input_eq_def get_input_ge_def get_input_gt_def
  lazy_rest_def int_len_def charge_regular_gas_def charge_state_gas_def on_journal_def update_journal_def read_gas_def
  unwrap_journal_load_error_def or_fatal_def or_abort_def or_out_of_bounds_def guest_memory_def syscall_inputs_def window_def

theorem static_frame_is_read_only_witness:
  "journal (snd (execute_rwasm_interruption toy_revm (guest_memory (to_be_bytes (8 :: address))) (toy_frame True)
     (syscall_inputs SYSCALL_ID_STATIC_CALL (to_be_bytes (8 :: address)) 1000 100000) toy_world)) = journal toy_world \<and>
   (\<exists>ci s. fst (execute_rwasm_interruption toy_revm (guest_memory (to_be_bytes (8 :: address))) (toy_frame True)
     (syscall_inputs SYSCALL_ID_STATIC_CALL (to_be_bytes (8 :: address)) 1000 100000) toy_world) = Action (NewFrame (CallFrame ci)) s \<and>
     call_is_static ci \<and> \<not> moves_value ci)"
proof -
  let ?b = "to_be_bytes (8 :: address)"
  let ?e = "execute_rwasm_interruption toy_revm (guest_memory ?b) (toy_frame True) (syscall_inputs SYSCALL_ID_STATIC_CALL ?b 1000 100000) toy_world"
  have "frame_static (toy_frame True)" by (simp add: toy_frame_def)
  from static_frame_is_read_only [OF toy_quiet [of "\<lambda>j. j"] this, of "guest_memory ?b" "syscall_inputs SYSCALL_ID_STATIC_CALL ?b 1000 100000" toy_world "fst ?e" "snd ?e", OF prod.collapse [symmetric]]
  have "journal (snd ?e) = journal toy_world" "fst ?e = Action (NewFrame f) s \<Longrightarrow> \<exists>ci. f = CallFrame ci \<and> call_is_static ci \<and> \<not> moves_value ci"
    for f s by auto
  moreover have "\<exists>ci s. fst ?e = Action (NewFrame (CallFrame ci)) s"
    by (simp add: execute_rwasm_interruption_def serve_syscall_def syscall_ids host_static_call_def call_account_def load_account_delegated_def
        charge_call_gas_def toy_host host_steps FUEL_DENOM_RATE_def STATE_MAIN_def Let_def)
  ultimately show ?thesis by blast
qed

theorem syscall_changes_authorized_witness:
  "fst (journal (snd (execute_rwasm_interruption toy_revm (guest_memory (to_be_bytes (7 :: address) @ replicate 4 0 @ [3])) (toy_frame False)
     (syscall_inputs SYSCALL_ID_METADATA_WRITE (to_be_bytes (7 :: address) @ replicate 4 0 @ [3]) 1000 100000) toy_world))) 7 = Some (Inl (5, [3])) \<and>
   code_authorized toy_revm (toy_frame False)
     (syscall_inputs SYSCALL_ID_METADATA_WRITE (to_be_bytes (7 :: address) @ replicate 4 0 @ [3]) 1000 100000) (Some (Inl (5, [1]))) (Some (Inl (5, [3]))) 7"
proof -
  let ?b = "to_be_bytes (7 :: address) @ replicate 4 0 @ [3]"
  let ?i = "syscall_inputs SYSCALL_ID_METADATA_WRITE ?b 1000 100000"
  let ?e = "execute_rwasm_interruption toy_revm (guest_memory ?b) (toy_frame False) ?i toy_world"
  have "changes_authorized toy_revm fst snd (toy_frame False) ?i (journal toy_world) (journal (snd ?e))"
    by (rule syscall_changes_authorized [OF toy_lawful, of "guest_memory ?b" _ _ _ "fst ?e"]) simp
  moreover have "fst (journal (snd ?e)) 7 = Some (Inl (5, [3]))"
    by (simp add: execute_rwasm_interruption_def serve_syscall_def syscall_ids host_metadata_write_def require_owner_def account_with_code_def
        require_owned_def ownable_of_def toy_host host_steps STATE_MAIN_def Let_def)
  moreover have "fst (journal toy_world) 7 = Some (Inl (5, [1]))" by (simp add: toy_world_def)
  ultimately show ?thesis unfolding changes_authorized_def by (auto dest!: spec [of _ 7])
qed

end
