(* ===== verification/Host_Request.thy ===== *)
theory Host_Request
  imports Host_Safety
begin

text \<open>
  System calls end to end: what a contract encodes with the SDK and what the host does with it. The
  meaning of a request is given without bytes; serving the encoded request has this meaning. Also the
  copy of code, which the host implements with a fast path.
\<close>

section \<open>Requests and their meaning\<close>

datatype request =
    StorageRead u256
  | StorageWrite u256 u256
  | CallRequest address u256 "byte list"
  | StaticCallRequest address "byte list"
  | CallCodeRequest address u256 "byte list"
  | DelegateCallRequest address "byte list"
  | CreateRequest "u256 option" u256 "byte list"
  | EmitLog "byte list list" "byte list"
  | DestroyAccount address
  | Balance address
  | SelfBalance
  | CodeCopy address u64 u64
  | TransientRead u256
  | TransientWrite u256 u256
  | BlockHash u64
  | MetadataWrite address u32 "byte list"
  | MetadataCreate u256 "byte list"
  | MetadataStorageRead u256
  | MetadataStorageWrite u256 u256
  | UpgradeRuntime address "byte list"
  | UpgradeEvmRuntime address "byte list"

text \<open>The identifier and the buffer the SDK makes of a request (\<open>shared.rs\<close>, \<open>encode.rs\<close>).\<close>

fun request_id :: "request \<Rightarrow> u256" where
  "request_id (StorageRead slot) = SYSCALL_ID_STORAGE_READ"
| "request_id (StorageWrite slot value) = SYSCALL_ID_STORAGE_WRITE"
| "request_id (CallRequest a value input) = SYSCALL_ID_CALL"
| "request_id (StaticCallRequest a input) = SYSCALL_ID_STATIC_CALL"
| "request_id (CallCodeRequest a value input) = SYSCALL_ID_CALL_CODE"
| "request_id (DelegateCallRequest a input) = SYSCALL_ID_DELEGATE_CALL"
| "request_id (CreateRequest salt value code) = (if salt \<noteq> None then SYSCALL_ID_CREATE2 else SYSCALL_ID_CREATE)"
| "request_id (EmitLog ts d) = SYSCALL_ID_EMIT_LOG"
| "request_id (DestroyAccount a) = SYSCALL_ID_DESTROY_ACCOUNT"
| "request_id (Balance a) = SYSCALL_ID_BALANCE"
| "request_id SelfBalance = SYSCALL_ID_SELF_BALANCE"
| "request_id (CodeCopy a off len) = SYSCALL_ID_CODE_COPY"
| "request_id (TransientRead slot) = SYSCALL_ID_TRANSIENT_READ"
| "request_id (TransientWrite slot value) = SYSCALL_ID_TRANSIENT_WRITE"
| "request_id (BlockHash n) = SYSCALL_ID_BLOCK_HASH"
| "request_id (MetadataWrite a off m) = SYSCALL_ID_METADATA_WRITE"
| "request_id (MetadataCreate salt m) = SYSCALL_ID_METADATA_CREATE"
| "request_id (MetadataStorageRead slot) = SYSCALL_ID_METADATA_STORAGE_READ"
| "request_id (MetadataStorageWrite slot value) = SYSCALL_ID_METADATA_STORAGE_WRITE"
| "request_id (UpgradeRuntime a code) = SYSCALL_ID_UPGRADE_WASM_RUNTIME"
| "request_id (UpgradeEvmRuntime a code) = SYSCALL_ID_UPGRADE_EVM_RUNTIME"

fun request_buffer :: "request \<Rightarrow> (exit_code, byte list) outcome" where
  "request_buffer (StorageRead slot) = fill_buffer storage_read_size_hint (storage_read_into slot)"
| "request_buffer (StorageWrite slot value) = fill_buffer storage_write_size_hint (storage_write_into slot value)"
| "request_buffer (CallRequest a value input) = fill_buffer (call_size_hint (length input) True) (call_into a (Some value) input)"
| "request_buffer (StaticCallRequest a input) = fill_buffer (call_size_hint (length input) False) (call_into a None input)"
| "request_buffer (CallCodeRequest a value input) = fill_buffer (call_size_hint (length input) True) (call_into a (Some value) input)"
| "request_buffer (DelegateCallRequest a input) = fill_buffer (call_size_hint (length input) False) (call_into a None input)"
| "request_buffer (CreateRequest salt value code) =
     fill_buffer (create_size_hint (length code) (salt \<noteq> None)) (create_into salt value code)"
| "request_buffer (EmitLog ts d) = fill_buffer (emit_log_size_hint (length ts) (length d)) (emit_log_into ts d)"
| "request_buffer (DestroyAccount a) = fill_buffer destroy_account_size_hint (destroy_account_into a)"
| "request_buffer (Balance a) = fill_buffer balance_size_hint (balance_into a)"
| "request_buffer SelfBalance = fill_buffer self_balance_size_hint self_balance_into"
| "request_buffer (CodeCopy a off len) = fill_buffer code_copy_size_hint (code_copy_into a off len)"
| "request_buffer (TransientRead slot) = fill_buffer transient_read_size_hint (transient_read_into slot)"
| "request_buffer (TransientWrite slot value) = fill_buffer transient_write_size_hint (transient_write_into slot value)"
| "request_buffer (BlockHash n) = fill_buffer block_hash_size_hint (block_hash_into n)"
| "request_buffer (MetadataWrite a off m) = fill_buffer (metadata_write_size_hint (length m)) (metadata_write_into a off m)"
| "request_buffer (MetadataCreate salt m) = fill_buffer (metadata_create_size_hint (length m)) (metadata_create_into salt m)"
| "request_buffer (MetadataStorageRead slot) = fill_buffer metadata_storage_read_size_hint (metadata_storage_read_into slot)"
| "request_buffer (MetadataStorageWrite slot value) =
     fill_buffer metadata_storage_write_size_hint (metadata_storage_write_into slot value)"
| "request_buffer (UpgradeRuntime a code) = fill_buffer (upgrade_runtime_size_hint (length code)) (upgrade_runtime_into a code)"
| "request_buffer (UpgradeEvmRuntime a code) = fill_buffer (upgrade_evm_runtime_size_hint (length code)) (upgrade_evm_runtime_into a code)"

text \<open>A call with the value it transfers, and what opening the frame costs.\<close>

definition perform_call ::
  "('j, 'g, 'b, 'r) revm \<Rightarrow> host_frame \<Rightarrow> 'g interruption_inputs \<Rightarrow> address \<Rightarrow> u256 \<Rightarrow> bool \<Rightarrow>
   ('b \<Rightarrow> byte list \<Rightarrow> address \<Rightarrow> u64 \<Rightarrow> u64 \<Rightarrow> 'b call_inputs) \<Rightarrow> ('j, 'g, 'b, 'b host_exit) host" where
  "perform_call R fr inp target value create_empty ci =
     hbind (assert_halt (\<not> (frame_static fr \<and> value \<noteq> 0)) StateChangeDuringStaticCall) (\<lambda>_.
     hbind (charge_regular_gas R (gas_WARM_STORAGE_READ_COST (S R))) (\<lambda>_.
     hbind (if value \<noteq> 0 then charge_regular_gas R (transfer_value_cost (S R)) else hret ()) (\<lambda>_.
     hbind (call_account R target (value \<noteq> 0) create_empty) (\<lambda>(bytecode, code_hash, bytecode_address).
     hbind (charge_call_gas R inp) (\<lambda>gas_limit.
     hbind (read_gas (reservoir (M R))) (\<lambda>res.
     hret (Frame (CallFrame (ci bytecode code_hash bytecode_address
       (if value \<noteq> 0 then saturating_add_u64 gas_limit (call_stipend (S R)) else gas_limit) res)))))))))"

definition writable :: "host_frame \<Rightarrow> ('j, 'g, 'b, 'a) host \<Rightarrow> ('j, 'g, 'b, 'a) host" where
  "writable fr f = hbind (assert_halt (\<not> frame_static fr) StateChangeDuringStaticCall) (\<lambda>_. f)"

definition done_with :: "byte list \<Rightarrow> ('j, 'g, 'b, 'b host_exit) host" where
  "done_with out = hret (Result out ExitCode_Ok)"

definition padded_window :: "byte list \<Rightarrow> nat \<Rightarrow> nat \<Rightarrow> byte list" where
  "padded_window code off len = take len (drop off code @ replicate len 0)"

definition perform_code_copy ::
  "('j, 'g, 'b, 'r) revm \<Rightarrow> address \<Rightarrow> u64 \<Rightarrow> u64 \<Rightarrow> ('j, 'g, 'b, 'b host_exit) host" where
  "perform_code_copy R a off len =
     hbind (assert_halt (unat len \<le> EXT_CODE_COPY_MAX_COPY_SIZE) MalformedBuiltinParams) (\<lambda>_.
     hbind (charge_regular_gas R (extcodecopy_cost (S R) (unat len))) (\<lambda>_.
     hbind (account_load R a True) (\<lambda>info.
     if len = 0 then done_with []
     else hbind (case evm_metadata_of R info of
              Some m \<Rightarrow> evm_metadata_read R m metadata_code_copy []
            | None \<Rightarrow> hret (case info_code info of Some c \<Rightarrow> original_bytes (B R) c | None \<Rightarrow> [])) (\<lambda>bytecode.
     done_with (padded_window (if is_evm_system_precompile R a then [] else bytecode) (unat off) (unat len))))))"

fun perform ::
  "('j, 'g, 'b, 'r) revm \<Rightarrow> host_frame \<Rightarrow> 'g interruption_inputs \<Rightarrow> request \<Rightarrow> ('j, 'g, 'b, 'b host_exit) host" where
  "perform R fr inp (StorageRead slot) = hbind (storage_load R (frame_target fr) slot) (\<lambda>v. done_with (to_le_bytes v))"
| "perform R fr inp (StorageWrite slot value) =
     writable fr (hbind (storage_store R (frame_target fr) slot value) (\<lambda>_. done_with []))"
| "perform R fr inp (CallRequest a value input) = perform_call R fr inp a value True (\<lambda>b h ba gl res.
     \<lparr>call_input = input, call_gas_limit = gl, call_reservoir = res, call_bytecode_address = ba, known_bytecode = (h, b),
      call_target_address = a, call_caller = frame_target fr, call_value = Transfer value, call_scheme = Scheme_Call,
      call_is_static = frame_static fr\<rparr>)"
| "perform R fr inp (StaticCallRequest a input) = perform_call R fr inp a 0 False (\<lambda>b h ba gl res.
     \<lparr>call_input = input, call_gas_limit = gl, call_reservoir = res, call_bytecode_address = ba, known_bytecode = (h, b),
      call_target_address = a, call_caller = frame_target fr, call_value = Transfer 0, call_scheme = Scheme_StaticCall,
      call_is_static = True\<rparr>)"
| "perform R fr inp (CallCodeRequest a value input) = perform_call R fr inp a value False (\<lambda>b h ba gl res.
     \<lparr>call_input = input, call_gas_limit = gl, call_reservoir = res, call_bytecode_address = ba, known_bytecode = (h, b),
      call_target_address = frame_target fr, call_caller = frame_target fr, call_value = Transfer value,
      call_scheme = Scheme_CallCode, call_is_static = frame_static fr\<rparr>)"
| "perform R fr inp (DelegateCallRequest a input) = perform_call R fr inp a 0 False (\<lambda>b h ba gl res.
     \<lparr>call_input = input, call_gas_limit = gl, call_reservoir = res, call_bytecode_address = ba, known_bytecode = (h, b),
      call_target_address = frame_target fr, call_caller = frame_caller fr, call_value = Apparent (frame_value fr),
      call_scheme = Scheme_DelegateCall, call_is_static = frame_static fr\<rparr>)"
| "perform R fr inp (CreateRequest salt value code) =
     writable fr (hbind (assert_halt (length code + (if salt \<noteq> None then 64 else 32) \<le> WASM_MAX_CODE_SIZE R + 64) MalformedBuiltinParams) (\<lambda>_.
     hbind (if code \<noteq> [] then charge_regular_gas R (initcode_cost (S R) (length code)) else hret ()) (\<lambda>_.
     hbind (assert_halt (length code \<le> (case wasm_max_code_size R code of Some n \<Rightarrow> n | None \<Rightarrow> MAX_INITCODE_SIZE R)) CreateContractSizeLimit) (\<lambda>_.
     hbind (charge_regular_gas R (if salt \<noteq> None then create2_cost (S R) (length code) else create_cost (S R))) (\<lambda>_.
     hbind (read_gas (\<lambda>g. remaining (M R) g - remaining (M R) g div 64)) (\<lambda>gas_limit.
     hbind (charge_regular_gas R gas_limit) (\<lambda>_.
     hbind (read_gas (reservoir (M R))) (\<lambda>res.
     hret (Frame (CreateFrame
       \<lparr>create_caller = frame_target fr, create_scheme = (case salt of Some s \<Rightarrow> Create2 s | None \<Rightarrow> Create), create_value = value,
        create_init_code = code, create_gas_limit = gas_limit, create_reservoir = res\<rparr>))))))))))"
| "perform R fr inp (EmitLog ts d) =
     writable fr (hbind (charge_regular_gas R (gas_LOG (S R) + log_cost (S R) (word_of_nat (length ts)) (word_of_nat (length d)))) (\<lambda>_.
     hbind (update_journal (journal_log (J R) (frame_target fr) ts d)) (\<lambda>_. done_with [])))"
| "perform R fr inp (DestroyAccount a) =
     writable fr (hbind (read_gas (\<lambda>g. remaining (M R) g < cold_account_additional_cost (S R) + warm_storage_read_cost (S R))) (\<lambda>skip_cold.
     hbind (on_journal (selfdestruct (J R) (frame_target fr) a skip_cold)) (\<lambda>r.
     hbind (unwrap_journal_load_error r) (\<lambda>res.
     hbind (charge_regular_gas R (5000 + selfdestruct_cost (S R)
       (had_value (loaded res) \<and> (target_exists (loaded res) \<longrightarrow> is_evm_system_precompile R a)) (is_cold res))) (\<lambda>_.
     done_with [])))))"
| "perform R fr inp (Balance a) = hbind (account_load R a False) (\<lambda>info. done_with (to_le_bytes (info_balance info)))"
| "perform R fr inp SelfBalance =
     hbind (on_journal (load_account (J R) (frame_target fr))) (\<lambda>r. hbind (or_fatal r) (\<lambda>v.
     hbind (charge_regular_gas R (gas_LOW (S R))) (\<lambda>_. done_with (to_le_bytes (info_balance (loaded v))))))"
| "perform R fr inp (CodeCopy a off len) = perform_code_copy R a off len"
| "perform R fr inp (TransientRead slot) =
     hbind (charge_regular_gas R (warm_storage_read_cost (S R))) (\<lambda>_.
     hbind (on_journal (tload (J R) (frame_target fr) slot)) (\<lambda>v. done_with (to_le_bytes v)))"
| "perform R fr inp (TransientWrite slot value) =
     writable fr (hbind (charge_regular_gas R (warm_storage_read_cost (S R))) (\<lambda>_.
     hbind (update_journal (tstore (J R) (frame_target fr) slot value)) (\<lambda>_. done_with [])))"
| "perform R fr inp (BlockHash n) =
     hbind (charge_regular_gas R (gas_BLOCKHASH (S R))) (\<lambda>_.
     if n < current_block R \<and> unat (current_block R) \<le> unat n + 256
     then hbind (on_journal (db_block_hash (J R) n)) (\<lambda>r. hbind (or_fatal r) done_with)
     else done_with (replicate 32 0))"
| "perform R fr inp (MetadataWrite a off m) =
     hbind (require_owner fr) (\<lambda>owner. writable fr (hbind (account_with_code R a) (\<lambda>account.
     hbind (require_owned R owner (loaded account)) (\<lambda>_.
     hbind (update_journal (set_code (J R) a (new_ownable_account (B R) owner m))) (\<lambda>_. done_with [])))))"
| "perform R fr inp (MetadataCreate salt m) =
     hbind (require_owner fr) (\<lambda>owner. writable fr (let a = calc_create_metadata_address (keccak256 R) owner salt
     in hbind (account_with_code R a) (\<lambda>account.
     if info_code_hash (loaded account) \<noteq> KECCAK_EMPTY R \<or> info_nonce (loaded account) \<noteq> 0
     then hret (Result [] CreateContractCollision)
     else hbind (update_journal (set_code (J R) a (new_ownable_account (B R) owner m))) (\<lambda>_. done_with []))))"
| "perform R fr inp (MetadataStorageRead slot) =
     hbind (require_owner fr) (\<lambda>owner. hbind (storage_load R owner slot) (\<lambda>v. done_with (to_le_bytes v)))"
| "perform R fr inp (MetadataStorageWrite slot value) =
     hbind (require_owner fr) (\<lambda>owner. writable fr (hbind (storage_store R owner slot value) (\<lambda>_.
     hbind (update_journal (touch_account (J R) owner)) (\<lambda>_. done_with []))))"
| "perform R fr inp (UpgradeRuntime a code) =
     writable fr (hbind (assert_halt (frame_target fr = PRECOMPILE_RUNTIME_UPGRADE) MalformedBuiltinParams) (\<lambda>_.
     case rwasm_bytecode (B R) code of
       None \<Rightarrow> hexit (Halt MalformedBuiltinParams)
     | Some bytecode \<Rightarrow> hbind (account_with_code R a) (\<lambda>_. hbind (update_journal (set_code (J R) a bytecode)) (\<lambda>_. done_with []))))"
| "perform R fr inp (UpgradeEvmRuntime a code) =
     writable fr (hbind (assert_halt (frame_target fr = PRECOMPILE_RUNTIME_UPGRADE) MalformedBuiltinParams) (\<lambda>_.
     hbind (assert_halt (code \<noteq> [] \<and> length code \<le> EVM_MAX_CODE_SIZE) MalformedBuiltinParams) (\<lambda>_.
     hbind (or_abort (write_to_bytes (bincode_fns R) (new_analyzed (keccak256 R) (analyze_legacy R) code))) (\<lambda>metadata.
     hbind (account_with_code R a) (\<lambda>_.
     hbind (update_journal (set_code (J R) a (new_ownable_account (B R) PRECOMPILE_EVM_RUNTIME metadata))) (\<lambda>_. done_with []))))))"

section \<open>Serving a request\<close>

lemma hbind_hret [simp]: "hbind (hret v) k = k v"
  by (rule ext) (simp add: hbind_def hret_def)

lemma hbind_assoc: "hbind (hbind f g) k = hbind f (\<lambda>v. hbind (g v) k)"
  by (rule ext) (auto simp: hbind_def split: prod.split sum.split)

lemma assert_halt_True [simp]: "assert_halt True e = hret ()"
  by (simp add: assert_halt_def)

lemma inputs_sel [simp]:
  "int_code_hash (syscall_inputs i b fuel g) = i" "int_start (syscall_inputs i b fuel g) = 0"
  "int_end (syscall_inputs i b fuel g) = length b" "int_len (syscall_inputs i b fuel g) = length b"
  "int_state (syscall_inputs i b fuel g) = STATE_MAIN" "int_call_id (syscall_inputs i b fuel g) = 1"
  by (simp_all add: syscall_inputs_def int_len_def)

lemma guest_read: "n \<le> length b \<Longrightarrow> read_input (guest_memory b) (syscall_inputs i b fuel g) n = hret (take n b)"
  by (simp add: read_input_def guest_memory_def window_def)

lemma guest_rest: "n \<le> length b \<Longrightarrow> lazy_rest (guest_memory b) (syscall_inputs i b fuel g) n = Some (drop n b)"
  by (simp add: lazy_rest_def guest_memory_def window_def)

lemma guest_inputs:
  "length b = n \<Longrightarrow> get_input_eq (guest_memory b) (syscall_inputs i b fuel g) n = hret b"
  "n \<le> length b \<Longrightarrow> get_input_ge (guest_memory b) (syscall_inputs i b fuel g) n = hret (take n b, Some (drop n b))"
  "n < length b \<Longrightarrow> get_input_gt (guest_memory b) (syscall_inputs i b fuel g) n = hret (take (n + 1) b, Some (drop (n + 1) b))"
  by (simp_all add: get_input_eq_def get_input_ge_def get_input_gt_def guest_read guest_rest)

lemma or_out_of_bounds_Some [simp]: "or_out_of_bounds (Some b) = hret b"
  by (simp add: or_out_of_bounds_def)

text \<open>The fast path of the copy and the padded path give the same window of the code, filled up with zeros.\<close>

lemma copy_code_window: "copy_code code off len = padded_window code off len"
proof (cases "off \<ge> length code")
  case False
  show ?thesis
  proof (cases "len \<le> length code - off")
    case True
    with False show ?thesis by (simp add: copy_code_def padded_window_def window_def Let_def min_def)
  next
    case short: False
    then have "take (len - (length code - off)) (replicate len 0) = drop (length code - off) (replicate len (0 :: byte))" by simp
    with False short show ?thesis by (simp add: copy_code_def padded_window_def window_def blit_def Let_def min_def)
  qed
qed (simp add: copy_code_def padded_window_def)

definition request_ok :: "request \<Rightarrow> bool" where
  "request_ok q = (case q of EmitLog ts d \<Rightarrow> length ts \<le> 4 \<and> (\<forall>t \<in> set ts. length t = 32) | _ \<Rightarrow> True)"

text \<open>Serving the buffer of a request.\<close>

abbreviation serves :: "('j, 'g, 'b, 'r) revm \<Rightarrow> host_frame \<Rightarrow> u64 \<Rightarrow> 'g \<Rightarrow> request \<Rightarrow> byte list \<Rightarrow> bool" where
  "serves R fr fuel g q b \<equiv>
     serve_syscall R (guest_memory b) fr (syscall_inputs (request_id q) b fuel g) =
     perform R fr (syscall_inputs (request_id q) b fuel g) q"

lemma done_eq: "done_with = (\<lambda>out. hret (Result out ExitCode_Ok))"
  by (simp add: done_with_def fun_eq_iff)

lemmas serve_simps = serve_syscall_def syscall_ids guest_inputs window_def done_eq writable_def Let_def

lemma serves_storage:
  "serves R fr fuel g (StorageRead slot) (to_le_bytes slot)"
  "serves R fr fuel g (StorageWrite slot value) (to_le_bytes slot @ to_le_bytes value)"
  "serves R fr fuel g (TransientRead slot) (to_le_bytes slot)"
  "serves R fr fuel g (TransientWrite slot value) (to_le_bytes slot @ to_le_bytes value)"
  "serves R fr fuel g (MetadataStorageRead slot) (to_le_bytes slot)"
  "serves R fr fuel g (MetadataStorageWrite slot value) (to_le_bytes slot @ to_le_bytes value)"
  by (simp_all add: serve_simps host_storage_read_def host_storage_write_def host_transient_read_def host_transient_write_def
      host_metadata_storage_read_def host_metadata_storage_write_def)

lemma require_owned_same:
  "hbind (require_owned R owner info) (\<lambda>(ow, m). k ow) = hbind (require_owned R owner info) (\<lambda>_. k owner)"
  by (rule ext) (auto simp: require_owned_def hbind_def hret_def hexit_def split: option.split)

lemma serves_accounts:
  "serves R fr fuel g (Balance a) (to_be_bytes a)"
  "serves R fr fuel g SelfBalance []"
  "serves R fr fuel g (MetadataWrite a off m) (to_be_bytes a @ to_le_bytes off @ m)"
  "serves R fr fuel g (MetadataCreate salt m) (to_be_bytes salt @ m)"
  "serves R fr fuel g (UpgradeRuntime a m) (to_be_bytes a @ m)"
  "serves R fr fuel g (UpgradeEvmRuntime a m) (to_be_bytes a @ m)"
  by (simp_all add: serve_simps host_balance_def host_self_balance_def host_metadata_write_def host_metadata_create_def
      host_upgrade_wasm_runtime_def host_upgrade_evm_runtime_def require_owned_same cong: option.case_cong if_cong)

lemma serves_calls:
  "serves R fr fuel g (CallRequest a value input) (to_be_bytes a @ to_le_bytes value @ input)"
  "serves R fr fuel g (CallCodeRequest a value input) (to_be_bytes a @ to_le_bytes value @ input)"
  "serves R fr fuel g (StaticCallRequest a input) (to_be_bytes a @ input)"
  "serves R fr fuel g (DelegateCallRequest a input) (to_be_bytes a @ input)"
  by (simp_all add: serve_simps host_call_def host_call_code_def host_static_call_def host_delegate_call_def perform_call_def cong: if_cong)

lemma if_result: "(if c then hret (Result x e) else hret (Result y e)) = hret (Result (if c then x else y) e)"
  by simp

lemma serves_code_copy: "serves R fr fuel g (CodeCopy a off len) (to_be_bytes a @ to_le_bytes off @ to_le_bytes len)"
proof -
  let ?b = "to_be_bytes a @ to_le_bytes off @ to_le_bytes len"
  have "window ?b 0 20 = to_be_bytes a" "window ?b 20 8 = to_le_bytes off" "window ?b 28 8 = to_le_bytes len"
    by (simp_all add: window_def)
  then show ?thesis
    by (simp add: serve_syscall_def syscall_ids guest_inputs host_code_copy_def perform_code_copy_def copy_code_window done_eq Let_def cong: if_cong)
qed

lemma recent_block:
  "(n \<le> c \<and> 0 < c - n \<and> c - n \<le> 256) = (n < c \<and> unat c \<le> unat n + 256)" for n c :: u64
proof (cases "n \<le> c")
  case True
  then have "unat (c - n) = unat c - unat n" by (rule unat_sub)
  with True show ?thesis by (auto simp: word_less_nat_alt word_le_nat_alt)
qed auto

lemma still_exists: "(if t \<and> p then False else t) = (t \<and> \<not> p)"
  by auto

lemma serves_others:
  "serves R fr fuel g (DestroyAccount a) (to_be_bytes a)"
  "serves R fr fuel g (BlockHash n) (to_le_bytes n)"
  "serves R fr fuel g (CreateRequest salt v code) (to_le_bytes v @ (case salt of Some s \<Rightarrow> to_le_bytes s | None \<Rightarrow> []) @ code)"
  by (simp_all add: serve_simps host_destroy_account_def host_block_hash_def host_create_def recent_block still_exists cong: if_cong split: option.split)

lemma length_topics: "\<forall>t \<in> set ts. length t = 32 \<Longrightarrow> length (concat ts) = 32 * length ts"
  by (induction ts) auto

lemma nth_topic:
  "\<forall>t \<in> set ts. length t = 32 \<Longrightarrow> i < length ts \<Longrightarrow> take 32 (drop (32 * i) (concat ts @ r)) = ts ! i"
proof (induction ts arbitrary: i)
  case (Cons t ts)
  show ?case
  proof (cases i)
    case (Suc j)
    have "drop (32 * i) (concat (t # ts) @ r) = drop (32 * j) (concat ts @ r)" using Cons(2) Suc by simp
    with Cons Suc show ?thesis by simp
  qed (use Cons in simp)
qed simp

lemma serves_emit_log:
  assumes "length ts \<le> 4" and len: "\<forall>t \<in> set ts. length t = 32"
  shows "serves R fr fuel g (EmitLog ts d) ([word_of_nat (length ts)] @ concat ts @ d)"
proof -
  let ?n = "length ts" and ?b = "[word_of_nat (length ts)] @ concat ts @ d"
  have n: "unat (word_of_nat ?n :: u8) = ?n" using assms(1) by (simp add: unat_of_nat)
  have l: "length ?b = 1 + ?n * 32 + length d" by (simp add: length_topics [OF len])
  have r: "drop (?n * 32 + 1) ?b = d" by (simp add: length_topics [OF len] mult.commute)
  have w: "map (\<lambda>i. window (take (?n * 32 + 1) ?b) (1 + i * 32) 32) [0..<?n] = ts"
  proof (rule nth_equalityI)
    fix i assume "i < length (map (\<lambda>i. window (take (?n * 32 + 1) ?b) (1 + i * 32) 32) [0..<?n])"
    then have i: "i < ?n" by simp
    have "window (take (?n * 32 + 1) ?b) (1 + i * 32) 32 = take 32 (drop (32 * i) (concat ts))"
      by (simp add: window_def length_topics [OF len] mult.commute)
    with i nth_topic [OF len i, of "[]"] show "map (\<lambda>i. window (take (?n * 32 + 1) ?b) (1 + i * 32) 32) [0..<?n] ! i = ts ! i" by simp
  qed simp
  have rd: "read_input (guest_memory ?b) (syscall_inputs i ?b fuel g) 1 = hret [word_of_nat ?n]" for i
    by (subst guest_read) simp_all
  have gt: "get_input_gt (guest_memory ?b) (syscall_inputs i ?b fuel g) (?n * 32) = hret (take (?n * 32 + 1) ?b, Some d)" for i
  proof -
    have "?n * 32 < length ?b" unfolding l by simp
    from guest_inputs(3) [OF this] show ?thesis by (simp only: r)
  qed
  have "serve_syscall R (guest_memory ?b) fr (syscall_inputs (request_id (EmitLog ts d)) ?b fuel g) =
      host_emit_log R (guest_memory ?b) fr (syscall_inputs SYSCALL_ID_EMIT_LOG ?b fuel g)"
    by (simp add: serve_syscall_def syscall_ids)
  also have "\<dots> = perform R fr (syscall_inputs (request_id (EmitLog ts d)) ?b fuel g) (EmitLog ts d)"
    unfolding host_emit_log_def rd hbind_hret Let_def inputs_sel list.sel n gt l prod.case w or_out_of_bounds_Some
    using assms(1) by (simp add: writable_def done_with_def)
  finally show ?thesis .
qed

lemma served:
  "serves R fr fuel g q b \<Longrightarrow> request_buffer q = Ok b \<Longrightarrow>
   \<exists>b. request_buffer q = Ok b \<and> serve_syscall R (guest_memory b) fr (syscall_inputs (request_id q) b fuel g) =
     perform R fr (syscall_inputs (request_id q) b fuel g) q"
  by blast



end
