(* ===== verification/Storage_Collections.thy ===== *)
theory Storage_Collections
  imports System_Context
begin

text \<open>
  The storage layer of the SDK, upper half: mappings (\<open>storage/map.rs\<close>), arrays (\<open>storage/array.rs\<close>)
  and vectors (\<open>storage/vec.rs\<close>) laid out in slots the way Solidity does it. \<open>keccak\<close> stands for the
  hash function, which is outside the repository. Vectors refine lists, provided the hashed region does
  not contain the base slot.
\<close>

section \<open>Keys of mappings (primitive.rs, map.rs)\<close>

definition encode_key_at ::
  "'a packable_codec \<Rightarrow> 'a \<Rightarrow> byte list \<Rightarrow> nat \<Rightarrow> nat \<Rightarrow> (exit_code, byte list) outcome" where
  "encode_key_at T value word start stop =
     oc_bind (slice word start stop)
       (\<lambda>target. oc_bind (encode_into T value target) (\<lambda>part. write_slice word start stop part))"

definition zero_extended_key :: "'a packable_codec \<Rightarrow> 'a \<Rightarrow> (exit_code, byte list) outcome" where
  "zero_extended_key T value = encode_key_at T value (replicate 32 0) (32 - ENCODED_SIZE T) 32"

definition sign_extended_key :: "'a packable_codec \<Rightarrow> 'a \<Rightarrow> bool \<Rightarrow> (exit_code, byte list) outcome" where
  "sign_extended_key T value is_negative =
     encode_key_at T value (replicate 32 (if is_negative then 0xFF else 0)) (32 - ENCODED_SIZE T) 32"

definition right_padded_key :: "'a packable_codec \<Rightarrow> 'a \<Rightarrow> (exit_code, byte list) outcome" where
  "right_padded_key T value = encode_key_at T value (replicate 32 0) 0 (ENCODED_SIZE T)"

text \<open>\<open>impl_zero_extended_key!\<close>, \<open>impl_sign_extended_key!\<close> and the key part of \<open>impl_fixed_bytes_codec!\<close>.\<close>

definition uint_key_word :: "'a::len word \<Rightarrow> (exit_code, byte list) outcome" where
  "uint_key_word v = zero_extended_key uint_packable v"

definition int_key_word :: "'a::len word \<Rightarrow> (exit_code, byte list) outcome" where
  "int_key_word v = sign_extended_key signed_packable v (sint v < 0)"

definition bytes_key_word :: "nat \<Rightarrow> byte list \<Rightarrow> (exit_code, byte list) outcome" where
  "bytes_key_word n v = right_padded_key (fixed_bytes_packable n) v"

definition compute_slot :: "(byte list \<Rightarrow> byte list) \<Rightarrow> byte list \<Rightarrow> u256 \<Rightarrow> u256" where
  "compute_slot keccak key_word base_slot = from_be_bytes (keccak (key_word @ to_be_bytes base_slot))"

definition compute_slot_dynamic :: "(byte list \<Rightarrow> byte list) \<Rightarrow> byte list \<Rightarrow> u256 \<Rightarrow> u256" where
  "compute_slot_dynamic keccak key base_slot = from_be_bytes (keccak (key @ to_be_bytes base_slot))"

definition map_layout :: layout where
  "map_layout = \<lparr>BYTES = 32, SLOTS = 1\<rparr>"

definition map_entry :: "(byte list \<Rightarrow> byte list) \<Rightarrow> layout \<Rightarrow> u256 \<Rightarrow> byte list \<Rightarrow> location" where
  "map_entry keccak V base_slot key_word =
     (compute_slot keccak key_word base_slot, if SLOTS V = 0 then word_of_nat (32 - BYTES V) else 0)"

section \<open>StorageArray\<close>

definition array_layout :: "layout \<Rightarrow> nat \<Rightarrow> layout" where
  "array_layout T N =
     \<lparr>BYTES = (if SLOTS T = 0 then BYTES T * N else SLOTS T * N * 32),
      SLOTS = (if SLOTS T = 0 then (BYTES T * N + 31) div 32 else SLOTS T * N)\<rparr>"

definition elements_per_slot :: "layout \<Rightarrow> nat" where
  "elements_per_slot T = (if SLOTS T = 0 then 32 div BYTES T else 1)"

definition array_element_location :: "nat \<Rightarrow> layout \<Rightarrow> u256 \<Rightarrow> nat \<Rightarrow> location" where
  "array_element_location um T base_slot i =
     (if SLOTS T = 0
      then (let eps = elements_per_slot T; slot_index = i div eps; position_in_slot = i mod eps
            in (base_slot + word_of_nat slot_index, word_of_nat (32 - (position_in_slot + 1) * BYTES T)))
      else (base_slot + word_of_nat (usize_mul um i (SLOTS T)), 0))"

definition array_at :: "nat \<Rightarrow> layout \<Rightarrow> nat \<Rightarrow> u256 \<Rightarrow> nat \<Rightarrow> (exit_code, location) outcome" where
  "array_at um T N base_slot i =
     oc_bind (oc_assert (i < N)) (\<lambda>_. Ok (array_element_location um T base_slot i))"

section \<open>StorageVec\<close>

definition elements_base_slot :: "(byte list \<Rightarrow> byte list) \<Rightarrow> u256 \<Rightarrow> u256" where
  "elements_base_slot keccak base_slot = from_be_bytes (keccak (to_be_bytes base_slot))"

definition vec_len_checked :: "'s storage_api \<Rightarrow> u256 \<Rightarrow> ('s, u64) comp" where
  "vec_len_checked api base_slot =
     cbind (sload api base_slot) (\<lambda>word. cbind (lift_oc (slice word 24 32)) (\<lambda>b. ret (from_be_bytes b)))"

definition vec_len :: "'s storage_api \<Rightarrow> u256 \<Rightarrow> ('s, u64) comp" where
  "vec_len api base_slot = comp_unwrap (vec_len_checked api base_slot)"

definition vec_is_empty_checked :: "'s storage_api \<Rightarrow> u256 \<Rightarrow> ('s, bool) comp" where
  "vec_is_empty_checked api base_slot = cbind (vec_len_checked api base_slot) (\<lambda>n. ret (n = 0))"

text \<open>The index arithmetic is done on \<open>u64\<close> and \<open>U256\<close> words, which wrap.\<close>

definition vec_element_location :: "(byte list \<Rightarrow> byte list) \<Rightarrow> layout \<Rightarrow> u256 \<Rightarrow> u64 \<Rightarrow> location" where
  "vec_element_location keccak T base_slot i =
     (let elements_base = elements_base_slot keccak base_slot
      in if SLOTS T = 0
         then (let eps = (word_of_nat (32 div BYTES T) :: u64); slot_index = i div eps; position_in_slot = i mod eps
               in (elements_base + word_of_nat (unat slot_index),
                   word_of_nat (unat (32 - (position_in_slot + 1) * word_of_nat (BYTES T)))))
         else (elements_base + word_of_nat (unat i) * word_of_nat (SLOTS T), 0))"

definition vec_get_checked ::
  "'s storage_api \<Rightarrow> (byte list \<Rightarrow> byte list) \<Rightarrow> layout \<Rightarrow> u256 \<Rightarrow> u64 \<Rightarrow> ('s, location option) comp" where
  "vec_get_checked api keccak T base_slot i =
     cbind (vec_len_checked api base_slot)
       (\<lambda>n. if i \<ge> n then ret None else ret (Some (vec_element_location keccak T base_slot i)))"

definition len_word :: "u64 \<Rightarrow> byte list" where
  "len_word n = blit (replicate 32 0) 24 (to_be_bytes n)"

definition vec_grow_checked ::
  "'s storage_api \<Rightarrow> (byte list \<Rightarrow> byte list) \<Rightarrow> layout \<Rightarrow> u256 \<Rightarrow> ('s, location) comp" where
  "vec_grow_checked api keccak T base_slot =
     cbind (vec_len api base_slot)
       (\<lambda>current_len. cbind (sstore api base_slot (len_word (current_len + 1)))
       (\<lambda>_. ret (vec_element_location keccak T base_slot current_len)))"

definition vec_shrink_checked ::
  "'s storage_api \<Rightarrow> (byte list \<Rightarrow> byte list) \<Rightarrow> layout \<Rightarrow> u256 \<Rightarrow> ('s, location option) comp" where
  "vec_shrink_checked api keccak T base_slot =
     cbind (vec_len api base_slot)
       (\<lambda>current_len. if current_len = 0 then ret None
          else (let i = current_len - 1
                in cbind (sstore api base_slot (len_word i))
                   (\<lambda>_. ret (Some (vec_element_location keccak T base_slot i)))))"

definition vec_clear_checked :: "'s storage_api \<Rightarrow> u256 \<Rightarrow> ('s, unit) comp" where
  "vec_clear_checked api base_slot = sstore api base_slot (replicate 32 0)"

definition push_checked ::
  "'s storage_api \<Rightarrow> (byte list \<Rightarrow> byte list) \<Rightarrow> 'a packable_codec \<Rightarrow> u256 \<Rightarrow> 'a \<Rightarrow> ('s, unit) comp" where
  "push_checked api keccak T base_slot value =
     cbind (vec_grow_checked api keccak (primitive_layout T) base_slot) (\<lambda>loc. set_checked api T loc value)"

definition pop_checked ::
  "'s storage_api \<Rightarrow> (byte list \<Rightarrow> byte list) \<Rightarrow> 'a packable_codec \<Rightarrow> u256 \<Rightarrow> ('s, 'a option) comp" where
  "pop_checked api keccak T base_slot =
     cbind (vec_shrink_checked api keccak (primitive_layout T) base_slot)
       (\<lambda>r. case r of None \<Rightarrow> ret None | Some loc \<Rightarrow> cbind (get_checked api T loc) (\<lambda>v. ret (Some v)))"

text \<open>The variants without \<open>_checked\<close> unwrap the result.\<close>

definition vec_is_empty :: "'s storage_api \<Rightarrow> u256 \<Rightarrow> ('s, bool) comp" where
  "vec_is_empty api base_slot = comp_unwrap (vec_is_empty_checked api base_slot)"

definition vec_get ::
  "'s storage_api \<Rightarrow> (byte list \<Rightarrow> byte list) \<Rightarrow> layout \<Rightarrow> u256 \<Rightarrow> u64 \<Rightarrow> ('s, location option) comp" where
  "vec_get api keccak T base_slot i = comp_unwrap (vec_get_checked api keccak T base_slot i)"

definition vec_grow :: "'s storage_api \<Rightarrow> (byte list \<Rightarrow> byte list) \<Rightarrow> layout \<Rightarrow> u256 \<Rightarrow> ('s, location) comp" where
  "vec_grow api keccak T base_slot = comp_unwrap (vec_grow_checked api keccak T base_slot)"

definition vec_shrink :: "'s storage_api \<Rightarrow> (byte list \<Rightarrow> byte list) \<Rightarrow> layout \<Rightarrow> u256 \<Rightarrow> ('s, location option) comp" where
  "vec_shrink api keccak T base_slot = comp_unwrap (vec_shrink_checked api keccak T base_slot)"

definition vec_clear :: "'s storage_api \<Rightarrow> u256 \<Rightarrow> ('s, unit) comp" where
  "vec_clear api base_slot = comp_unwrap (vec_clear_checked api base_slot)"

definition push :: "'s storage_api \<Rightarrow> (byte list \<Rightarrow> byte list) \<Rightarrow> 'a packable_codec \<Rightarrow> u256 \<Rightarrow> 'a \<Rightarrow> ('s, unit) comp" where
  "push api keccak T base_slot value = comp_unwrap (push_checked api keccak T base_slot value)"

definition pop :: "'s storage_api \<Rightarrow> (byte list \<Rightarrow> byte list) \<Rightarrow> 'a packable_codec \<Rightarrow> u256 \<Rightarrow> ('s, 'a option) comp" where
  "pop api keccak T base_slot = comp_unwrap (pop_checked api keccak T base_slot)"

definition vec_layout :: layout where
  "vec_layout = \<lparr>BYTES = 32, SLOTS = 1\<rparr>"

section \<open>Locations of packed elements\<close>

definition packed_location :: "u256 \<Rightarrow> nat \<Rightarrow> nat \<Rightarrow> location" where
  "packed_location b z n =
     (b + word_of_nat (n div (32 div z)), word_of_nat (32 - (n mod (32 div z) + 1) * z))"

lemma position_bound:
  fixes z :: nat
  assumes "0 < z" "z \<le> 32"
  shows "(n mod (32 div z) + 1) * z \<le> 32"
proof -
  have "0 < 32 div z" using assms by (simp add: div_greater_zero_iff)
  then have "n mod (32 div z) + 1 \<le> 32 div z" using mod_less_divisor [of "32 div z" n] by linarith
  then have "(n mod (32 div z) + 1) * z \<le> 32 div z * z" by (rule mult_right_mono) simp
  also have "\<dots> \<le> 32" by (rule div_times_less_eq_dividend)
  finally show ?thesis .
qed

lemma snd_packed_location:
  assumes "0 < z" "z \<le> 32"
  shows "unat (snd (packed_location b z n)) = 32 - (n mod (32 div z) + 1) * z"
proof -
  have "32 - (n mod (32 div z) + 1) * z < 2 ^ 8" by simp
  then show ?thesis by (simp add: packed_location_def unat_of_nat)
qed

lemma packed_location_fits:
  assumes "0 < ENCODED_SIZE T" "ENCODED_SIZE T \<le> 32"
  shows "fits T (packed_location b (ENCODED_SIZE T) n)"
  using position_bound [OF assms, of n] snd_packed_location [OF assms, of b n] by (simp add: fits_def)

lemma word_of_nat_u256_inject: "i < 2 ^ 64 \<Longrightarrow> j < 2 ^ 64 \<Longrightarrow> (word_of_nat i = (word_of_nat j :: u256)) = (i = j)"
  by (simp add: word_of_nat_eq_iff take_bit_nat_eq_self)

lemma packed_location_disjoint:
  assumes z: "0 < ENCODED_SIZE T" "ENCODED_SIZE T \<le> 32" and "i < 2 ^ 64" "j < 2 ^ 64" "i \<noteq> j"
  shows "occupies T (packed_location b (ENCODED_SIZE T) i) \<inter> occupies T (packed_location b (ENCODED_SIZE T) j) = {}"
proof (cases "i div (32 div ENCODED_SIZE T) = j div (32 div ENCODED_SIZE T)")
  case False
  have "i div (32 div ENCODED_SIZE T) < 2 ^ 64" "j div (32 div ENCODED_SIZE T) < 2 ^ 64"
    using assms(3,4) by (meson div_le_dividend le_less_trans)+
  then have "fst (packed_location b (ENCODED_SIZE T) i) \<noteq> fst (packed_location b (ENCODED_SIZE T) j)"
    using False by (simp add: packed_location_def word_of_nat_u256_inject)
  then show ?thesis by (auto simp: occupies_def)
next
  case True
  let ?e = "32 div ENCODED_SIZE T" and ?z = "ENCODED_SIZE T"
  have ne: "i mod ?e \<noteq> j mod ?e" using True assms(5) by (metis div_mult_mod_eq)
  have step: "(p + 1) * ?z \<le> q * ?z" if "p < q" for p q using that by (intro mult_right_mono) simp_all
  have sep: "(32 - (p + 1) * ?z \<ge> 32 - (q + 1) * ?z + ?z)" if "p < q" "(q + 1) * ?z \<le> 32" for p q
    using step [OF that(1)] that(2) by (simp add: algebra_simps)
  have "32 - (i mod ?e + 1) * ?z \<ge> 32 - (j mod ?e + 1) * ?z + ?z \<or> 32 - (j mod ?e + 1) * ?z \<ge> 32 - (i mod ?e + 1) * ?z + ?z"
    using ne sep [OF _ position_bound [OF z]] by (metis linorder_neqE_nat)
  then show ?thesis unfolding occupies_def snd_packed_location [OF z] by (auto dest: less_le_trans)
qed

text \<open>The vector's own location function, computed on machine words, is that location.\<close>

lemma vec_element_location_eq:
  assumes "0 < ENCODED_SIZE T" "ENCODED_SIZE T \<le> 32"
  shows "vec_element_location keccak (primitive_layout T) base i =
    packed_location (elements_base_slot keccak base) (ENCODED_SIZE T) (unat i)"
proof (cases "ENCODED_SIZE T = 32")
  case False
  let ?z = "ENCODED_SIZE T"
  let ?e = "32 div ?z"
  have e: "unat (word_of_nat ?e :: u64) = ?e" "unat (word_of_nat ?z :: u64) = ?z"
    using assms by (simp_all add: unat_of_nat div_le_dividend le_less_trans [where y = 32])
  note bound = position_bound [OF assms, of "unat i"]
  have "unat i mod ?e + 1 \<le> 32" using bound assms(1) by (metis le_trans mult.right_neutral mult_le_mono2 Suc_leI One_nat_def)
  then have a: "unat (i mod word_of_nat ?e + 1) = unat i mod ?e + 1"
    by (simp only: unat_word_ariths unat_mod e unsigned_1) simp
  have p: "unat ((i mod word_of_nat ?e + 1) * word_of_nat ?z) = (unat i mod ?e + 1) * ?z"
    using bound by (simp only: unat_word_ariths(2) a e) (rule mod_less, simp)
  have q: "unat (32 - (i mod word_of_nat ?e + 1) * word_of_nat ?z :: u64) = 32 - (unat i mod ?e + 1) * ?z"
    using bound by (subst unat_sub) (simp_all only: word_le_nat_alt p, simp_all)
  show ?thesis
    unfolding vec_element_location_def Let_def primitive_layout_def packed_location_def layout.select_convs
      if_not_P [OF False] unat_div e q by simp
qed (simp add: vec_element_location_def primitive_layout_def packed_location_def)

section \<open>Vectors refine lists\<close>

text \<open>
  \<open>vec_holds\<close>: the storage of a state holds the vector \<open>xs\<close> at a base slot. \<open>vec_apart\<close>: the slots of
  the first \<open>n\<close> elements do not meet the base slot.
\<close>

definition element_at :: "(byte list \<Rightarrow> byte list) \<Rightarrow> 'a packable_codec \<Rightarrow> u256 \<Rightarrow> nat \<Rightarrow> location" where
  "element_at keccak T base i = vec_element_location keccak (primitive_layout T) base (word_of_nat i)"

definition vec_holds ::
  "'s storage_api \<Rightarrow> (byte list \<Rightarrow> byte list) \<Rightarrow> 'a packable_codec \<Rightarrow> u256 \<Rightarrow> 's \<Rightarrow> 'a list \<Rightarrow> bool" where
  "vec_holds api keccak T base s xs =
     (length xs < 2 ^ 64 \<and> fst (vec_len_checked api base s) = Ok (word_of_nat (length xs)) \<and>
      (\<forall>i<length xs. fst (get_checked api T (element_at keccak T base i) s) = Ok (xs ! i)))"

definition vec_apart :: "(byte list \<Rightarrow> byte list) \<Rightarrow> 'a packable_codec \<Rightarrow> u256 \<Rightarrow> nat \<Rightarrow> bool" where
  "vec_apart keccak T base n = (\<forall>i<n. fst (element_at keccak T base i) \<noteq> base)"

lemma len_word_slice: "slice (len_word n) 24 32 = Ok (to_be_bytes n)"
  by (simp add: slice_def len_word_def blit_def)

lemma to_be_len_word: "to_be_bytes (from_be_bytes (len_word n) :: u256) = len_word n"
  by (simp add: to_from_be_bytes len_word_def)

context packed_storage
begin

lemma element_fits: "fits T (element_at keccak T base i)"
  unfolding element_at_def vec_element_location_eq [OF size_pos size_le]
  by (rule packed_location_fits [OF size_pos size_le])

lemma element_disjoint:
  assumes "i < 2 ^ 64" "j < 2 ^ 64" "i \<noteq> j"
  shows "occupies T (element_at keccak T base i) \<inter> occupies T (element_at keccak T base j) = {}"
proof -
  have u: "unat (word_of_nat k :: u64) = k" if "k < 2 ^ 64" for k using that by (simp add: unat_of_nat)
  show ?thesis
    unfolding element_at_def vec_element_location_eq [OF size_pos size_le] u [OF assms(1)] u [OF assms(2)]
    by (rule packed_location_disjoint [OF size_pos size_le assms])
qed

lemma vec_len_spec:
  assumes "fst (vec_len_checked api base s) = Ok n"
  obtains s' where "vec_len api base s = (Ok n, s')" "lookup s' = lookup s" "rest s' = rest s" "lookup s base \<noteq> None"
proof (cases "lookup s base")
  case None
  with assms show ?thesis by (simp add: vec_len_checked_def sload_missing)
next
  case (Some w)
  then have "vec_len_checked api base s = (Ok n, touch api base s)"
    using assms by (simp add: vec_len_checked_def sload_hit slice_Ok)
  with Some show ?thesis by (intro that [of "touch api base s"]) (simp_all add: vec_len_def comp_unwrap_def storage_laws)
qed

lemma vec_len_cong: "lookup s' = lookup s \<Longrightarrow> fst (vec_len_checked api base s') = fst (vec_len_checked api base s)"
  by (cases "lookup s base") (simp_all add: vec_len_checked_def sload_hit sload_missing slice_Ok)

lemma vec_len_of:
  assumes "lookup s base = Some (from_be_bytes (len_word n))"
  shows "fst (vec_len_checked api base s) = Ok n"
  by (simp add: vec_len_checked_def sload_hit [OF assms] to_be_len_word len_word_slice)

lemma vec_push:
  assumes H: "vec_holds api keccak T base s xs" and "valid v" "Suc (length xs) < 2 ^ 64"
    and A: "vec_apart keccak T base (Suc (length xs))"
    and R: "lookup s (fst (element_at keccak T base (length xs))) \<noteq> None"
  shows "\<exists>s'. push_checked api keccak T base v s = (Ok (), s') \<and> vec_holds api keccak T base s' (xs @ [v]) \<and> rest s' = rest s"
proof -
  let ?n = "length xs" and ?loc = "element_at keccak T base"
  from H have len: "fst (vec_len_checked api base s) = Ok (word_of_nat ?n)"
    and el: "\<And>i. i < ?n \<Longrightarrow> fst (get_checked api T (?loc i) s) = Ok (xs ! i)" by (simp_all add: vec_holds_def)
  from vec_len_spec [OF len] obtain s1 where
    s1: "vec_len api base s = (Ok (word_of_nat ?n), s1)" "lookup s1 = lookup s" "rest s1 = rest s" .
  define s2 where "s2 = put_slot api base (from_be_bytes (len_word (word_of_nat ?n + 1))) s1"
  have l2: "lookup s2 = (lookup s)(base \<mapsto> from_be_bytes (len_word (word_of_nat ?n + 1)))" "rest s2 = rest s"
    by (simp_all add: s2_def write_lookup write_rest s1)
  have ne: "fst (?loc i) \<noteq> base" if "i < Suc ?n" for i using A that by (simp add: vec_apart_def)
  have "lookup s2 (fst (?loc ?n)) \<noteq> None" using R ne by (simp add: l2)
  then obtain s3 where s3: "set_checked api T (?loc ?n) v s2 = (Ok (), s3)"
    "fst (get_checked api T (?loc ?n) s3) = Ok v"
    "\<And>loc'. fits T loc' \<Longrightarrow> occupies T loc' \<inter> occupies T (?loc ?n) = {} \<Longrightarrow>
       fst (get_checked api T loc' s3) = fst (get_checked api T loc' s2)"
    "\<And>a. a \<noteq> fst (?loc ?n) \<Longrightarrow> lookup s3 a = lookup s2 a" "rest s3 = rest s2"
    using set_isolated [of s2 "?loc ?n" v] element_fits assms(2) by metis
  have "push_checked api keccak T base v s = (Ok (), s3)"
    using s3(1) by (simp add: push_checked_def vec_grow_checked_def s1(1) sstore_eq cbind_assoc
        element_at_def [symmetric] s2_def [symmetric])
  moreover have "lookup s3 base = Some (from_be_bytes (len_word (word_of_nat ?n + 1)))"
    using s3(4) ne [of ?n] by (simp add: l2)
  then have "fst (vec_len_checked api base s3) = Ok (word_of_nat (Suc ?n))"
    using vec_len_of by (simp add: add.commute)
  moreover have "fst (get_checked api T (?loc i) s3) = Ok ((xs @ [v]) ! i)" if "i < Suc ?n" for i
  proof (cases "i = ?n")
    case False
    have "fst (get_checked api T (?loc i) s3) = fst (get_checked api T (?loc i) s2)"
      using that False assms(3) by (intro s3(3) element_fits element_disjoint) simp_all
    also have "\<dots> = fst (get_checked api T (?loc i) s)"
      using that ne by (intro get_checked_cong element_fits) (simp_all add: l2)
    finally show ?thesis using el that False by (simp add: nth_append)
  qed (simp add: s3(2))
  ultimately show ?thesis using assms(3) s3(5) l2(2) by (simp add: vec_holds_def)
qed

lemma vec_pop:
  assumes H: "vec_holds api keccak T base s xs" and A: "vec_apart keccak T base (length xs)"
  shows "\<exists>s'. pop_checked api keccak T base s = (Ok (if xs = [] then None else Some (last xs)), s') \<and>
     vec_holds api keccak T base s' (butlast xs) \<and> rest s' = rest s"
proof -
  let ?n = "length xs" and ?loc = "element_at keccak T base"
  from H have len: "fst (vec_len_checked api base s) = Ok (word_of_nat ?n)" and n: "?n < 2 ^ 64"
    and el: "\<And>i. i < ?n \<Longrightarrow> fst (get_checked api T (?loc i) s) = Ok (xs ! i)" by (simp_all add: vec_holds_def)
  from vec_len_spec [OF len] obtain s1 where
    s1: "vec_len api base s = (Ok (word_of_nat ?n), s1)" "lookup s1 = lookup s" "rest s1 = rest s" .
  show ?thesis
  proof (cases "xs = []")
    case True
    have "vec_holds api keccak T base s1 []"
      using len True by (simp add: vec_holds_def vec_len_cong [OF s1(2)])
    then show ?thesis using True s1 by (simp add: pop_checked_def vec_shrink_checked_def)
  next
    case False
    define m where "m = ?n - 1"
    have m: "?n = Suc m" using False by (simp add: m_def)
    define s2 where "s2 = put_slot api base (from_be_bytes (len_word (word_of_nat m))) s1"
    have l2: "lookup s2 = (lookup s)(base \<mapsto> from_be_bytes (len_word (word_of_nat m)))" "rest s2 = rest s"
      by (simp_all add: s2_def write_lookup write_rest s1)
    have w: "(word_of_nat ?n :: u64) \<noteq> 0" "(word_of_nat ?n :: u64) - 1 = word_of_nat m"
      using n m by (simp_all add: word_of_nat_eq_0_iff nat_dvd_not_less del: of_nat_Suc) (simp add: m)
    have el2: "fst (get_checked api T (?loc i) s2) = Ok (xs ! i)" if "i < ?n" for i
    proof -
      have "fst (get_checked api T (?loc i) s2) = fst (get_checked api T (?loc i) s)"
        using that A n by (intro get_checked_cong element_fits) (simp_all add: l2 vec_apart_def)
      then show ?thesis using el that by simp
    qed
    obtain s3 where s3: "get_checked api T (?loc m) s2 = (Ok (last xs), s3)"
      using el2 [of m] m False by (cases "get_checked api T (?loc m) s2") (simp add: last_conv_nth)
    then have "s3 = touch api (fst (?loc m)) s2"
      using element_fits [of keccak base m]
      by (cases "lookup s2 (fst (?loc m))") (simp_all add: get_checked_def read_at_hit read_at_missing fits_def)
    then have l3: "lookup s3 = lookup s2" "rest s3 = rest s2" by (simp_all add: read_lookup read_rest)
    have "pop_checked api keccak T base s = (Ok (Some (last xs)), s3)"
      using s3 by (simp add: pop_checked_def vec_shrink_checked_def s1(1) w Let_def sstore_eq cbind_assoc
          element_at_def [symmetric] s2_def [symmetric])
    moreover have "fst (vec_len_checked api base s3) = Ok (word_of_nat m)"
      by (rule vec_len_of) (simp add: l3 l2)
    moreover have "fst (get_checked api T (?loc i) s3) = Ok (xs ! i)" if "i < m" for i
    proof -
      have "fst (get_checked api T (?loc i) s3) = fst (get_checked api T (?loc i) s2)"
        using that m n by (intro get_checked_cong element_fits) (simp_all add: l3)
      then show ?thesis using el2 that m by simp
    qed
    ultimately show ?thesis using False n m l3 l2 by (simp add: vec_holds_def nth_butlast)
  qed
qed

end

section \<open>Properties\<close>

text \<open>
  C22. A storage vector of packable values behaves as a list: pushing a value onto slots that hold
  \<open>xs\<close> gives slots that hold \<open>xs @ [v]\<close>, popping returns the last element and leaves
  \<open>butlast xs\<close>. The slots of the elements must not meet the base slot, and the slot that receives the
  new element must be readable.
\<close>

theorem storage_vec_refines:
  assumes "packable T enc valid" "vec_holds sys_api keccak T base s xs" "valid v" "Suc (length xs) < 2 ^ 64"
    and "vec_apart keccak T base (Suc (length xs))"
    and "sys_lookup s (fst (element_at keccak T base (length xs))) \<noteq> None"
  shows "(\<exists>s'. push_checked sys_api keccak T base v s = (Ok (), s') \<and> vec_holds sys_api keccak T base s' (xs @ [v])) \<and>
     (\<exists>s'. pop_checked sys_api keccak T base s = (Ok (if xs = [] then None else Some (last xs)), s') \<and>
        vec_holds sys_api keccak T base s' (butlast xs))"
proof -
  have P: "packed_storage sys_api sys_lookup sys_rest T enc valid"
    using assms(1) sys.storage_spec_axioms by (simp add: packed_storage_def)
  have "vec_apart keccak T base (length xs)" using assms(5) by (simp add: vec_apart_def)
  from packed_storage.vec_push [OF P assms(2-6)] packed_storage.vec_pop [OF P assms(2) this] show ?thesis by blast
qed

theorem storage_vec_refines_witness:
  "\<exists>s'. push_checked sys_api (\<lambda>_. to_be_bytes (100 :: u256)) bool_packable 0 True (example_frame [0 \<mapsto> 0, 100 \<mapsto> 0]) = (Ok (), s') \<and>
     vec_holds sys_api (\<lambda>_. to_be_bytes (100 :: u256)) bool_packable 0 s' [True]"
proof -
  let ?k = "\<lambda>_ :: byte list. to_be_bytes (100 :: u256)" and ?s = "example_frame [0 \<mapsto> 0, 100 \<mapsto> 0]"
  have loc: "element_at ?k bool_packable 0 0 = (100, 31)"
    by (simp add: element_at_def vec_element_location_eq packed_location_def elements_base_slot_def bool_packable_def)
  have z: "from_be_bytes (len_word 0) = (0 :: u256)" by code_simp
  have P: "packed_storage sys_api sys_lookup sys_rest bool_packable (\<lambda>v. [if v then 1 else 0]) (\<lambda>_. True)"
    using bool_codec.packable_axioms sys.storage_spec_axioms by (simp add: packed_storage_def)
  have "vec_holds sys_api ?k bool_packable 0 ?s []"
    using packed_storage.vec_len_of [OF P, of ?s 0 0] z by (simp add: vec_holds_def)
  moreover have "vec_apart ?k bool_packable 0 (Suc (length ([] :: bool list)))" by (simp add: vec_apart_def loc)
  ultimately show ?thesis
    using storage_vec_refines [OF bool_codec.packable_axioms, of ?k 0 ?s "[]" True] by (simp add: loc)
qed

text \<open>
  C32. Growing a vector whose length slot cannot be read panics, although \<open>grow_checked\<close> and
  \<open>shrink_checked\<close> return a result: both read the length with the panicking accessor.
\<close>

theorem vec_checked_ops_panic:
  assumes "sys_lookup s base = None"
  shows "fst (vec_grow_checked sys_api keccak T base s) = Panic \<and> fst (vec_shrink_checked sys_api keccak T base s) = Panic \<and>
     fst (vec_len_checked sys_api base s) = Err MissingStorageSlot"
  using sys.sload_missing [OF assms]
  by (simp add: vec_grow_checked_def vec_shrink_checked_def vec_len_def vec_len_checked_def comp_unwrap_def cbind_def)

theorem vec_checked_ops_panic_witness:
  "fst (vec_grow_checked sys_api (\<lambda>b. b) map_layout 5 (example_frame Map.empty)) = Panic"
  using vec_checked_ops_panic [of "example_frame Map.empty" 5] by simp




text \<open>Widening a number to 32 bytes pads its bytes on the left.\<close>

lemma le_nat_append: "le_nat (a @ b) = le_nat a + 256 ^ length a * le_nat b"
  by (induction a) (simp_all add: algebra_simps)

lemma le_nat_replicate: "le_nat (replicate m 0) = 0" "Suc (le_nat (replicate m 255)) = 256 ^ m"
  by (induction m) simp_all

lemma be_bytes_widen:
  assumes "be_nat b + 256 ^ length b * le_nat (replicate m c) = x"
  shows "be_bytes (m + length b) x = replicate m c @ b"
proof -
  have "be_nat (replicate m c @ b) = x" using assms by (simp add: be_nat_def le_nat_append)
  then show ?thesis using be_bytes_be_nat [of "m + length b" "replicate m c @ b"] by simp
qed

lemma encode_key_at_right:
  assumes "encode_into T v = (\<lambda>target. copy_from_slice target p)" "length p = ENCODED_SIZE T" "ENCODED_SIZE T \<le> 32"
  shows "encode_key_at T v (replicate 32 c) (32 - ENCODED_SIZE T) 32 = Ok (replicate (32 - ENCODED_SIZE T) c @ p)"
  using assms by (simp add: encode_key_at_def slice_Ok copy_from_slice_def write_slice_Ok) (simp add: blit_def)

lemma to_be_widen:
  fixes v :: "'a::len word" and w :: u256
  assumes "8 dvd LENGTH('a)" "LENGTH('a) \<le> 256"
    and "unat w = unat v + 2 ^ LENGTH('a) * le_nat (replicate (32 - LENGTH('a) div 8) c)"
  shows "to_be_bytes w = replicate (32 - LENGTH('a) div 8) c @ to_be_bytes v"
proof -
  let ?k = "LENGTH('a) div 8"
  have k: "8 * ?k = LENGTH('a)" "?k \<le> 32" "(LENGTH('a) + 7) div 8 = ?k" using assms(1,2) by auto
  have "be_nat (to_be_bytes v) = unat v" by (simp add: to_be_bytes_def be_nat_be_bytes unat_fits_bytes)
  moreover have "(256 :: nat) ^ ?k = 2 ^ LENGTH('a)" by (subst k(1) [symmetric]) (simp add: power_mult)
  ultimately have "be_bytes ((32 - ?k) + length (to_be_bytes v)) (unat w) = replicate (32 - ?k) c @ to_be_bytes v"
    using assms(3) k(3) by (intro be_bytes_widen) simp
  then show ?thesis using k by (simp add: to_be_bytes_def [of w])
qed

lemma int_mod_signed: "- m \<le> x \<Longrightarrow> x < m \<Longrightarrow> x mod m = (if x < 0 then x + m else x)" for x m :: int
  using mod_add_self2 [of x m] mod_pos_pos_trivial [of "x + m" m] by auto

lemma unat_scast_256:
  fixes v :: "'a::len word"
  assumes "LENGTH('a) \<le> 256"
  shows "unat (scast v :: u256) = (if sint v < 0 then 2 ^ 256 - 2 ^ LENGTH('a) + unat v else unat v)"
proof -
  have b: "- (2 ^ (LENGTH('a) - 1)) \<le> sint v" "sint v < 2 ^ (LENGTH('a) - 1)" by (rule sint_ge, rule sint_lt)
  have p: "(2 :: int) ^ (LENGTH('a) - 1) \<le> 2 ^ 256" "(2 :: int) ^ (LENGTH('a) - 1) \<le> 2 ^ LENGTH('a)"
    "(2 :: nat) ^ LENGTH('a) \<le> 2 ^ 256"
    by (rule power_increasing, use assms in simp, simp)+
  have r: "- (2 ^ LENGTH('a)) \<le> sint v" "sint v < 2 ^ LENGTH('a)" "- (2 ^ 256) \<le> sint v" "sint v < 2 ^ 256"
    using b p by linarith+
  have "int (unat v) = sint v mod 2 ^ LENGTH('a)" by (simp add: uint_sint take_bit_eq_mod)
  then have v: "int (unat v) = (if sint v < 0 then sint v + 2 ^ LENGTH('a) else sint v)"
    unfolding int_mod_signed [OF r(1,2)] .
  have "int (unat (scast v :: u256)) = uint (word_of_int (sint v) :: u256)" by (simp only: scast_eq) simp
  also have "\<dots> = sint v mod 2 ^ 256" by (simp only: uint_word_of_int) simp
  also have "\<dots> = (if sint v < 0 then sint v + 2 ^ 256 else sint v)"
    by (rule int_mod_signed [OF r(3,4)])
  finally have "int (unat (scast v :: u256)) = (if sint v < 0 then int (2 ^ 256 - 2 ^ LENGTH('a) + unat v) else int (unat v))"
    using v p(3) by (simp add: of_nat_diff split: if_splits)
  then show ?thesis by (metis of_nat_eq_iff)
qed

text \<open>
  C26. Mapping keys are padded the way Solidity lays them out in memory: unsigned integers are
  zero-extended, signed integers sign-extended to 256 bits, byte strings padded on the right.
\<close>

theorem map_key_padding:
  fixes v :: "'a::len word"
  assumes "8 dvd LENGTH('a)" "LENGTH('a) \<le> 256" "length b = n" "n \<le> 32"
  shows "uint_key_word v = Ok (to_be_bytes (ucast v :: u256)) \<and>
    int_key_word v = Ok (to_be_bytes (scast v :: u256)) \<and>
    bytes_key_word n b = Ok (b @ replicate (32 - n) 0)"
proof -
  let ?k = "LENGTH('a) div 8"
  have k: "(LENGTH('a) + 7) div 8 = ?k" "?k \<le> 32" "8 * ?k = LENGTH('a)" using assms(1,2) by auto
  have e: "uint_key_word v = Ok (replicate (32 - ?k) 0 @ to_be_bytes v)"
    "int_key_word v = Ok (replicate (32 - ?k) (if sint v < 0 then 255 else 0) @ to_be_bytes v)"
    using encode_key_at_right [of uint_packable v "to_be_bytes v" 0]
      encode_key_at_right [of signed_packable v "to_be_bytes v" "if sint v < 0 then 255 else 0"] k
    by (simp_all add: uint_key_word_def int_key_word_def zero_extended_key_def sign_extended_key_def uint_packable_def signed_packable_def)
  have u: "to_be_bytes (ucast v :: u256) = replicate (32 - ?k) 0 @ to_be_bytes v"
  proof (rule to_be_widen [OF assms(1,2)])
    have "unat v < 2 ^ 256" using unsigned_less [of v] assms(2) power_increasing [of "LENGTH('a)" 256 "2 :: nat"]
      by (metis less_le_trans one_le_numeral)
    then show "unat (ucast v :: u256) = unat v + 2 ^ LENGTH('a) * le_nat (replicate (32 - ?k) 0)"
      by (simp add: le_nat_replicate unsigned_ucast_eq take_bit_nat_eq_self)
  qed
  have "(2 :: nat) ^ 256 = 2 ^ LENGTH('a) * 256 ^ (32 - ?k)"
  proof -
    have "(256 :: nat) ^ (32 - ?k) = 2 ^ (8 * (32 - ?k))" by (simp add: power_mult)
    moreover have "256 = LENGTH('a) + 8 * (32 - ?k)" using k by linarith
    ultimately show ?thesis by (metis power_add)
  qed
  moreover have "(256 :: nat) ^ (32 - ?k) = Suc (le_nat (replicate (32 - ?k) 255))" by (simp add: le_nat_replicate)
  ultimately have "(2 :: nat) ^ 256 - 2 ^ LENGTH('a) = 2 ^ LENGTH('a) * le_nat (replicate (32 - ?k) 255)" by simp
  then have "to_be_bytes (scast v :: u256) = replicate (32 - ?k) (if sint v < 0 then 255 else 0) @ to_be_bytes v"
    by (intro to_be_widen [OF assms(1,2)]) (simp add: unat_scast_256 [OF assms(2)] le_nat_replicate)
  moreover have "bytes_key_word n b = Ok (b @ replicate (32 - n) 0)"
    using assms(3,4) by (simp add: bytes_key_word_def right_padded_key_def fixed_bytes_packable_def encode_key_at_def slice_Ok
        copy_from_slice_def write_slice_Ok) (simp add: blit_def)
  ultimately show ?thesis using e u by simp
qed

theorem map_key_padding_witness:
  "int_key_word (- 1 :: u64) = Ok (to_be_bytes (scast (- 1 :: u64) :: u256)) \<and>
   bytes_key_word 2 [1, 2] = Ok ([1, 2] @ replicate 30 0)"
  using map_key_padding [of "[1, 2]" 2 "- 1 :: u64"] by simp

end
