(* ===== verification/Storage_Bytes.thy ===== *)
theory Storage_Bytes
  imports Storage_Collections
begin

text \<open>
  Byte strings in storage (\<open>crates/sdk/src/storage/bytes.rs\<close>): up to 31 bytes share the base
  slot with twice their length, longer ones keep twice their length plus one there and their bytes from
  the slot \<open>keccak(base)\<close> on. \<open>um\<close> is the largest \<open>usize\<close>.
\<close>

section \<open>StorageBytes\<close>

definition data_slot :: "(byte list \<Rightarrow> byte list) \<Rightarrow> u256 \<Rightarrow> u256" where
  "data_slot keccak base_slot = from_be_bytes (keccak (to_be_bytes base_slot))"

definition read_metadata :: "nat \<Rightarrow> 's storage_api \<Rightarrow> u256 \<Rightarrow> ('s, nat \<times> bool) comp" where
  "read_metadata um api base_slot =
     cbind (sload api base_slot)
       (\<lambda>word. cbind (lift_oc (index word 31))
       (\<lambda>last_byte.
          if last_byte AND 1 = 0
          then (let len = unat (last_byte div 2)
                in if len > 31 then throw InputOutputOutOfBounds else ret (len, False))
          else (let len = (from_be_bytes word :: u256) div 2
                in if len < 32 then throw InputOutputOutOfBounds
                   else if unat len \<le> um then ret (unat len, True) else throw InputOutputOutOfBounds)))"

definition bytes_len :: "nat \<Rightarrow> 's storage_api \<Rightarrow> u256 \<Rightarrow> ('s, nat) comp" where
  "bytes_len um api base_slot s =
     (case read_metadata um api base_slot s of
        (Ok (n, _), s') \<Rightarrow> (Ok n, s')
      | (Err _, s') \<Rightarrow> (Ok 0, s')
      | (Panic, s') \<Rightarrow> (Panic, s'))"

definition div_ceil :: "nat \<Rightarrow> nat \<Rightarrow> nat" where
  "div_ceil a b = a div b + (if a mod b = 0 then 0 else 1)"

fun load_chunks :: "nat \<Rightarrow> 's storage_api \<Rightarrow> u256 \<Rightarrow> nat \<Rightarrow> nat list \<Rightarrow> byte list \<Rightarrow> ('s, byte list) comp" where
  "load_chunks um api data_base len [] acc = ret acc"
| "load_chunks um api data_base len (i # is) acc =
     cbind (sload api (data_base + word_of_nat i))
       (\<lambda>word. let start = usize_mul um i 32; stop = min (usize_add um start 32) len
               in cbind (lift_oc (slice word 0 (usize_sub um stop start)))
                  (\<lambda>part. load_chunks um api data_base len is (acc @ part)))"

definition bytes_load :: "nat \<Rightarrow> 's storage_api \<Rightarrow> (byte list \<Rightarrow> byte list) \<Rightarrow> u256 \<Rightarrow> ('s, byte list) comp" where
  "bytes_load um api keccak base_slot =
     cbind (read_metadata um api base_slot)
       (\<lambda>(len, is_long).
          if \<not> is_long then cbind (sload api base_slot) (\<lambda>word. lift_oc (slice word 0 len))
          else load_chunks um api (data_slot keccak base_slot) len [0..<div_ceil len 32] [])"

fun clear_slots :: "'s storage_api \<Rightarrow> u256 \<Rightarrow> nat list \<Rightarrow> ('s, unit) comp" where
  "clear_slots api data_base [] = ret ()"
| "clear_slots api data_base (i # is) =
     cbind (sstore api (data_base + word_of_nat i) (replicate 32 0)) (\<lambda>_. clear_slots api data_base is)"

fun chunks :: "nat \<Rightarrow> 'a list \<Rightarrow> 'a list list" where
  "chunks n xs = (if n = 0 \<or> xs = [] then [] else take n xs # chunks n (drop n xs))"

declare chunks.simps [simp del]

definition padded_word :: "byte list \<Rightarrow> byte list" where
  "padded_word chunk = blit (replicate 32 0) 0 chunk"

fun store_chunks :: "'s storage_api \<Rightarrow> u256 \<Rightarrow> nat \<Rightarrow> byte list list \<Rightarrow> ('s, unit) comp" where
  "store_chunks api data_base i [] = ret ()"
| "store_chunks api data_base i (chunk # cs) =
     cbind (sstore api (data_base + word_of_nat i) (padded_word chunk)) (\<lambda>_. store_chunks api data_base (Suc i) cs)"

definition bytes_store :: "nat \<Rightarrow> 's storage_api \<Rightarrow> (byte list \<Rightarrow> byte list) \<Rightarrow> u256 \<Rightarrow> byte list \<Rightarrow> ('s, unit) comp" where
  "bytes_store um api keccak base_slot d =
     cbind (read_metadata um api base_slot)
       (\<lambda>(old_len, was_long).
          cbind (if was_long \<and> old_len > 31
                 then clear_slots api (data_slot keccak base_slot) [0..<div_ceil old_len 32] else ret ())
          (\<lambda>_. let new_len = length d
               in if new_len < 32
                  then sstore api base_slot ((padded_word d)[31 := word_of_nat (usize_mul um new_len 2)])
                  else cbind (store_chunks api (data_slot keccak base_slot) 0 (chunks 32 d))
                       (\<lambda>_. sstore api base_slot
                          (to_be_bytes (word_of_nat (usize_add um (usize_mul um new_len 2) 1) :: u256)))))"

definition bytes_slice ::
  "nat \<Rightarrow> 's storage_api \<Rightarrow> (byte list \<Rightarrow> byte list) \<Rightarrow> u256 \<Rightarrow> nat \<Rightarrow> nat \<Rightarrow> ('s, byte list) comp" where
  "bytes_slice um api keccak base_slot start stop =
     cbind (bytes_load um api keccak base_slot)
       (\<lambda>d. let actual_end = min stop (length d)
            in ret (if start \<le> actual_end then take (actual_end - start) (drop start d) else []))"

definition bytes_append :: "nat \<Rightarrow> 's storage_api \<Rightarrow> (byte list \<Rightarrow> byte list) \<Rightarrow> u256 \<Rightarrow> byte list \<Rightarrow> ('s, unit) comp" where
  "bytes_append um api keccak base_slot d =
     cbind (bytes_load um api keccak base_slot) (\<lambda>current. bytes_store um api keccak base_slot (current @ d))"

definition bytes_truncate :: "nat \<Rightarrow> 's storage_api \<Rightarrow> (byte list \<Rightarrow> byte list) \<Rightarrow> u256 \<Rightarrow> nat \<Rightarrow> ('s, unit) comp" where
  "bytes_truncate um api keccak base_slot new_len =
     cbind (bytes_load um api keccak base_slot)
       (\<lambda>current. if new_len < length current then bytes_store um api keccak base_slot (take new_len current) else ret ())"

definition bytes_clear :: "nat \<Rightarrow> 's storage_api \<Rightarrow> (byte list \<Rightarrow> byte list) \<Rightarrow> u256 \<Rightarrow> ('s, unit) comp" where
  "bytes_clear um api keccak base_slot =
     cbind (read_metadata um api base_slot)
       (\<lambda>(len, is_long).
          cbind (if is_long \<and> len > 31
                 then clear_slots api (data_slot keccak base_slot) [0..<div_ceil len 32] else ret ())
          (\<lambda>_. sstore api base_slot (replicate 32 0)))"

definition bytes_layout :: layout where
  "bytes_layout = \<lparr>BYTES = 32, SLOTS = 1\<rparr>"

section \<open>Metadata words\<close>

definition metadata :: "nat \<Rightarrow> u256 \<Rightarrow> (nat \<times> bool) option" where
  "metadata um w =
     (if even (unat w)
      then (let n = unat w mod 256 div 2 in if n \<le> 31 then Some (n, False) else None)
      else (let n = unat w div 2 in if 32 \<le> n \<and> n \<le> um then Some (n, True) else None))"

lemma last_byte: "to_be_bytes (w :: u256) ! 31 = word_of_nat (unat w mod 256)"
proof -
  have "le_bytes n x ! 0 = word_of_nat (x mod 256)" if "0 < n" for n x using that by (cases n) simp_all
  moreover have "be_bytes 32 x ! 31 = le_bytes 32 x ! 0" for x
    using rev_nth [of 31 "le_bytes 32 x"] by (simp add: be_bytes_def)
  ultimately show ?thesis by (simp add: to_be_bytes_def)
qed

lemma and_1_zero: "(b AND 1 = (0 :: byte)) = even (unat b)"
proof -
  have "(b AND 1 = 0) = (unat (b AND 1) = 0)" by (simp only: unat_eq_0)
  also have "unat (b AND 1) = unat b mod 2" by (simp only: and_one_eq unat_mod) simp
  finally show ?thesis by (simp add: even_iff_mod_2_eq_zero)
qed

lemma slot_offset_inject:
  "i < 2 ^ 256 \<Longrightarrow> j < 2 ^ 256 \<Longrightarrow> (b + word_of_nat i = b + (word_of_nat j :: u256)) = (i = j)"
  by (simp add: word_of_nat_eq_iff take_bit_nat_eq_self)

section \<open>Chunks\<close>

lemma div_ceil_32: "div_ceil a 32 = (a + 31) div 32"
proof -
  have "(a + 31) div 32 = (32 * (a div 32) + (a mod 32 + 31)) div 32" by simp
  also have "\<dots> = a div 32 + (a mod 32 + 31) div 32" by (rule div_mult_self4) simp
  also have "(a mod 32 + 31) div 32 = (if a mod 32 = 0 then 0 else 1)"
    using mod_less_divisor [of 32 a] by (auto intro!: div_nat_eqI)
  finally show ?thesis by (simp add: div_ceil_def)
qed

lemma div_ceil_mono: "a \<le> b \<Longrightarrow> div_ceil a 32 \<le> div_ceil b 32"
  by (simp add: div_ceil_32 div_le_mono)

lemma less_div_ceil:
  assumes "i < div_ceil n 32"
  shows "32 * i < n"
proof -
  have "Suc i * 32 \<le> n + 31" using assms by (simp add: div_ceil_32 less_eq_div_iff_mult_less_eq [symmetric])
  then show ?thesis by simp
qed

lemma concat_chunks: "0 < n \<Longrightarrow> concat (chunks n xs) = xs"
  by (induction n xs rule: chunks.induct) (subst chunks.simps, simp)

lemma length_chunks: "0 < n \<Longrightarrow> length (chunks n xs) = div_ceil (length xs) n"
proof (induction n xs rule: chunks.induct)
  case (1 n xs)
  show ?case
  proof (cases "xs = []")
    case False
    then have "length (chunks n xs) = Suc (div_ceil (length xs - n) n)" using 1 by (subst chunks.simps) simp
    moreover have "div_ceil (length xs) n = Suc (div_ceil (length xs - n) n)"
    proof (cases "length xs \<le> n")
      case True
      then show ?thesis using False 1(2)
        by (cases "length xs = n") (auto simp: div_ceil_def)
    next
      case f: False
      then show ?thesis using 1(2) by (simp add: div_ceil_def le_div_geq le_mod_geq)
    qed
    ultimately show ?thesis by simp
  qed (subst chunks.simps, simp add: div_ceil_def)
qed

lemma nth_chunks: "i < length (chunks n xs) \<Longrightarrow> chunks n xs ! i = take n (drop (n * i) xs)"
proof (induction n xs arbitrary: i rule: chunks.induct)
  case (1 n xs)
  have ne: "\<not> (n = 0 \<or> xs = [])" using 1(2) by (auto simp: chunks.simps split: if_splits)
  then have c: "chunks n xs = take n xs # chunks n (drop n xs)" by (subst chunks.simps) simp
  show ?case
  proof (cases i)
    case (Suc j)
    then show ?thesis using 1(1) [OF ne, of j] 1(2) by (simp add: c add.commute)
  qed (simp add: c)
qed

lemma padded_word_eq: "length c \<le> 32 \<Longrightarrow> padded_word c = c @ replicate (32 - length c) 0"
  by (simp add: padded_word_def blit_def)

lemma to_be_padded [simp]: "length c \<le> 32 \<Longrightarrow> to_be_bytes (from_be_bytes (padded_word c) :: u256) = padded_word c"
  by (simp add: to_from_be_bytes padded_word_eq)

lemma chunk_words:
  "concat (map (\<lambda>i. take (length d - 32 * i) (to_be_bytes (from_be_bytes (padded_word (chunks 32 d ! i)) :: u256)))
      [0..<length (chunks 32 d)]) = d"
proof -
  have "take (length d - 32 * i) (to_be_bytes (from_be_bytes (padded_word (chunks 32 d ! i)) :: u256)) = chunks 32 d ! i"
    if "i < length (chunks 32 d)" for i
  proof -
    have "length (chunks 32 d ! i) = min 32 (length d - 32 * i)" using that by (simp add: nth_chunks)
    moreover from this have "take (length d - 32 * i) (padded_word (chunks 32 d ! i)) = chunks 32 d ! i"
      by (auto simp: padded_word_eq min_def)
    ultimately show ?thesis by simp
  qed
  then have "map (\<lambda>i. take (length d - 32 * i) (to_be_bytes (from_be_bytes (padded_word (chunks 32 d ! i)) :: u256)))
      [0..<length (chunks 32 d)] = map ((!) (chunks 32 d)) [0..<length (chunks 32 d)]"
    by (intro map_cong) simp_all
  then show ?thesis by (simp add: map_nth concat_chunks)
qed

section \<open>What a stored byte string looks like\<close>

definition short_word :: "byte list \<Rightarrow> byte list" where
  "short_word d = (padded_word d)[31 := word_of_nat (length d * 2)]"

definition bytes_repr :: "(byte list \<Rightarrow> byte list) \<Rightarrow> u256 \<Rightarrow> (u256 \<rightharpoonup> u256) \<Rightarrow> byte list \<Rightarrow> bool" where
  "bytes_repr keccak base m d =
     (if length d < 32 then m base = Some (from_be_bytes (short_word d))
      else m base = Some (word_of_nat (length d * 2 + 1)) \<and>
        (\<forall>i<length (chunks 32 d). m (data_slot keccak base + word_of_nat i) =
           Some (from_be_bytes (padded_word (chunks 32 d ! i)))))"

text \<open>The slots of the long form of \<open>n\<close> bytes.\<close>

definition data_region :: "(byte list \<Rightarrow> byte list) \<Rightarrow> u256 \<Rightarrow> nat \<Rightarrow> u256 set" where
  "data_region keccak base n = (\<lambda>i. data_slot keccak base + word_of_nat i) ` {0..<div_ceil n 32}"

lemma data_region_mono: "a \<notin> data_region keccak base (max n k) \<Longrightarrow> a \<notin> data_region keccak base n \<and> a \<notin> data_region keccak base k"
proof -
  have "div_ceil n 32 \<le> div_ceil (max n k) 32" "div_ceil k 32 \<le> div_ceil (max n k) 32" by (auto intro: div_ceil_mono)
  then have "data_region keccak base n \<subseteq> data_region keccak base (max n k)"
    "data_region keccak base k \<subseteq> data_region keccak base (max n k)"
    unfolding data_region_def by (auto intro!: image_mono)
  then show "a \<notin> data_region keccak base (max n k) \<Longrightarrow> a \<notin> data_region keccak base n \<and> a \<notin> data_region keccak base k"
    by blast
qed

lemma to_be_short_word:
  assumes "length d < 32"
  shows "to_be_bytes (from_be_bytes (short_word d) :: u256) = short_word d"
  using assms by (simp add: to_from_be_bytes short_word_def padded_word_eq)

lemma metadata_short:
  assumes "length d < 32"
  shows "metadata um (from_be_bytes (short_word d)) = Some (length d, False)"
proof -
  let ?w = "from_be_bytes (short_word d) :: u256"
  have "short_word d ! 31 = word_of_nat (length d * 2)" using assms by (simp add: short_word_def padded_word_eq)
  then have "(word_of_nat (unat ?w mod 256) :: byte) = word_of_nat (length d * 2)"
    using last_byte [of ?w] by (simp add: to_be_short_word assms)
  then have "unat (word_of_nat (unat ?w mod 256) :: byte) = unat (word_of_nat (length d * 2) :: byte)" by (rule arg_cong)
  then have m: "unat ?w mod 256 = length d * 2" using assms by (simp add: unat_of_nat del: of_nat_mult)
  have "even (unat ?w mod 256) = even (unat ?w)" by (rule dvd_mod_iff) simp
  with m assms show ?thesis by (simp add: metadata_def)
qed

lemma metadata_long:
  assumes "32 \<le> length d" "length d * 2 + 1 \<le> um" "um < 2 ^ 256"
  shows "metadata um (word_of_nat (length d * 2 + 1)) = Some (length d, True)"
proof -
  have "unat (word_of_nat (length d * 2 + 1) :: u256) = length d * 2 + 1"
    using assms by (simp add: unat_of_nat del: of_nat_Suc of_nat_add of_nat_mult)
  with assms show ?thesis by (simp add: metadata_def del: of_nat_Suc of_nat_add)
qed

lemma metadata_repr:
  assumes "bytes_repr keccak base m d" "length d * 2 + 1 \<le> um" "um < 2 ^ 256"
  obtains w where "m base = Some w" "metadata um w = Some (length d, \<not> length d < 32)"
  using assms metadata_short metadata_long [of d um] by (cases "length d < 32") (auto simp: bytes_repr_def)

context storage_spec
begin

lemma read_metadata_hit:
  assumes "lookup s base = Some w"
  shows "read_metadata um api base s =
     (case metadata um w of Some p \<Rightarrow> (Ok p, touch api base s) | None \<Rightarrow> (Err InputOutputOutOfBounds, touch api base s))"
proof -
  have b: "even (unat w mod 256) = even (unat w)" by (rule dvd_mod_iff) simp
  have d: "unat ((word_of_nat (unat w mod 256) :: byte) div 2) = unat w mod 256 div 2"
    by (simp add: unat_div unat_of_nat)
  have l: "(w div 2 < 32) = (\<not> 32 \<le> unat w div 2)" "unat (w div 2) = unat w div 2"
    by (simp_all add: unat_div word_less_nat_alt not_le)
  show ?thesis
    by (simp add: read_metadata_def sload_hit [OF assms] index_def last_byte and_1_zero unat_of_nat b metadata_def
        Let_def d l not_le)
qed

text \<open>Loops over the slots of the long form.\<close>

lemma clear_slots_spec:
  obtains s' where "clear_slots api b is s = (Ok (), s')" "rest s' = rest s"
    "lookup s' = (\<lambda>a. if a \<in> (\<lambda>i. b + word_of_nat i) ` set is then Some 0 else lookup s a)"
proof -
  have "\<exists>s'. clear_slots api b is s = (Ok (), s') \<and> rest s' = rest s \<and>
      lookup s' = (\<lambda>a. if a \<in> (\<lambda>i. b + word_of_nat i) ` set is then Some 0 else lookup s a)"
  proof (induction "is" arbitrary: s)
    case (Cons i "is")
    have z: "from_be_bytes (replicate 32 0) = (0 :: u256)" by code_simp
    from Cons.IH [of "put_slot api (b + word_of_nat i) 0 s"] obtain s' where
      s': "clear_slots api b is (put_slot api (b + word_of_nat i) 0 s) = (Ok (), s')"
        "rest s' = rest (put_slot api (b + word_of_nat i) 0 s)"
        "lookup s' = (\<lambda>a. if a \<in> (\<lambda>i. b + word_of_nat i) ` set is then Some 0
           else lookup (put_slot api (b + word_of_nat i) 0 s) a)"
      by (elim exE conjE)
    have "lookup s' = (\<lambda>a. if a \<in> (\<lambda>i. b + word_of_nat i) ` set (i # is) then Some 0 else lookup s a)"
      by (rule ext) (simp add: s'(3) write_lookup)
    then show ?case using s'(1,2) by (intro exI [of _ s'] conjI) (simp_all add: sstore_eq z write_rest)
  qed simp
  then show ?thesis by (elim exE conjE) (rule that)
qed

lemma store_chunks_spec:
  assumes "k + length cs \<le> 2 ^ 256"
  shows "\<exists>s'. store_chunks api b k cs s = (Ok (), s') \<and> rest s' = rest s \<and>
     (\<forall>i<length cs. lookup s' (b + word_of_nat (k + i)) = Some (from_be_bytes (padded_word (cs ! i)))) \<and>
     (\<forall>a. a \<notin> (\<lambda>i. b + word_of_nat i) ` {k..<k + length cs} \<longrightarrow> lookup s' a = lookup s a)"
  using assms
proof (induction cs arbitrary: k s)
  case (Cons c cs)
  let ?s = "put_slot api (b + word_of_nat k) (from_be_bytes (padded_word c)) s"
  from Cons.IH [of "Suc k" ?s] Cons.prems obtain s' where
    s': "store_chunks api b (Suc k) cs ?s = (Ok (), s')" "rest s' = rest ?s"
      "\<forall>i<length cs. lookup s' (b + word_of_nat (Suc k + i)) = Some (from_be_bytes (padded_word (cs ! i)))"
      "\<forall>a. a \<notin> (\<lambda>i. b + word_of_nat i) ` {Suc k..<Suc k + length cs} \<longrightarrow> lookup s' a = lookup ?s a"
    by auto
  have k: "b + word_of_nat k \<notin> (\<lambda>i. b + word_of_nat i) ` {Suc k..<Suc k + length cs}"
  proof
    assume "b + word_of_nat k \<in> (\<lambda>i. b + word_of_nat i) ` {Suc k..<Suc k + length cs}"
    then obtain x where "b + word_of_nat k = b + (word_of_nat x :: u256)" "Suc k \<le> x" "x < Suc k + length cs"
      by (elim imageE) simp
    then show False using Cons.prems slot_offset_inject [of k x b] by simp
  qed
  have "lookup s' (b + word_of_nat (k + i)) = Some (from_be_bytes (padded_word ((c # cs) ! i)))"
    if "i < length (c # cs)" for i
    using that s'(3,4) k by (cases i) (auto simp: storage_laws)
  moreover have "lookup s' a = lookup s a" if "a \<notin> (\<lambda>i. b + word_of_nat i) ` {k..<k + length (c # cs)}" for a
  proof -
    have "a \<notin> (\<lambda>i. b + word_of_nat i) ` {Suc k..<Suc k + length cs}" "a \<noteq> b + word_of_nat k" using that by auto
    then show ?thesis using s'(4) by (simp add: storage_laws)
  qed
  ultimately show ?case using s'(1,2) by (intro exI [of _ s']) (simp_all add: sstore_eq storage_laws)
qed simp

lemma load_chunks_spec:
  assumes "\<And>i. i \<in> set is \<Longrightarrow> lookup s (b + word_of_nat i) = Some (W i)"
    and "\<And>i. i \<in> set is \<Longrightarrow> 32 * i < len" "len + 32 \<le> um"
  shows "\<exists>s'. load_chunks um api b len is acc s =
       (Ok (acc @ concat (map (\<lambda>i. take (len - 32 * i) (to_be_bytes (W i))) is)), s') \<and>
     lookup s' = lookup s \<and> rest s' = rest s"
  using assms(1,2)
proof (induction "is" arbitrary: s acc)
  case (Cons i "is")
  let ?s = "touch api (b + word_of_nat i) s"
  from Cons.prems have l: "lookup s (b + word_of_nat i) = Some (W i)" and i: "32 * i < len" by simp_all
  have e: "usize_mul um i 32 = 32 * i" "usize_add um (32 * i) 32 = 32 * i + 32"
    "usize_sub um (min (32 * i + 32) len) (32 * i) = min (32 * i + 32) len - 32 * i"
    using i assms(3) by simp_all
  have t: "slice (to_be_bytes (W i)) 0 (min (32 * i + 32) len - 32 * i) = Ok (take (len - 32 * i) (to_be_bytes (W i)))"
    using i by (auto simp: slice_def min_def)
  have "\<exists>s'. load_chunks um api b len is (acc @ take (len - 32 * i) (to_be_bytes (W i))) ?s =
       (Ok ((acc @ take (len - 32 * i) (to_be_bytes (W i))) @
          concat (map (\<lambda>i. take (len - 32 * i) (to_be_bytes (W i))) is)), s') \<and>
     lookup s' = lookup ?s \<and> rest s' = rest ?s"
    using Cons.prems by (intro Cons.IH) (simp_all add: storage_laws)
  then show ?case by (simp add: sload_hit [OF l] Let_def e t storage_laws)
qed simp

text \<open>Loading and storing.\<close>

lemma bytes_load_repr:
  assumes "bytes_repr keccak base (lookup s) d" "length d * 2 + 1 \<le> um" "um < 2 ^ 256"
  shows "\<exists>s'. bytes_load um api keccak base s = (Ok d, s') \<and> lookup s' = lookup s \<and> rest s' = rest s"
proof -
  obtain w where w: "lookup s base = Some w" "metadata um w = Some (length d, \<not> length d < 32)"
    using metadata_repr [OF assms] .
  note m = read_metadata_hit [OF w(1), of um, unfolded w(2)]
  show ?thesis
  proof (cases "length d < 32")
    case True
    then have "w = from_be_bytes (short_word d)" using assms(1) w(1) by (simp add: bytes_repr_def)
    then have "slice (to_be_bytes w) 0 (length d) = Ok d"
      using True by (simp add: to_be_short_word slice_def) (simp add: short_word_def padded_word_eq)
    then show ?thesis using True m w(1) by (simp add: bytes_load_def sload_hit storage_laws)
  next
    case False
    have "\<exists>s'. load_chunks um api (data_slot keccak base) (length d) [0..<length (chunks 32 d)] [] (touch api base s) =
       (Ok ([] @ concat (map (\<lambda>i. take (length d - 32 * i)
          (to_be_bytes (from_be_bytes (padded_word (chunks 32 d ! i)) :: u256))) [0..<length (chunks 32 d)])), s') \<and>
       lookup s' = lookup (touch api base s) \<and> rest s' = rest (touch api base s)"
    proof (rule load_chunks_spec)
      fix i assume "i \<in> set [0..<length (chunks 32 d)]"
      then have i: "i < length (chunks 32 d)" by simp
      then show "lookup (touch api base s) (data_slot keccak base + word_of_nat i) =
          Some (from_be_bytes (padded_word (chunks 32 d ! i)))"
        using assms(1) False by (simp add: bytes_repr_def storage_laws)
      from i have "i < div_ceil (length d) 32" by (simp add: length_chunks)
      then show "32 * i < length d" by (rule less_div_ceil)
    qed (use False assms(2) in simp)
    then obtain s' where "load_chunks um api (data_slot keccak base) (length d) [0..<length (chunks 32 d)] []
        (touch api base s) = (Ok d, s')" "lookup s' = lookup s" "rest s' = rest s"
      unfolding chunk_words read_lookup read_rest append_Nil by (elim exE conjE)
    then show ?thesis using False m by (simp add: bytes_load_def length_chunks)
  qed
qed

lemma bytes_store_repr:
  assumes "lookup s base = Some w" "metadata um w = Some (n, l)"
    and "length d * 2 + 1 \<le> um" "um < 2 ^ 256" "base \<notin> data_region keccak base (length d)"
  shows "\<exists>s'. bytes_store um api keccak base d s = (Ok (), s') \<and> bytes_repr keccak base (lookup s') d \<and>
     rest s' = rest s \<and>
     (\<forall>a. a \<noteq> base \<longrightarrow> a \<notin> data_region keccak base (max n (length d)) \<longrightarrow>
        lookup s' a = lookup s a)"
proof -
  let ?D = "data_slot keccak base" and ?s = "touch api base s"
  note m = read_metadata_hit [OF assms(1), of um, unfolded assms(2)]
  obtain s1 where s1: "(if l \<and> n > 31 then clear_slots api ?D [0..<div_ceil n 32] else ret ()) ?s = (Ok (), s1)"
    "rest s1 = rest s" "\<And>a. a \<notin> data_region keccak base n \<Longrightarrow> lookup s1 a = lookup s a"
  proof (cases "l \<and> n > 31")
    case True
    obtain s1 where c: "clear_slots api ?D [0..<div_ceil n 32] ?s = (Ok (), s1)" "rest s1 = rest ?s"
      "lookup s1 = (\<lambda>a. if a \<in> (\<lambda>i. ?D + word_of_nat i) ` set [0..<div_ceil n 32] then Some 0 else lookup ?s a)"
      by (rule clear_slots_spec)
    then have "lookup s1 a = lookup s a" if "a \<notin> data_region keccak base n" for a
      using that by (simp add: data_region_def read_lookup)
    with True c(1,2) show ?thesis by (intro that [of s1]) (simp_all add: read_rest)
  next
    case False
    then have "(if l \<and> n > 31 then clear_slots api ?D [0..<div_ceil n 32] else ret ()) = ret ()" by (rule if_not_P)
    then show ?thesis by (intro that [of ?s]) (simp_all add: read_rest read_lookup)
  qed
  have e: "usize_mul um (length d) 2 = length d * 2" "usize_add um (length d * 2) (Suc 0) = Suc (length d * 2)"
    using assms(3) by simp_all
  show ?thesis
  proof (cases "length d < 32")
    case True
    let ?s' = "put_slot api base (from_be_bytes (short_word d)) s1"
    have "bytes_store um api keccak base d s = (Ok (), ?s')"
      using True by (simp add: bytes_store_def m s1(1) Let_def e sstore_eq short_word_def del: of_nat_mult)
    moreover have "lookup ?s' a = lookup s a"
      if "a \<noteq> base" "a \<notin> data_region keccak base (max n (length d))" for a
      by (simp add: write_lookup s1(3) that(1) data_region_mono [OF that(2)])
    ultimately show ?thesis using True s1(2)
      by (intro exI [of _ ?s']) (simp add: bytes_repr_def write_lookup write_rest)
  next
    case False
    have "length (chunks 32 d) \<le> length d" by (auto simp: length_chunks div_ceil_def)
    then have len: "0 + length (chunks 32 d) \<le> 2 ^ 256" using assms(3,4) by linarith
    obtain s2 where
      s2: "store_chunks api ?D 0 (chunks 32 d) s1 = (Ok (), s2)" "rest s2 = rest s1"
        "\<And>i. i < length (chunks 32 d) \<Longrightarrow> lookup s2 (?D + word_of_nat i) = Some (from_be_bytes (padded_word (chunks 32 d ! i)))"
        "\<And>a. a \<notin> data_region keccak base (length d) \<Longrightarrow> lookup s2 a = lookup s1 a"
    proof -
      obtain s2 where c: "store_chunks api ?D 0 (chunks 32 d) s1 = (Ok (), s2)" "rest s2 = rest s1"
        "\<forall>i<length (chunks 32 d). lookup s2 (?D + word_of_nat (0 + i)) = Some (from_be_bytes (padded_word (chunks 32 d ! i)))"
        "\<forall>a. a \<notin> (\<lambda>i. ?D + word_of_nat i) ` {0..<0 + length (chunks 32 d)} \<longrightarrow> lookup s2 a = lookup s1 a"
        using store_chunks_spec [OF len, of ?D s1] by (elim exE conjE)
      then show ?thesis by (intro that [of s2]) (simp_all add: data_region_def length_chunks)
    qed
    let ?s' = "put_slot api base (word_of_nat (length d * 2 + 1)) s2"
    have "bytes_store um api keccak base d s = (Ok (), ?s')"
      using False by (simp add: bytes_store_def m s1(1) s2(1) Let_def e sstore_eq del: of_nat_mult of_nat_add of_nat_Suc)
    moreover have "?D + word_of_nat i \<noteq> base" if "i < length (chunks 32 d)" for i
    proof
      have "?D + word_of_nat i \<in> data_region keccak base (length d)"
        unfolding data_region_def using that by (intro imageI) (simp add: length_chunks)
      moreover assume "?D + word_of_nat i = base"
      ultimately show False using assms(5) by simp
    qed
    then have "bytes_repr keccak base (lookup ?s') d"
      using False s2(3) by (simp add: bytes_repr_def write_lookup del: of_nat_mult of_nat_add of_nat_Suc)
    moreover have "lookup ?s' a = lookup s a"
      if "a \<noteq> base" "a \<notin> data_region keccak base (max n (length d))" for a
      by (simp add: write_lookup s1(3) s2(4) that(1) data_region_mono [OF that(2)])
    ultimately show ?thesis using s1(2) s2(2) by (intro exI [of _ ?s']) (simp add: write_rest)
  qed
qed

lemma bytes_restore_repr:
  assumes "bytes_repr keccak base (lookup s) c" "length c * 2 + 1 \<le> um" "length d * 2 + 1 \<le> um" "um < 2 ^ 256"
    and "base \<notin> data_region keccak base (length d)"
  shows "\<exists>s'. bytes_store um api keccak base d s = (Ok (), s') \<and> bytes_repr keccak base (lookup s') d \<and> rest s' = rest s"
proof -
  obtain w where "lookup s base = Some w" "metadata um w = Some (length c, \<not> length c < 32)"
    using metadata_repr [OF assms(1,2,4)] .
  from bytes_store_repr [OF this assms(3-5)] show ?thesis by (elim exE conjE) (intro exI conjI)
qed

lemma bytes_append_repr:
  assumes "bytes_repr keccak base (lookup s) d" "(length d + length e) * 2 + 1 \<le> um" "um < 2 ^ 256"
    and "base \<notin> data_region keccak base (length d + length e)"
  shows "\<exists>s'. bytes_append um api keccak base e s = (Ok (), s') \<and> bytes_repr keccak base (lookup s') (d @ e) \<and> rest s' = rest s"
proof -
  have n: "length d * 2 + 1 \<le> um" using assms(2) by simp
  from bytes_load_repr [OF assms(1) n assms(3)] obtain s1 where
    s1: "bytes_load um api keccak base s = (Ok d, s1)" "lookup s1 = lookup s" "rest s1 = rest s" by (elim exE conjE)
  have "\<exists>s'. bytes_store um api keccak base (d @ e) s1 = (Ok (), s') \<and> bytes_repr keccak base (lookup s') (d @ e) \<and> rest s' = rest s1"
    using assms n s1(2) by (intro bytes_restore_repr [of keccak base s1 d]) simp_all
  with s1 show ?thesis by (simp add: bytes_append_def)
qed

lemma bytes_truncate_repr:
  assumes "bytes_repr keccak base (lookup s) d" "length d * 2 + 1 \<le> um" "um < 2 ^ 256"
    and "base \<notin> data_region keccak base (length d)"
  shows "\<exists>s'. bytes_truncate um api keccak base k s = (Ok (), s') \<and> bytes_repr keccak base (lookup s') (take k d) \<and> rest s' = rest s"
proof -
  from bytes_load_repr [OF assms(1-3)] obtain s1 where
    s1: "bytes_load um api keccak base s = (Ok d, s1)" "lookup s1 = lookup s" "rest s1 = rest s" by (elim exE conjE)
  show ?thesis
  proof (cases "k < length d")
    case True
    then have "base \<notin> data_region keccak base k"
      using data_region_mono [of base keccak base k "length d"] assms(4) by (simp add: max_def)
    with True have "\<exists>s'. bytes_store um api keccak base (take k d) s1 = (Ok (), s') \<and>
        bytes_repr keccak base (lookup s') (take k d) \<and> rest s' = rest s1"
      using assms s1(2) by (intro bytes_restore_repr [of keccak base s1 d]) simp_all
    with True s1 show ?thesis by (simp add: bytes_truncate_def)
  next
    case False
    with s1 assms(1) show ?thesis by (simp add: bytes_truncate_def)
  qed
qed

lemma bytes_clear_repr:
  assumes "bytes_repr keccak base (lookup s) d" "length d * 2 + 1 \<le> um" "um < 2 ^ 256"
  shows "\<exists>s'. bytes_clear um api keccak base s = (Ok (), s') \<and> bytes_repr keccak base (lookup s') [] \<and> rest s' = rest s"
proof -
  obtain w where w: "lookup s base = Some w" "metadata um w = Some (length d, \<not> length d < 32)"
    using metadata_repr [OF assms] .
  have z: "from_be_bytes (short_word []) = (0 :: u256)" "from_be_bytes (replicate 32 0) = (0 :: u256)" by code_simp+
  obtain s1 where c: "clear_slots api (data_slot keccak base) [0..<div_ceil (length d) 32] (touch api base s) = (Ok (), s1)"
    "rest s1 = rest (touch api base s)" by (rule clear_slots_spec)
  let ?s1 = "if length d < 32 then touch api base s else s1"
  have "bytes_clear um api keccak base s = (Ok (), put_slot api base 0 ?s1)"
    using read_metadata_hit [OF w(1), of um, unfolded w(2)] c(1) by (simp add: bytes_clear_def sstore_eq z)
  then show ?thesis using c(2) by (simp add: bytes_repr_def write_lookup write_rest read_rest z)
qed

end

text \<open>
  C23. Byte strings in storage behave as byte lists: from any slots that hold \<open>d\<close>, loading gives
  \<open>d\<close>, appending \<open>e\<close>, truncating to \<open>k\<close> bytes and clearing succeed and leave slots that hold
  \<open>d @ e\<close>, \<open>take k d\<close> and the empty string, across the border between the short and the long form.
  Only the base slot and the hashed data slots must not meet, and lengths stay below half of \<open>usize\<close>.
\<close>

theorem storage_bytes_refines:
  assumes "bytes_repr keccak base (sys_lookup s) d" "(length d + length e) * 2 + 1 \<le> um" "um < 2 ^ 256"
    and "base \<notin> data_region keccak base (length d + length e)"
  shows "(\<exists>s'. bytes_load um sys_api keccak base s = (Ok d, s')) \<and>
    (\<exists>s'. bytes_append um sys_api keccak base e s = (Ok (), s') \<and> bytes_repr keccak base (sys_lookup s') (d @ e)) \<and>
    (\<exists>s'. bytes_truncate um sys_api keccak base k s = (Ok (), s') \<and> bytes_repr keccak base (sys_lookup s') (take k d)) \<and>
    (\<exists>s'. bytes_clear um sys_api keccak base s = (Ok (), s') \<and> bytes_repr keccak base (sys_lookup s') [])"
proof -
  have n: "length d * 2 + 1 \<le> um" using assms(2) by simp
  have r: "base \<notin> data_region keccak base (length d)"
    using data_region_mono [of base keccak base "length d" "length d + length e"] assms(4) by (simp add: max_def)
  show ?thesis
    using sys.bytes_load_repr [OF assms(1) n assms(3)] sys.bytes_append_repr [OF assms]
      sys.bytes_truncate_repr [OF assms(1) n assms(3) r, of k] sys.bytes_clear_repr [OF assms(1) n assms(3)]
    by blast
qed

theorem storage_bytes_refines_witness:
  "\<exists>s'. bytes_append (2 ^ 32 - 1) sys_api (\<lambda>_. to_be_bytes (100 :: u256)) 0 (replicate 40 7) (example_frame [0 \<mapsto> 0]) = (Ok (), s') \<and>
     bytes_repr (\<lambda>_. to_be_bytes (100 :: u256)) 0 (sys_lookup s') (replicate 40 7)"
proof -
  have "from_be_bytes (short_word []) = (0 :: u256)" by code_simp
  then have "bytes_repr (\<lambda>_. to_be_bytes (100 :: u256)) 0 (sys_lookup (example_frame [0 \<mapsto> 0])) []"
    by (simp add: bytes_repr_def)
  moreover have "[0 ..< div_ceil 40 32] = [0, 1]" by (simp add: div_ceil_def upt_rec)
  then have "0 \<notin> data_region (\<lambda>_. to_be_bytes (100 :: u256)) 0 (length ([] :: byte list) + length (replicate 40 (7 :: byte)))"
    unfolding data_region_def set_upt [symmetric] by (simp add: data_slot_def)
  ultimately show ?thesis
    using storage_bytes_refines [of "\<lambda>_. to_be_bytes (100 :: u256)" 0 "example_frame [0 \<mapsto> 0]" "[]" "replicate 40 7" "2 ^ 32 - 1" 0]
    by simp
qed

end
