(* ===== verification/Storage_Layout.thy ===== *)
theory Storage_Layout
  imports Storage_Collections
begin

text \<open>
  The slot layout that \<open>derive(Storage)\<close> and \<open>derive(Contract)\<close> generate
  (\<open>crates/sdk-derive/derive-core/src/storage.rs\<close>): fields are placed one after the other, small ones
  packed from the right end of a slot. The generated code is modelled as a function of the list of
  fields.
\<close>

section \<open>The generated constructor\<close>

text \<open>A field has the sizes of its type and possibly a \<open>#[slot(expr)]\<close> attribute.\<close>

record storage_field =
  field_layout :: layout
  slot_attr :: "u256 option"

definition explicit_location :: "layout \<Rightarrow> u256 \<Rightarrow> location" where
  "explicit_location L explicit_slot =
     (let bytes = (word_of_nat (BYTES L) :: u8) in (explicit_slot, if SLOTS L = 0 then 32 - bytes else 0))"

definition auto_location :: "layout \<Rightarrow> u256 \<Rightarrow> u8 \<Rightarrow> location \<times> u256 \<times> u8" where
  "auto_location L current_slot current_offset =
     (let bytes = (word_of_nat (BYTES L) :: u8); slots = SLOTS L
      in if slots = 0
         then (if current_offset + bytes \<le> 32
               then ((current_slot, 32 - current_offset - bytes), current_slot, current_offset + bytes)
               else (let current_slot = current_slot + 1 in ((current_slot, 32 - bytes), current_slot, bytes)))
         else (let (current_slot, current_offset) =
                 (if current_offset > 0 then (current_slot + 1, 0) else (current_slot, current_offset))
               in ((current_slot, 0), current_slot + word_of_nat slots, current_offset)))"

fun constructor_locations :: "storage_field list \<Rightarrow> u256 \<Rightarrow> u8 \<Rightarrow> location list" where
  "constructor_locations [] current_slot current_offset = []"
| "constructor_locations (f # fs) current_slot current_offset =
     (case slot_attr f of
        Some e \<Rightarrow> explicit_location (field_layout f) e # constructor_locations fs current_slot current_offset
      | None \<Rightarrow> (case auto_location (field_layout f) current_slot current_offset of
                  (loc, cs, co) \<Rightarrow> loc # constructor_locations fs cs co))"

section \<open>The generated constants\<close>

fun slots_loop :: "storage_field list \<Rightarrow> nat \<Rightarrow> nat \<Rightarrow> nat \<times> nat" where
  "slots_loop [] current_slot current_offset = (current_slot, current_offset)"
| "slots_loop (f # fs) current_slot current_offset =
     (if slot_attr f \<noteq> None then slots_loop fs current_slot current_offset
      else (let bytes = BYTES (field_layout f); slots = SLOTS (field_layout f)
            in if slots = 0
               then (if current_offset + bytes \<le> 32 then slots_loop fs current_slot (current_offset + bytes)
                     else slots_loop fs (current_slot + 1) bytes)
               else slots_loop fs ((if current_offset > 0 then current_slot + 1 else current_slot) + slots) 0))"

definition calculate_slots :: "storage_field list \<Rightarrow> nat" where
  "calculate_slots fs = (case slots_loop fs 0 0 of (q, r) \<Rightarrow> if r > 0 then q + 1 else q)"

definition calculate_bytes :: "storage_field list \<Rightarrow> nat" where
  "calculate_bytes fs = (\<Sum>f\<leftarrow>fs. if slot_attr f \<noteq> None then 0 else BYTES (field_layout f))"

section \<open>What a field occupies\<close>

definition field_bytes :: "layout \<Rightarrow> location \<Rightarrow> (u256 \<times> nat) set" where
  "field_bytes L loc =
     (if SLOTS L = 0 then {(fst loc, i) | i. unat (snd loc) \<le> i \<and> i < unat (snd loc) + BYTES L}
      else {(fst loc + word_of_nat k, i) | k i. k < SLOTS L \<and> i < 32})"

definition wf_layout :: "layout \<Rightarrow> bool" where
  "wf_layout L = (SLOTS L = 0 \<longrightarrow> BYTES L \<le> 32)"

text \<open>
  Bytes are counted from the right end of each slot, slot after slot; \<open>span base a b\<close> are the
  bytes counted from \<open>a\<close> up to \<open>b\<close>.
\<close>

definition span :: "u256 \<Rightarrow> nat \<Rightarrow> nat \<Rightarrow> (u256 \<times> nat) set" where
  "span base a b = {(base + word_of_nat q, i) | q i. i < 32 \<and> a \<le> 32 * q + (31 - i) \<and> 32 * q + (31 - i) < b}"

lemma spanI:
  "w = base + word_of_nat q \<Longrightarrow> i < 32 \<Longrightarrow> a \<le> 32 * q + (31 - i) \<Longrightarrow> 32 * q + (31 - i) < b \<Longrightarrow> (w, i) \<in> span base a b"
  unfolding span_def by blast

lemma span_mono: "a' \<le> a \<Longrightarrow> b \<le> b' \<Longrightarrow> span base a b \<subseteq> span base a' b'"
  unfolding span_def by force

lemma span_disjoint:
  assumes "b \<le> a'" "b' \<le> 32 * 2 ^ 256"
  shows "span base a b \<inter> span base a' b' = {}"
proof -
  have False if q: "i < 32" "32 * q + (31 - i) < b" "a' \<le> 32 * q' + (31 - i)" "32 * q' + (31 - i) < b'"
    "base + word_of_nat q = base + (word_of_nat q' :: u256)" for q q' i
  proof -
    have "q < 2 ^ 256" "q' < 2 ^ 256" using q assms by linarith+
    then have "q = q'" using q(5) by (simp add: word_of_nat_eq_iff take_bit_nat_eq_self)
    with q assms show False by linarith
  qed
  then show ?thesis unfolding span_def by blast
qed

lemma u8_small: "n \<le> 64 \<Longrightarrow> unat (word_of_nat n :: u8) = n"
  by (simp add: unat_of_nat)

text \<open>One field: it lies between the counter before and after, and the counter is the one of the constants.\<close>

definition counter_step :: "layout \<Rightarrow> nat \<Rightarrow> nat \<Rightarrow> nat \<times> nat" where
  "counter_step L q r =
     (if SLOTS L = 0 then (if r + BYTES L \<le> 32 then (q, r + BYTES L) else (q + 1, BYTES L))
      else ((if r > 0 then q + 1 else q) + SLOTS L, 0))"

lemma auto_location_span:
  assumes "wf_layout L" "r \<le> 32" "counter_step L q r = (q', r')"
  shows "\<exists>loc. auto_location L (base + word_of_nat q) (word_of_nat r) = (loc, base + word_of_nat q', word_of_nat r') \<and>
     field_bytes L loc \<subseteq> span base (32 * q + r) (32 * q' + r') \<and> 32 * q + r \<le> 32 * q' + r' \<and> r' \<le> 32"
proof (cases "SLOTS L = 0")
  case True
  then have B: "BYTES L \<le> 32" using assms(1) by (simp add: wf_layout_def)
  have sum: "(word_of_nat r + word_of_nat (BYTES L) :: u8) = word_of_nat (r + BYTES L)" by simp
  have le: "(word_of_nat r + word_of_nat (BYTES L) \<le> (32 :: u8)) = (r + BYTES L \<le> 32)"
    unfolding sum word_le_nat_alt using B assms(2) by (simp add: u8_small del: of_nat_add)
  show ?thesis
  proof (cases "r + BYTES L \<le> 32")
    case fits: True
    have off: "unat (32 - word_of_nat r - word_of_nat (BYTES L) :: u8) = 32 - (r + BYTES L)"
      unfolding diff_diff_add sum using fits
      by (subst unat_sub) (simp_all add: word_le_nat_alt u8_small del: of_nat_add)
    have "field_bytes L (base + word_of_nat q, 32 - word_of_nat r - word_of_nat (BYTES L)) \<subseteq> span base (32 * q + r) (32 * q + (r + BYTES L))"
      using True fits by (auto simp: field_bytes_def off intro!: spanI [of _ _ q])
    moreover have "q' = q" "r' = r + BYTES L" using assms(3) True fits by (simp_all add: counter_step_def)
    ultimately show ?thesis using True fits le by (simp add: auto_location_def Let_def)
  next
    case over: False
    have off: "unat (32 - word_of_nat (BYTES L) :: u8) = 32 - BYTES L"
      using B by (subst unat_sub) (simp_all add: word_le_nat_alt u8_small)
    have "field_bytes L (base + word_of_nat (Suc q), 32 - word_of_nat (BYTES L)) \<subseteq> span base (32 * q + r) (32 * Suc q + BYTES L)"
      using True B assms(2) by (auto simp: field_bytes_def off simp del: of_nat_Suc intro!: spanI [of _ _ "Suc q"])
    moreover have "q' = Suc q" "r' = BYTES L" using assms(3) True over by (simp_all add: counter_step_def)
    ultimately show ?thesis using True over le B assms(2) by (simp add: auto_location_def Let_def ac_simps)
  qed
next
  case False
  define q1 where "q1 = (if r > 0 then q + 1 else q)"
  have z: "((0 :: u8) < word_of_nat r) = (0 < r)" using assms(2) by (simp add: word_less_nat_alt u8_small)
  have "field_bytes L (base + word_of_nat q1, 0) \<subseteq> span base (32 * q + r) (32 * (q1 + SLOTS L))"
  proof (clarsimp simp: field_bytes_def False)
    fix k and i :: nat assume "k < SLOTS L" "i < 32"
    then show "(base + word_of_nat q1 + word_of_nat k, i) \<in> span base (32 * q + r) (32 * q1 + 32 * SLOTS L)"
      using assms(2) by (intro spanI [of _ _ "q1 + k"]) (auto simp: q1_def)
  qed
  moreover have "q' = q1 + SLOTS L" "r' = 0" using assms(3) False by (simp_all add: counter_step_def q1_def)
  ultimately show ?thesis using False assms(2) z by (auto simp: auto_location_def Let_def q1_def ac_simps)
qed

section \<open>All fields\<close>

definition auto_fields :: "storage_field list \<Rightarrow> bool" where
  "auto_fields fs = (\<forall>f\<in>set fs. slot_attr f = None \<and> wf_layout (field_layout f))"

lemma slots_loop_Cons:
  "slot_attr f = None \<Longrightarrow> slots_loop (f # fs) q r = (case counter_step (field_layout f) q r of (q', r') \<Rightarrow> slots_loop fs q' r')"
  by (simp add: counter_step_def Let_def)

lemma layout_spans:
  fixes base :: u256
  assumes "auto_fields fs" "r \<le> 32" "slots_loop fs q r = (Q, R)" "32 * Q + R \<le> 32 * 2 ^ 256"
  defines "locs \<equiv> constructor_locations fs (base + word_of_nat q) (word_of_nat r)"
  shows "length locs = length fs \<and> R \<le> 32 \<and> 32 * q + r \<le> 32 * Q + R \<and>
    (\<forall>i<length fs. field_bytes (field_layout (fs ! i)) (locs ! i) \<subseteq> span base (32 * q + r) (32 * Q + R)) \<and>
    (\<forall>i j. i < j \<and> j < length fs \<longrightarrow>
       field_bytes (field_layout (fs ! i)) (locs ! i) \<inter> field_bytes (field_layout (fs ! j)) (locs ! j) = {})"
  unfolding locs_def using assms(1-4)
proof (induction fs arbitrary: q r)
  case (Cons f fs)
  obtain q' r' where c: "counter_step (field_layout f) q r = (q', r')" by (cases "counter_step (field_layout f) q r")
  from Cons.prems(1) have f: "slot_attr f = None" "wf_layout (field_layout f)" and fs: "auto_fields fs"
    by (simp_all add: auto_fields_def)
  from auto_location_span [OF f(2) Cons.prems(2) c, of base] obtain loc where
    loc: "auto_location (field_layout f) (base + word_of_nat q) (word_of_nat r) = (loc, base + word_of_nat q', word_of_nat r')"
      "field_bytes (field_layout f) loc \<subseteq> span base (32 * q + r) (32 * q' + r')" "32 * q + r \<le> 32 * q' + r'" "r' \<le> 32"
    by (elim exE conjE)
  have loop: "slots_loop fs q' r' = (Q, R)" using Cons.prems(3) f(1) c by (simp only: slots_loop_Cons prod.case)
  define ls where "ls = constructor_locations fs (base + word_of_nat q') (word_of_nat r')"
  note IH = Cons.IH [OF fs loc(4) loop Cons.prems(4), folded ls_def]
  have ls: "constructor_locations (f # fs) (base + word_of_nat q) (word_of_nat r) = loc # ls"
    using f(1) loc(1) by (simp add: ls_def)
  have le: "32 * q' + r' \<le> 32 * Q + R" using IH by simp
  have first: "field_bytes (field_layout f) loc \<subseteq> span base (32 * q + r) (32 * Q + R)"
    using loc(2) span_mono [OF order_refl le] by (rule subset_trans)
  have later: "field_bytes (field_layout (fs ! k)) (ls ! k) \<subseteq> span base (32 * q' + r') (32 * Q + R)" if "k < length fs" for k
    using IH that by simp
  have apart: "field_bytes (field_layout f) loc \<inter> field_bytes (field_layout (fs ! k)) (ls ! k) = {}" if "k < length fs" for k
    using loc(2) later [OF that] span_disjoint [OF order_refl Cons.prems(4), of base "32 * q + r" "32 * q' + r'"] by blast
  have "field_bytes (field_layout ((f # fs) ! i)) ((loc # ls) ! i) \<subseteq> span base (32 * q + r) (32 * Q + R)"
    if "i < length (f # fs)" for i
    using that first later span_mono [OF loc(3) order_refl, of base "32 * Q + R"] by (cases i) (auto dest: subsetD)
  moreover have "field_bytes (field_layout ((f # fs) ! i)) ((loc # ls) ! i) \<inter>
      field_bytes (field_layout ((f # fs) ! j)) ((loc # ls) ! j) = {}" if "i < j" "j < length (f # fs)" for i j
  proof -
    obtain k where j: "j = Suc k" using \<open>i < j\<close> by (cases j) simp_all
    show ?thesis using that apart IH by (cases i) (simp_all add: j)
  qed
  ultimately show ?case unfolding ls using IH loc(3) by simp
qed simp

lemma slots_loop_offset: "auto_fields fs \<Longrightarrow> slots_loop fs 0 0 = (Q, R) \<Longrightarrow> R \<le> 32"
proof -
  have "R \<le> 32" if "auto_fields fs" "r \<le> 32" "slots_loop fs q r = (Q, R)" for q r
    using that
  proof (induction fs arbitrary: q r)
    case (Cons f fs)
    obtain q' r' where c: "counter_step (field_layout f) q r = (q', r')" by (cases "counter_step (field_layout f) q r")
    moreover from this Cons.prems have "r' \<le> 32"
      by (auto simp: counter_step_def auto_fields_def wf_layout_def split: if_splits)
    moreover have "slots_loop (f # fs) q r = slots_loop fs q' r'"
      using Cons.prems(1) c by (simp add: auto_fields_def slots_loop_Cons del: slots_loop.simps)
    ultimately show ?case using Cons.IH Cons.prems by (simp add: auto_fields_def)
  qed simp
  from this [of 0 0] show "auto_fields fs \<Longrightarrow> slots_loop fs 0 0 = (Q, R) \<Longrightarrow> R \<le> 32" by simp
qed



end
