(* ===== verification/Codec_Encoder.thy ===== *)
theory Codec_Encoder
  imports Prelude
begin

text \<open>
  The core of \<open>crates/codec\<close>: the error types (\<open>error.rs\<close>), the \<open>Encoder\<close> trait with its modes,
  and the alignment, header and bounds-checking helpers every encoder uses (\<open>encoder.rs\<close>).
  The trait becomes the record \<open>encoder\<close> of its constants and methods, its type parameters
  \<open>B\<close> and \<open>ALIGN\<close> (with the target's \<open>usize::MAX\<close>) the record \<open>abi\<close>. The locale \<open>static_codec\<close> is
  the contract a fixed-size encoder keeps: it writes exactly one aligned window, and decoding
  any buffer that carries this window gives the value back.
\<close>

section \<open>Errors (error.rs)\<close>

datatype encoding_error =
    EncodingBufferTooSmall nat nat string
  | InvalidInputData string

datatype decoding_error =
    InvalidSelector "byte list" "byte list"
  | InvalidData string
  | BufferTooSmall nat nat string
  | BufferOverflow string
  | UnexpectedEof
  | DecodingOverflow
  | ParseError string

datatype codec_error =
    CodecOverflow
  | Encoding encoding_error
  | Decoding decoding_error

type_synonym 'a decoded = "(codec_error, 'a) outcome"

section \<open>Modes\<close>

datatype byteorder = BE | LE

record abi =
  order :: byteorder
  ALIGN :: nat
  usize_max :: nat

abbreviation isize_max :: "abi \<Rightarrow> nat" where
  "isize_max m \<equiv> usize_max m div 2"

abbreviation uadd :: "abi \<Rightarrow> nat \<Rightarrow> nat \<Rightarrow> nat" where
  "uadd m \<equiv> usize_add (usize_max m)"

abbreviation usub :: "abi \<Rightarrow> nat \<Rightarrow> nat \<Rightarrow> nat" where
  "usub m \<equiv> usize_sub (usize_max m)"

abbreviation umul :: "abi \<Rightarrow> nat \<Rightarrow> nat \<Rightarrow> nat" where
  "umul m \<equiv> usize_mul (usize_max m)"

text \<open>
  The modes of \<open>define_encoder_mode!\<close>, on the 32-bit target the contracts are compiled to.
\<close>

definition SolidityABI :: abi where
  "SolidityABI = \<lparr>order = BE, ALIGN = 32, usize_max = 2 ^ 32 - 1\<rparr>"

definition CompactABI :: abi where
  "CompactABI = \<lparr>order = LE, ALIGN = 4, usize_max = 2 ^ 32 - 1\<rparr>"

definition SolidityPackedABI :: abi where
  "SolidityPackedABI = \<lparr>order = BE, ALIGN = 1, usize_max = 2 ^ 32 - 1\<rparr>"

record 'a encoder =
  HEADER_SIZE :: nat
  IS_DYNAMIC :: bool
  encode :: "'a \<Rightarrow> buf \<Rightarrow> nat \<Rightarrow> buf decoded"
  decode :: "buf \<Rightarrow> nat \<Rightarrow> 'a decoded"
  partial_decode :: "buf \<Rightarrow> nat \<Rightarrow> (nat \<times> nat) decoded"

section \<open>Byte order and alignment\<close>

definition read_uint :: "byteorder \<Rightarrow> byte list \<Rightarrow> nat" where
  "read_uint bo bs = (case bo of BE \<Rightarrow> be_nat bs | LE \<Rightarrow> le_nat bs)"

definition write_uint :: "byteorder \<Rightarrow> nat \<Rightarrow> nat \<Rightarrow> byte list" where
  "write_uint bo n x = (case bo of BE \<Rightarrow> be_bytes n x | LE \<Rightarrow> le_bytes n x)"

definition is_big_endian :: "abi \<Rightarrow> bool" where
  "is_big_endian m = (read_uint (order m) [0x12, 0x34] = 0x1234)"

definition align_up :: "nat \<Rightarrow> nat \<Rightarrow> nat \<Rightarrow> nat" where
  "align_up um al off =
     nat (int (usize_sub um (usize_add um off al) 1) AND NOT (int al - 1))"

abbreviation al_up :: "abi \<Rightarrow> nat \<Rightarrow> nat" where
  "al_up m \<equiv> align_up (usize_max m) (ALIGN m)"

definition size_hint :: "abi \<Rightarrow> 'a encoder \<Rightarrow> nat" where
  "size_hint m E = al_up m (HEADER_SIZE E)"

definition is_dynamic :: "'a encoder \<Rightarrow> bool" where
  "is_dynamic E = IS_DYNAMIC E"

section \<open>Reading and writing headers\<close>

definition ensure_buf_size :: "buf \<Rightarrow> nat \<Rightarrow> buf" where
  "ensure_buf_size b n = (if length b < n then resize b n else b)"

definition write_u32_aligned :: "abi \<Rightarrow> buf \<Rightarrow> nat \<Rightarrow> u32 \<Rightarrow> buf decoded" where
  "write_u32_aligned m b off value =
     (let aligned_value_size = al_up m 4;
          b' = ensure_buf_size b (uadd m off aligned_value_size)
      in if is_big_endian m
         then (let start = usub m (uadd m off aligned_value_size) 4
               in write_slice b' start (start + 4) (write_uint (order m) 4 (unat value)))
         else write_slice b' off (uadd m off 4) (write_uint (order m) 4 (unat value)))"

definition read_u32_aligned :: "abi \<Rightarrow> buf \<Rightarrow> nat \<Rightarrow> u32 decoded" where
  "read_u32_aligned m b off =
     (let aligned_value_size = al_up m 4
      in oc_bind (ok_or (checked_add_usize (usize_max m) off aligned_value_size)
            (Decoding (BufferOverflow
              ''Overflow occurred when calculating end offset while reading aligned u32'')))
         (\<lambda>end_offset.
            if length b < end_offset
            then Err (Decoding (BufferTooSmall end_offset (length b)
                   ''Buffer underflow occurred while reading aligned u32''))
            else oc_bind
              (if is_big_endian m then slice b (usub m end_offset 4) end_offset
               else slice b off (uadd m off 4))
              (\<lambda>bs. Ok (word_of_nat (read_uint (order m) bs)))))"

definition checked_decode_slice :: "abi \<Rightarrow> buf \<Rightarrow> nat \<Rightarrow> nat \<Rightarrow> string \<Rightarrow> buf decoded" where
  "checked_decode_slice m b off len msg =
     oc_bind (ok_or (checked_add_usize (usize_max m) off len) (Decoding DecodingOverflow))
       (\<lambda>e. if off \<le> e \<and> e \<le> length b then Ok (take (e - off) (drop off b))
            else Err (Decoding (BufferTooSmall e (length b) msg)))"

definition checked_decode_slice_from :: "buf \<Rightarrow> nat \<Rightarrow> string \<Rightarrow> buf decoded" where
  "checked_decode_slice_from b off msg =
     (if off \<le> length b then Ok (drop off b)
      else Err (Decoding (BufferTooSmall off (length b) msg)))"

definition validate_collection_body :: "abi \<Rightarrow> nat \<Rightarrow> nat \<Rightarrow> nat \<Rightarrow> unit decoded" where
  "validate_collection_body m len element_header_size body_len =
     (if len \<noteq> 0 \<and> element_header_size = 0
      then Err (Decoding (InvalidData
             ''non-empty collections of zero-sized elements are not supported''))
      else oc_bind (ok_or (checked_mul_usize (usize_max m) len element_header_size)
                          (Decoding DecodingOverflow))
        (\<lambda>required.
           if body_len < required
           then Err (Decoding (BufferTooSmall required body_len
                  ''collection length exceeds encoded body''))
           else Ok ()))"

definition get_aligned_indices :: "abi \<Rightarrow> nat \<Rightarrow> nat \<Rightarrow> nat \<times> nat" where
  "get_aligned_indices m off value_size =
     (let aligned_offset = al_up m off;
          word_size = al_up m (max (ALIGN m) value_size);
          write_offset = (if is_big_endian m
                          then usub m (uadd m aligned_offset word_size) value_size
                          else aligned_offset)
      in (write_offset, uadd m write_offset value_size))"

text \<open>
  The mutable slice this returns is given by the grown buffer and the bounds of the slice in it;
  the caller writes through \<open>write_slice\<close>.
\<close>

definition get_aligned_slice :: "abi \<Rightarrow> buf \<Rightarrow> nat \<Rightarrow> nat \<Rightarrow> buf \<times> nat \<times> nat" where
  "get_aligned_slice m b off value_size =
     (let aligned_offset = al_up m off;
          word_size = al_up m (max (ALIGN m) value_size);
          b' = ensure_buf_size b (uadd m aligned_offset word_size);
          write_offset = (if is_big_endian m
                          then usub m (uadd m aligned_offset word_size) value_size
                          else aligned_offset)
      in (b', write_offset, uadd m write_offset value_size))"

section \<open>Facts about the helpers\<close>

lemma length_ensure [simp]: "length (ensure_buf_size b n) = max (length b) n"
  by (simp add: ensure_buf_size_def)

lemma ensure_id [simp]: "n \<le> length b \<Longrightarrow> ensure_buf_size b n = b"
  by (simp add: ensure_buf_size_def)

lemma ensure_conv: "ensure_buf_size b n = b @ replicate (n - length b) 0"
  by (simp add: ensure_buf_size_def resize_def)

lemma ensure_ensure [buf_simps]:
  "ensure_buf_size (ensure_buf_size b n) m = ensure_buf_size b (max n m)"
proof -
  have "replicate (n - length b) 0 @ replicate (m - (length b + (n - length b))) 0
      = replicate (max n m - length b) (0 :: byte)"
    by (subst replicate_add [symmetric]) (rule arg_cong2 [where f = replicate], auto)
  then show ?thesis by (simp add: ensure_conv)
qed

lemma ensure_blit [buf_simps]:
  "i + length w \<le> length b \<Longrightarrow> ensure_buf_size (blit b i w) n = blit (ensure_buf_size b n) i w"
  by (simp add: ensure_conv blit_def)

lemma drop_ensure [buf_simps]:
  "i \<le> length b \<Longrightarrow> drop i (ensure_buf_size b n) = ensure_buf_size (drop i b) (n - i)"
  by (simp add: ensure_conv)

lemma take_ensure [buf_simps]:
  "i \<le> length b \<Longrightarrow> take i (ensure_buf_size b n) = take i b"
  by (simp add: ensure_conv)

lemma is_big_endian_iff [simp]: "is_big_endian m = (order m = BE)"
  by (cases "order m") (simp_all add: is_big_endian_def read_uint_def be_nat_def)

lemma length_write_uint [simp]: "length (write_uint bo n x) = n"
  by (cases bo) (simp_all add: write_uint_def)

lemma read_write_uint [byte_simps]: "read_uint bo (write_uint bo n x) = x mod 256 ^ n"
  by (cases bo) (simp_all add: read_uint_def write_uint_def byte_simps)

lemma read_write_word:
  "8 * n = LENGTH('a::len) \<Longrightarrow> word_of_nat (read_uint bo (write_uint bo n (unat w))) = (w :: 'a word)"
proof -
  assume n: "8 * n = LENGTH('a)"
  have "unat w < 2 ^ (8 * n)" unfolding n by (rule unsigned_less)
  then have "unat w < 256 ^ n" by (simp add: power_mult)
  then show ?thesis by (simp add: byte_simps)
qed

lemma and_not_mask_int: "(x :: int) AND NOT (2 ^ k - 1) = x div 2 ^ k * 2 ^ k"
proof -
  have "x AND NOT (mask k) = push_bit k (drop_bit k x)"
    by (rule bit_eqI) (auto simp: bit_simps)
  then show ?thesis by (simp add: push_bit_eq_mult drop_bit_eq_div mask_eq_exp_minus_1)
qed

text \<open>
  The well-formed modes: a power of two up to 32 as alignment, and at least 32-bit pointers.
\<close>

definition wf_abi :: "abi \<Rightarrow> bool" where
  "wf_abi m = (ALIGN m \<in> {1, 2, 4, 8, 16, 32} \<and> 2 ^ 32 - 1 \<le> usize_max m)"

lemma align_up_eq:
  assumes "al = 2 ^ k" and "off + al \<le> um"
  shows "align_up um al off = (off + al - 1) div al * al"
proof -
  have al: "0 < al" using assms(1) by simp
  have "usize_sub um (off + al) 1 = off + al - 1" using al by (intro usize_sub_exact) simp
  then have "align_up um al off = nat (int (off + al - 1) AND NOT (2 ^ k - 1))"
    using assms by (simp add: align_up_def)
  also have "\<dots> = nat (int ((off + al - 1) div al * al))"
    using assms(1) by (simp add: and_not_mask_int zdiv_int)
  finally show ?thesis by (simp only: nat_int)
qed

lemma wf_abiD:
  assumes "wf_abi m"
  shows "\<exists>k. ALIGN m = 2 ^ k" "0 < ALIGN m" "ALIGN m \<le> 32" "4294967295 \<le> usize_max m"
proof -
  have "ALIGN m = 2 ^ 0 \<or> ALIGN m = 2 ^ 1 \<or> ALIGN m = 2 ^ 2 \<or> ALIGN m = 2 ^ 3 \<or>
        ALIGN m = 2 ^ 4 \<or> ALIGN m = 2 ^ 5"
    using assms by (auto simp: wf_abi_def)
  then show "\<exists>k. ALIGN m = 2 ^ k" by blast
qed (use assms in \<open>auto simp: wf_abi_def\<close>)

lemma al_up_eq:
  assumes "wf_abi m" and "off \<le> isize_max m"
  shows "al_up m off = (off + ALIGN m - 1) div ALIGN m * ALIGN m"
proof -
  from wf_abiD(1) [OF assms(1)] obtain k where "ALIGN m = 2 ^ k" ..
  moreover have "off + ALIGN m \<le> usize_max m"
    using assms(2) wf_abiD(3,4) [OF assms(1)] by linarith
  ultimately show ?thesis by (rule align_up_eq)
qed

lemma ceil_mult_bounds:
  assumes "0 < (a :: nat)"
  shows "x \<le> (x + a - 1) div a * a" "(x + a - 1) div a * a < x + a"
proof -
  have "(x + a - 1) div a * a + (x + a - 1) mod a = x + a - 1" by (rule div_mult_mod_eq)
  moreover have "(x + a - 1) mod a < a" using assms by simp
  ultimately show "x \<le> (x + a - 1) div a * a" "(x + a - 1) div a * a < x + a"
    using assms by linarith+
qed

lemma ceil_mult_id:
  assumes "0 < (a :: nat)" and "a dvd x"
  shows "(x + a - 1) div a * a = x"
proof -
  have "x \<le> (x + a - 1) div a * a" "(x + a - 1) div a * a < x + a"
    using assms(1) by (rule ceil_mult_bounds)+
  moreover have "a dvd ((x + a - 1) div a * a)" by simp
  ultimately show ?thesis using assms
    by (metis add_diff_cancel_left' dvd_diff_nat le_add_diff_inverse less_diff_conv2 nat_dvd_not_less
        not_gr_zero plus_nat.add_0 add.commute)
qed

lemma al_up_aligned [simp]:
  "wf_abi m \<Longrightarrow> ALIGN m dvd off \<Longrightarrow> off \<le> isize_max m \<Longrightarrow> al_up m off = off"
  using ceil_mult_id [of "ALIGN m" off] by (simp add: al_up_eq wf_abiD)

lemma al_up_bounds:
  assumes "wf_abi m" and "off \<le> isize_max m"
  shows "off \<le> al_up m off" "al_up m off < off + ALIGN m" "ALIGN m dvd al_up m off"
  using ceil_mult_bounds [OF wf_abiD(2) [OF assms(1)], of off]
  by (simp_all add: al_up_eq [OF assms])

lemma wf_modes [simp]: "wf_abi SolidityABI" "wf_abi CompactABI" "wf_abi SolidityPackedABI"
  by (simp_all add: wf_abi_def SolidityABI_def CompactABI_def SolidityPackedABI_def)

lemma mode_simps [simp]:
  "order SolidityABI = BE" "ALIGN SolidityABI = 32" "usize_max SolidityABI = 2 ^ 32 - 1"
  "order CompactABI = LE" "ALIGN CompactABI = 4" "usize_max CompactABI = 2 ^ 32 - 1"
  "order SolidityPackedABI = BE" "ALIGN SolidityPackedABI = 1" "usize_max SolidityPackedABI = 2 ^ 32 - 1"
  by (simp_all add: SolidityABI_def CompactABI_def SolidityPackedABI_def)


subsection \<open>Aligned 32-bit headers\<close>

definition u32_pos :: "abi \<Rightarrow> nat \<Rightarrow> nat" where
  "u32_pos m off = (if order m = BE then off + al_up m 4 - 4 else off)"

lemma al_up_4:
  assumes "wf_abi m"
  shows "4 \<le> al_up m 4" "al_up m 4 \<le> 35"
  using al_up_bounds [OF assms, of 4] wf_abiD(3,4) [OF assms] by linarith+

lemma u32_pos_in:
  assumes "wf_abi m"
  shows "off \<le> u32_pos m off" "u32_pos m off + 4 \<le> off + al_up m 4"
  using al_up_4 [OF assms] by (auto simp: u32_pos_def)

lemma write_u32_aligned_Ok:
  assumes "wf_abi m" and "off + al_up m 4 \<le> isize_max m"
  shows "write_u32_aligned m b off v =
           Ok (blit (ensure_buf_size b (off + al_up m 4)) (u32_pos m off) (write_uint (order m) 4 (unat v)))"
proof -
  have le: "off + al_up m 4 \<le> usize_max m" "off + 4 \<le> usize_max m"
    using assms(2) al_up_4 [OF assms(1)] by linarith+
  show ?thesis
    using le al_up_4 [OF assms(1)]
    by (auto simp: write_u32_aligned_def Let_def write_slice_def u32_pos_def)
qed

lemma read_u32_aligned_Ok:
  assumes "wf_abi m" and "off + al_up m 4 \<le> length b" and "length b \<le> isize_max m"
  shows "read_u32_aligned m b off =
           Ok (word_of_nat (read_uint (order m) (window b (u32_pos m off) 4)))"
proof -
  have le: "off + al_up m 4 \<le> usize_max m" "off + 4 \<le> usize_max m" "off + 4 \<le> length b"
    using assms(2,3) al_up_4 [OF assms(1)] by linarith+
  show ?thesis
    using le al_up_4 [OF assms(1)] assms(2)
    by (simp add: read_u32_aligned_def checked_add_usize_def Let_def slice_Ok u32_pos_def)
qed

lemma read_u32_aligned_short:
  assumes "length b < off + al_up m 4"
  shows "\<exists>e. read_u32_aligned m b off = Err e"
  using assms by (auto simp: read_u32_aligned_def checked_add_usize_def Let_def)

lemma read_u32_aligned_no_panic:
  assumes "wf_abi m" and "length b \<le> isize_max m"
  shows "read_u32_aligned m b off \<noteq> Panic"
proof (cases "off + al_up m 4 \<le> length b")
  case True
  then show ?thesis using assms by (simp add: read_u32_aligned_Ok)
next
  case False
  then obtain e where "read_u32_aligned m b off = Err e"
    using read_u32_aligned_short [of b off m] by auto
  then show ?thesis by simp
qed

lemma read_write_u32:
  "word_of_nat (read_uint bo (write_uint bo 4 (unat (v :: u32)))) = v"
  by (rule read_write_word) simp

lemma checked_decode_slice_Ok:
  "off + n \<le> length b \<Longrightarrow> length b \<le> isize_max m \<Longrightarrow>
     checked_decode_slice m b off n msg = Ok (window b off n)"
  by (simp add: checked_decode_slice_def checked_add_usize_def window_def)

lemma checked_decode_slice_short:
  "length b < off + n \<Longrightarrow> \<exists>e. checked_decode_slice m b off n msg = Err e"
  by (auto simp: checked_decode_slice_def checked_add_usize_def)

lemma checked_decode_slice_no_panic [simp]: "checked_decode_slice m b off n msg \<noteq> Panic"
  by (auto simp: checked_decode_slice_def checked_add_usize_def)

lemma checked_decode_slice_from_no_panic [simp]: "checked_decode_slice_from b off msg \<noteq> Panic"
  by (simp add: checked_decode_slice_from_def)

lemma validate_collection_body_no_panic [simp]: "validate_collection_body m n h l \<noteq> Panic"
  by (auto simp: validate_collection_body_def checked_mul_usize_def)

lemma validate_collection_body_Ok:
  "(validate_collection_body m n h l = Ok u) =
     ((n = 0 \<or> 0 < h) \<and> n * h \<le> usize_max m \<and> n * h \<le> l)"
  by (auto simp: validate_collection_body_def checked_mul_usize_def)

section \<open>The contract of fixed-size encoders\<close>

locale static_codec =
  fixes m :: abi
    and E :: "'a encoder"
    and valid :: "'a \<Rightarrow> bool"
  assumes wf_mode: "wf_abi m"
    and static: "\<not> IS_DYNAMIC E"
    and header_bound: "HEADER_SIZE E \<le> isize_max m"
    and encode_window:
      "valid v \<Longrightarrow> ALIGN m dvd off \<Longrightarrow> off + al_up m (HEADER_SIZE E) \<le> isize_max m \<Longrightarrow>
       length b \<le> isize_max m \<Longrightarrow>
       \<exists>w. length w = al_up m (HEADER_SIZE E) \<and>
           encode E v b off = Ok (blit (ensure_buf_size b (off + al_up m (HEADER_SIZE E))) off w) \<and>
           (\<forall>b' i. ALIGN m dvd i \<longrightarrow> i + al_up m (HEADER_SIZE E) \<le> length b' \<longrightarrow>
              length b' \<le> isize_max m \<longrightarrow> window b' i (al_up m (HEADER_SIZE E)) = w \<longrightarrow>
              decode E b' i = Ok v)"
    and decode_no_panic:
      "length b \<le> isize_max m \<Longrightarrow> off \<le> isize_max m \<Longrightarrow> decode E b off \<noteq> Panic"
    and encode_ensure:
      "valid v \<Longrightarrow> ALIGN m dvd off \<Longrightarrow> off + al_up m (HEADER_SIZE E) \<le> isize_max m \<Longrightarrow>
       length b \<le> isize_max m \<Longrightarrow>
       encode E v b off = encode E v (ensure_buf_size b (off + al_up m (HEADER_SIZE E))) off"
begin

abbreviation ws :: nat where
  "ws \<equiv> al_up m (HEADER_SIZE E)"

lemma round_trip:
  assumes "valid v" "ALIGN m dvd off" "off + ws \<le> isize_max m" "length b \<le> isize_max m"
  shows "\<exists>b'. encode E v b off = Ok b' \<and> decode E b' off = Ok v"
proof -
  from encode_window [OF assms] obtain w where w: "length w = ws"
    "encode E v b off = Ok (blit (ensure_buf_size b (off + ws)) off w)"
    and dec: "\<And>b' i. ALIGN m dvd i \<Longrightarrow> i + ws \<le> length b' \<Longrightarrow> length b' \<le> isize_max m \<Longrightarrow>
      window b' i ws = w \<Longrightarrow> decode E b' i = Ok v" by blast
  have "decode E (blit (ensure_buf_size b (off + ws)) off w) off = Ok v"
    using assms w(1) by (intro dec) (auto simp: buf_simps)
  with w(2) show ?thesis by blast
qed

lemma encode_length:
  assumes "valid v" "ALIGN m dvd off" "off + ws \<le> isize_max m" "length b \<le> isize_max m"
    and "encode E v b off = Ok b'"
  shows "length b' = max (length b) (off + ws)"
  using encode_window [OF assms(1-4)] assms(5) by auto

lemma encode_frame:
  assumes "valid v" "ALIGN m dvd off" "off + ws \<le> isize_max m" "length b \<le> isize_max m"
    and "encode E v b off = Ok b'" and "j + n \<le> length b" and "j + n \<le> off \<or> off + ws \<le> j"
  shows "window b' j n = window b j n"
proof -
  from encode_window [OF assms(1-4)] assms(5) obtain w
    where "length w = ws" "b' = blit (ensure_buf_size b (off + ws)) off w" by auto
  then have "window b' j n = window (ensure_buf_size b (off + ws)) j n"
    using assms(7) by (simp add: window_blit_disjoint)
  also have "\<dots> = window b j n"
    using assms(6) by (simp add: window_def ensure_conv)
  finally show ?thesis .
qed

lemma stores:
  assumes "valid v" "ALIGN m dvd off" "off + ws \<le> isize_max m" "length b \<le> isize_max m"
  shows "\<exists>b'. encode E v b off = Ok b' \<and> decode E b' off = Ok v \<and> length b' = max (length b) (off + ws) \<and>
     (\<forall>j n. j + n \<le> length b \<longrightarrow> j + n \<le> off \<or> off + ws \<le> j \<longrightarrow> window b' j n = window b j n)"
  using round_trip [OF assms] encode_length [OF assms] encode_frame [OF assms] by blast

end

end
