(* ===== verification/Codec_Primitive.thy ===== *)
theory Codec_Primitive
  imports Codec_Encoder
begin

text \<open>
  The fixed-size encoders: integers, booleans, options and arrays (\<open>primitive.rs\<close>), and the
  Ethereum types \<open>FixedBytes\<close>, \<open>Address\<close>, \<open>Uint\<close> and \<open>Signed\<close> (\<open>evm.rs\<close>). Each is shown to keep
  the contract \<open>static_codec\<close>; the exceptions (\<open>Option\<close>, whose reserved header is shorter than
  what it writes) are stated as such.
\<close>

section \<open>primitive.rs\<close>

definition phantom_encoder :: "unit encoder" where
  "phantom_encoder = \<lparr>HEADER_SIZE = 0, IS_DYNAMIC = False,
     encode = (\<lambda>_ b _. Ok b),
     decode = (\<lambda>_ _. Ok ()),
     partial_decode = (\<lambda>_ _. Ok (0, 0))\<rparr>"

definition u8_encode :: "abi \<Rightarrow> u8 \<Rightarrow> buf \<Rightarrow> nat \<Rightarrow> buf decoded" where
  "u8_encode m v b off =
     (let word_size = al_up m 1;
          b1 = (if length b < uadd m off word_size then resize b (uadd m off word_size) else b);
          (b2, s, e) = get_aligned_slice m b1 off 1
      in write_slice b2 s e [v])"

definition u8_decode :: "abi \<Rightarrow> buf \<Rightarrow> nat \<Rightarrow> u8 decoded" where
  "u8_decode m b off =
     (let word_size = al_up m 1
      in oc_bind (checked_decode_slice m b off word_size ''buf too small to read aligned u8'')
         (\<lambda>chunk. if is_big_endian m then index chunk (usub m word_size 1) else index chunk 0))"

definition u8_encoder :: "abi \<Rightarrow> u8 encoder" where
  "u8_encoder m = \<lparr>HEADER_SIZE = 1, IS_DYNAMIC = False,
     encode = u8_encode m, decode = u8_decode m,
     partial_decode = (\<lambda>_ _. Ok (0, al_up m 1))\<rparr>"

definition bool_encoder :: "abi \<Rightarrow> bool encoder" where
  "bool_encoder m = \<lparr>HEADER_SIZE = 1, IS_DYNAMIC = False,
     encode = (\<lambda>v b off. u8_encode m (if v then 1 else 0) b off),
     decode = (\<lambda>b off. oc_bind (u8_decode m b off) (\<lambda>value. Ok (value \<noteq> 0))),
     partial_decode = (\<lambda>_ off. Ok (off, 1))\<rparr>"

text \<open>A \<open>for i in s..e { buf[i] = v }\<close> loop: a panic when it leaves the buffer.\<close>

definition fill_range :: "buf \<Rightarrow> nat \<Rightarrow> nat \<Rightarrow> byte \<Rightarrow> buf decoded" where
  "fill_range b s e v =
     (if s < e then (if e \<le> length b then Ok (blit b s (replicate (e - s) v)) else Panic) else Ok b)"

text \<open>
  \<open>impl_int!\<close> for \<open>u16 .. u64\<close> (\<open>is_signed = False\<close>) and \<open>i16 .. i64\<close> (\<open>is_signed = True\<close>): the type is the
  word of the same width, the comparison \<open>*self > 0\<close> is the unsigned or the signed one.
\<close>

definition int_positive :: "bool \<Rightarrow> 'a::len word \<Rightarrow> bool" where
  "int_positive is_signed v = (if is_signed then 0 < sint v else 0 < v)"

definition int_encode :: "abi \<Rightarrow> bool \<Rightarrow> 'a::len word \<Rightarrow> buf \<Rightarrow> nat \<Rightarrow> buf decoded" where
  "int_encode m is_signed v b off =
     (let size = LENGTH('a) div 8;
          word_size = al_up m size;
          b1 = (if length b < uadd m off word_size then resize b (uadd m off word_size) else b);
          (start, stop) = get_aligned_indices m off size;
          bytes = write_uint (order m) size (unat v);
          fill_val = (if int_positive is_signed v then 0x00 else 0xFF)
      in oc_bind (write_slice b1 start stop bytes) (\<lambda>b2.
         oc_bind (fill_range b2 off start fill_val) (\<lambda>b3.
         oc_bind (write_slice b3 start stop bytes) (\<lambda>b4.
         fill_range b4 stop (uadd m off word_size) fill_val))))"

definition int_decode :: "abi \<Rightarrow> buf \<Rightarrow> nat \<Rightarrow> 'a::len word decoded" where
  "int_decode m b off =
     (let size = LENGTH('a) div 8;
          word_size = al_up m size
      in oc_bind (checked_decode_slice m b off word_size ''buf too small to decode value'')
         (\<lambda>chunk. oc_bind
            (if is_big_endian m then slice_from chunk (usub m word_size size)
             else slice chunk 0 size)
            (\<lambda>bs. Ok (word_of_nat (read_uint (order m) bs)))))"

definition int_encoder :: "abi \<Rightarrow> bool \<Rightarrow> 'a::len word encoder" where
  "int_encoder m is_signed = \<lparr>HEADER_SIZE = LENGTH('a) div 8, IS_DYNAMIC = False,
     encode = int_encode m is_signed, decode = int_decode m,
     partial_decode = (\<lambda>_ off. Ok (off, LENGTH('a) div 8))\<rparr>"

definition option_encode :: "abi \<Rightarrow> 'a encoder \<Rightarrow> 'a \<Rightarrow> 'a option \<Rightarrow> buf \<Rightarrow> nat \<Rightarrow> buf decoded" where
  "option_encode m T dflt v b off =
     (let aligned_header = al_up m (1 + HEADER_SIZE T);
          b1 = (if length b < uadd m off aligned_header then resize b (uadd m off aligned_header) else b);
          (b2, s, e) = get_aligned_slice m b1 off 1
      in oc_bind (write_slice b2 s e [if v \<noteq> None then 1 else 0]) (\<lambda>b3.
         let inner_offset = uadd m off (ALIGN m)
         in case v of
              Some inner_value \<Rightarrow> encode T inner_value b3 inner_offset
            | None \<Rightarrow> encode T dflt b3 inner_offset))"

definition option_decode :: "abi \<Rightarrow> 'a encoder \<Rightarrow> buf \<Rightarrow> nat \<Rightarrow> 'a option decoded" where
  "option_decode m T b off =
     (let aligned_header = al_up m (1 + HEADER_SIZE T)
      in if length b < uadd m off aligned_header
         then Err (Decoding (BufferTooSmall (uadd m off aligned_header) (length b) ''buf too small''))
         else oc_bind (slice_from b off) (\<lambda>chunk.
              oc_bind (if is_big_endian m then index chunk (usub m aligned_header 1) else index chunk 0)
              (\<lambda>option_flag.
              oc_bind (slice_from b (uadd m off (ALIGN m))) (\<lambda>chunk'.
              if option_flag \<noteq> 0
              then oc_bind (decode T chunk' 0) (\<lambda>inner_value. Ok (Some inner_value))
              else Ok None))))"

definition option_partial_decode :: "abi \<Rightarrow> 'a encoder \<Rightarrow> buf \<Rightarrow> nat \<Rightarrow> (nat \<times> nat) decoded" where
  "option_partial_decode m T b off =
     (let aligned_header = al_up m (1 + HEADER_SIZE T)
      in if length b < uadd m off aligned_header
         then Err (Decoding (BufferTooSmall (uadd m off aligned_header) (length b) ''buf too small''))
         else oc_bind (slice_from b off) (\<lambda>chunk.
              oc_bind (if is_big_endian m then index chunk (usub m (ALIGN m) 1) else index chunk 0)
              (\<lambda>option_flag.
              oc_bind (slice_from b (uadd m off (ALIGN m))) (\<lambda>chunk'.
              if option_flag \<noteq> 0
              then oc_bind (partial_decode T chunk' 0)
                     (\<lambda>(_, inner_size). Ok (off, uadd m aligned_header inner_size))
              else Ok (off, uadd m aligned_header (al_up m (HEADER_SIZE T)))))))"

definition option_encoder :: "abi \<Rightarrow> 'a encoder \<Rightarrow> 'a \<Rightarrow> 'a option encoder" where
  "option_encoder m T dflt = \<lparr>HEADER_SIZE = 1 + HEADER_SIZE T, IS_DYNAMIC = False,
     encode = option_encode m T dflt, decode = option_decode m T,
     partial_decode = option_partial_decode m T\<rparr>"

text \<open>\<open>[T; N]\<close>: the elements are encoded one after the other, each in its own aligned window.\<close>

fun array_encode_items :: "abi \<Rightarrow> 'a encoder \<Rightarrow> nat \<Rightarrow> 'a list \<Rightarrow> nat \<Rightarrow> buf \<Rightarrow> nat \<Rightarrow> buf decoded" where
  "array_encode_items m T item_size [] i b off = Ok b"
| "array_encode_items m T item_size (x # xs) i b off =
     oc_bind (encode T x b (uadd m off (umul m item_size i)))
       (\<lambda>b'. array_encode_items m T item_size xs (Suc i) b' off)"

definition array_encode :: "abi \<Rightarrow> 'a encoder \<Rightarrow> nat \<Rightarrow> 'a list \<Rightarrow> buf \<Rightarrow> nat \<Rightarrow> buf decoded" where
  "array_encode m T n xs b off =
     (let item_size = al_up m (HEADER_SIZE T);
          total = uadd m off (umul m item_size n);
          b1 = (if length b < total then resize b total else b)
      in array_encode_items m T item_size xs 0 b1 off)"

fun array_decode_items :: "abi \<Rightarrow> 'a encoder \<Rightarrow> nat \<Rightarrow> nat \<Rightarrow> nat \<Rightarrow> buf \<Rightarrow> nat \<Rightarrow> 'a list decoded" where
  "array_decode_items m T item_size 0 i b off = Ok []"
| "array_decode_items m T item_size (Suc n) i b off =
     oc_bind (decode T b (uadd m off (umul m item_size i)))
       (\<lambda>x. oc_bind (array_decode_items m T item_size n (Suc i) b off) (\<lambda>xs. Ok (x # xs)))"

definition array_decode :: "abi \<Rightarrow> 'a encoder \<Rightarrow> nat \<Rightarrow> buf \<Rightarrow> nat \<Rightarrow> 'a list decoded" where
  "array_decode m T n b off =
     (let item_size = al_up m (HEADER_SIZE T);
          total_size = uadd m off (umul m item_size n)
      in if length b < total_size
         then Err (Decoding (BufferTooSmall total_size (length b) ''buf too small to decode [T; N]''))
         else array_decode_items m T item_size n 0 b off)"

definition array_encoder :: "abi \<Rightarrow> 'a encoder \<Rightarrow> nat \<Rightarrow> 'a list encoder" where
  "array_encoder m T n = \<lparr>HEADER_SIZE = umul m (al_up m (HEADER_SIZE T)) n, IS_DYNAMIC = False,
     encode = array_encode m T n, decode = array_decode m T n,
     partial_decode = (\<lambda>_ off. Ok (off, umul m (al_up m (HEADER_SIZE T)) n))\<rparr>"

section \<open>Fixed-size Ethereum types (evm.rs)\<close>

text \<open>The Solidity encoders align to 32 bytes whatever the mode's own \<open>ALIGN\<close> is.\<close>

definition sol32 :: "abi \<Rightarrow> abi" where
  "sol32 m = m\<lparr>ALIGN := 32\<rparr>"

definition fixed_bytes_encode :: "abi \<Rightarrow> nat \<Rightarrow> byte list \<Rightarrow> buf \<Rightarrow> nat \<Rightarrow> buf decoded" where
  "fixed_bytes_encode m n v b off =
     (let (b1, s, e) = get_aligned_slice m b off n in write_slice b1 s e v)"

definition fixed_bytes_decode :: "abi \<Rightarrow> nat \<Rightarrow> string \<Rightarrow> buf \<Rightarrow> nat \<Rightarrow> byte list decoded" where
  "fixed_bytes_decode m n msg b off =
     (if length b < uadd m off n
      then Err (Decoding (BufferTooSmall (uadd m off n) (length b) msg))
      else slice b off (uadd m off n))"

definition fixed_bytes_encoder :: "abi \<Rightarrow> nat \<Rightarrow> byte list encoder" where
  "fixed_bytes_encoder m n = \<lparr>HEADER_SIZE = n, IS_DYNAMIC = False,
     encode = fixed_bytes_encode m n,
     decode = fixed_bytes_decode m n ''Buffer too small to decode FixedBytes'',
     partial_decode = (\<lambda>_ off. Ok (al_up m off, n))\<rparr>"

definition fixed_bytes_sol_encode :: "abi \<Rightarrow> nat \<Rightarrow> byte list \<Rightarrow> buf \<Rightarrow> nat \<Rightarrow> buf decoded" where
  "fixed_bytes_sol_encode m n v b off =
     (let (b1, s, e) = get_aligned_slice (sol32 m) b off 32
      in oc_bind (oc_assert (n \<le> 32)) (\<lambda>_.
         oc_bind (write_slice b1 s (s + n) v) (\<lambda>b2.
         write_slice b2 (s + n) e (replicate (32 - n) 0))))"

definition fixed_bytes_sol_decode :: "abi \<Rightarrow> nat \<Rightarrow> buf \<Rightarrow> nat \<Rightarrow> byte list decoded" where
  "fixed_bytes_sol_decode m n b off0 =
     (let off = align_up (usize_max m) 32 off0
      in if length b < uadd m off 32
         then Err (Decoding (BufferTooSmall (uadd m off 32) (length b)
                ''Buffer too small to decode FixedBytes''))
         else slice b off (uadd m off n))"

definition fixed_bytes_sol_encoder :: "abi \<Rightarrow> nat \<Rightarrow> byte list encoder" where
  "fixed_bytes_sol_encoder m n = \<lparr>HEADER_SIZE = 32, IS_DYNAMIC = False,
     encode = fixed_bytes_sol_encode m n, decode = fixed_bytes_sol_decode m n,
     partial_decode = (\<lambda>_ off. Ok (off, 32))\<rparr>"

text \<open>\<open>impl_evm_fixed!(Address)\<close>.\<close>

definition address_encoder :: "abi \<Rightarrow> address encoder" where
  "address_encoder m = \<lparr>HEADER_SIZE = 20, IS_DYNAMIC = False,
     encode = (\<lambda>v. fixed_bytes_encode m 20 (to_be_bytes v)),
     decode = (\<lambda>b off. oc_bind (fixed_bytes_decode m 20 ''Buffer too small to decode fixed bytes'' b off)
                (\<lambda>bs. Ok (from_be_bytes bs))),
     partial_decode = (\<lambda>_ off. Ok (off, 20))\<rparr>"

definition address_sol_encode :: "abi \<Rightarrow> address \<Rightarrow> buf \<Rightarrow> nat \<Rightarrow> buf decoded" where
  "address_sol_encode m v b off =
     (let (b1, s, e) = get_aligned_slice (sol32 m) b off 32
      in oc_bind (write_slice b1 s (s + 12) (replicate 12 0)) (\<lambda>b2.
         write_slice b2 (s + 12) e (to_be_bytes v)))"

definition address_sol_decode :: "abi \<Rightarrow> buf \<Rightarrow> nat \<Rightarrow> address decoded" where
  "address_sol_decode m b off =
     (if length b < uadd m off 32
      then Err (Decoding (BufferTooSmall (uadd m off 32) (length b)
             ''Buffer too small to decode fixed bytes''))
      else oc_bind (slice b (usub m (uadd m off 32) 20) (uadd m off 32))
             (\<lambda>bs. Ok (from_be_bytes bs)))"

definition address_sol_encoder :: "abi \<Rightarrow> address encoder" where
  "address_sol_encoder m = \<lparr>HEADER_SIZE = 32, IS_DYNAMIC = False,
     encode = address_sol_encode m, decode = address_sol_decode m,
     partial_decode = (\<lambda>_ off. Ok (off, 32))\<rparr>"

text \<open>
  \<open>Uint<BITS, LIMBS>\<close> is the word of \<open>BITS\<close> bits, and \<open>Signed<BITS, LIMBS>\<close> the same word read as
  two's complement: its encoder works on \<open>into_raw\<close>, the same bits.
\<close>

definition uint_bytes :: "'a::len itself \<Rightarrow> nat" where
  "uint_bytes _ = (LENGTH('a) + 7) div 8"

definition uint_encode :: "abi \<Rightarrow> 'a::len word \<Rightarrow> buf \<Rightarrow> nat \<Rightarrow> buf decoded" where
  "uint_encode m v b off =
     (let n = uint_bytes TYPE('a);
          word_size = al_up m n;
          (b1, s, e) = get_aligned_slice m b off word_size;
          bytes = write_uint (order m) n (unat v)
      in write_slice b1 s (s + n) bytes)"

definition uint_decode :: "abi \<Rightarrow> string \<Rightarrow> buf \<Rightarrow> nat \<Rightarrow> 'a::len word decoded" where
  "uint_decode m msg b off =
     (let n = uint_bytes TYPE('a);
          word_size = al_up m n
      in if length b < uadd m off word_size
         then Err (Decoding (BufferTooSmall (uadd m off word_size) (length b) msg))
         else oc_bind (slice b off (uadd m off word_size)) (\<lambda>chunk.
              oc_bind (slice chunk 0 n) (\<lambda>value_slice.
              Ok (word_of_nat (read_uint (order m) value_slice)))))"

definition uint_encoder :: "abi \<Rightarrow> 'a::len word encoder" where
  "uint_encoder m = \<lparr>HEADER_SIZE = uint_bytes TYPE('a), IS_DYNAMIC = False,
     encode = uint_encode m, decode = uint_decode m ''buf too small to read Uint'',
     partial_decode = (\<lambda>_ off. Ok (off, al_up m (uint_bytes TYPE('a))))\<rparr>"

definition uint_sol_encode :: "abi \<Rightarrow> byte \<Rightarrow> 'a::len word \<Rightarrow> buf \<Rightarrow> nat \<Rightarrow> buf decoded" where
  "uint_sol_encode m pad v b off =
     (let n = uint_bytes TYPE('a);
          (b1, s, e) = get_aligned_slice (sol32 m) b off 32;
          bytes = write_uint (order m) n (unat v)
      in oc_bind (oc_assert (n \<le> 32)) (\<lambda>_.
         oc_bind (write_slice b1 (s + (32 - n)) e bytes) (\<lambda>b2.
         write_slice b2 s (s + (32 - n)) (replicate (32 - n) pad))))"

definition uint_sol_decode :: "abi \<Rightarrow> string \<Rightarrow> buf \<Rightarrow> nat \<Rightarrow> 'a::len word decoded" where
  "uint_sol_decode m msg b off =
     (let n = uint_bytes TYPE('a)
      in if length b < uadd m off 32
         then Err (Decoding (BufferTooSmall (uadd m off 32) (length b) msg))
         else oc_bind (slice b off (uadd m off 32)) (\<lambda>chunk.
              oc_bind (oc_assert (n \<le> 32)) (\<lambda>_.
              oc_bind (slice_from chunk (32 - n)) (\<lambda>value_slice.
              Ok (word_of_nat (read_uint (order m) value_slice))))))"

definition uint_sol_encoder :: "abi \<Rightarrow> 'a::len word encoder" where
  "uint_sol_encoder m = \<lparr>HEADER_SIZE = 32, IS_DYNAMIC = False,
     encode = uint_sol_encode m 0, decode = uint_sol_decode m ''buf too small to read Uint'',
     partial_decode = (\<lambda>_ off. Ok (off, 32))\<rparr>"

definition signed_encoder :: "abi \<Rightarrow> 'a::len word encoder" where
  "signed_encoder m = \<lparr>HEADER_SIZE = uint_bytes TYPE('a), IS_DYNAMIC = False,
     encode = uint_encode m, decode = uint_decode m ''buf too small to read Signed'',
     partial_decode = (\<lambda>_ off. Ok (off, al_up m (uint_bytes TYPE('a))))\<rparr>"

definition signed_sol_encoder :: "abi \<Rightarrow> 'a::len word encoder" where
  "signed_sol_encoder m = \<lparr>HEADER_SIZE = 32, IS_DYNAMIC = False,
     encode = (\<lambda>v. uint_sol_encode m (if sint v < 0 then 0xFF else 0) v),
     decode = uint_sol_decode m ''buf too small to read Signed'',
     partial_decode = (\<lambda>_ off. Ok (off, 32))\<rparr>"


section \<open>Windows written by aligned slices\<close>

definition pad_pos :: "abi \<Rightarrow> nat \<Rightarrow> nat" where
  "pad_pos m sz = (if order m = BE then al_up m sz - sz else 0)"

lemma al_up_max:
  assumes "wf_abi m" "0 < sz" "sz \<le> isize_max m"
  shows "al_up m (max (ALIGN m) sz) = al_up m sz"
proof (cases "ALIGN m \<le> sz")
  case False
  have "al_up m (ALIGN m) = ALIGN m"
    using wf_abiD(3,4) [OF assms(1)] assms(1) by (intro al_up_aligned) auto
  moreover have "al_up m sz = ALIGN m"
  proof -
    have "0 < al_up m sz" "al_up m sz < 2 * ALIGN m" "ALIGN m dvd al_up m sz"
      using al_up_bounds [OF assms(1,3)] False assms(2) by auto
    then obtain k where "al_up m sz = ALIGN m * k" "0 < k" "k < 2" by (auto elim!: dvdE)
    then show ?thesis by (cases k) auto
  qed
  ultimately show ?thesis using False by (simp add: max_def)
qed (simp add: max_def)

lemma pad_pos_bound:
  assumes "wf_abi m" "sz \<le> isize_max m"
  shows "pad_pos m sz + sz \<le> al_up m sz"
  using al_up_bounds(1) [OF assms] by (auto simp: pad_pos_def)

lemma get_aligned_eq:
  assumes "wf_abi m" "ALIGN m dvd off" "0 < sz" "off + al_up m sz \<le> isize_max m" "sz \<le> isize_max m"
  shows "get_aligned_slice m b off sz =
           (ensure_buf_size b (off + al_up m sz), off + pad_pos m sz, off + pad_pos m sz + sz)"
    and "get_aligned_indices m off sz = (off + pad_pos m sz, off + pad_pos m sz + sz)"
proof -
  have szb: "sz \<le> al_up m sz" using al_up_bounds(1) [OF assms(1,5)] .
  have off: "al_up m off = off" using assms by simp
  have le: "off + al_up m sz \<le> usize_max m" using assms(4) by linarith
  have le': "off + pad_pos m sz + sz \<le> usize_max m"
    using pad_pos_bound [OF assms(1,5)] le by linarith
  show "get_aligned_slice m b off sz =
      (ensure_buf_size b (off + al_up m sz), off + pad_pos m sz, off + pad_pos m sz + sz)"
    and "get_aligned_indices m off sz = (off + pad_pos m sz, off + pad_pos m sz + sz)"
    using off le le' szb al_up_max [OF assms(1,3,5)]
    by (simp_all add: get_aligned_slice_def get_aligned_indices_def pad_pos_def Let_def)
qed

lemma sol32_simps [simp]:
  "order (sol32 m) = order m" "ALIGN (sol32 m) = 32" "usize_max (sol32 m) = usize_max m"
  by (simp_all add: sol32_def)

lemma sol32_id: "ALIGN m = 32 \<Longrightarrow> sol32 m = m"
  by (simp add: sol32_def)

lemma wf_sol32 [simp]: "wf_abi m \<Longrightarrow> wf_abi (sol32 m)"
  by (simp add: wf_abi_def)

lemma sol_al_up_32 [simp]: "wf_abi m \<Longrightarrow> align_up (usize_max m) 32 32 = 32"
  using al_up_aligned [of "sol32 m" 32] wf_abiD(4) [of m] by simp

lemma sol_get_aligned:
  assumes "wf_abi m" "32 dvd off" "off + 32 \<le> isize_max m"
  shows "get_aligned_slice (sol32 m) b off 32 = (ensure_buf_size b (off + 32), off, off + 32)"
proof -
  have "(32::nat) \<le> isize_max m" using assms(3) by simp
  then show ?thesis
    using get_aligned_eq(1) [of "sol32 m" off 32 b] assms by (simp add: pad_pos_def)
qed

lemma resize_ensure: "(if length b < n then resize b n else b) = ensure_buf_size b n"
  by (simp add: ensure_buf_size_def)

text \<open>The shape of every fixed-size encoder: a window written at an aligned offset.\<close>

lemma static_codecI:
  assumes "wf_abi m" "\<not> IS_DYNAMIC E" "HEADER_SIZE E \<le> isize_max m"
    and "al_up m (HEADER_SIZE E) = n"
    and enc: "\<And>v off b. valid v \<Longrightarrow> ALIGN m dvd off \<Longrightarrow> off + n \<le> isize_max m \<Longrightarrow>
      length b \<le> isize_max m \<Longrightarrow>
      encode E v b off = Ok (blit (ensure_buf_size b (off + n)) off (img v (window (ensure_buf_size b (off + n)) off n)))"
    and img: "\<And>v w. valid v \<Longrightarrow> length w = n \<Longrightarrow> length (img v w) = n"
    and dec: "\<And>v w b i. valid v \<Longrightarrow> length w = n \<Longrightarrow> ALIGN m dvd i \<Longrightarrow> i + n \<le> length b \<Longrightarrow>
      length b \<le> isize_max m \<Longrightarrow> window b i n = img v w \<Longrightarrow> decode E b i = Ok v"
    and np: "\<And>b off. length b \<le> isize_max m \<Longrightarrow> off \<le> isize_max m \<Longrightarrow> decode E b off \<noteq> Panic"
  shows "static_codec m E valid"
proof (unfold_locales, goal_cases)
  case (4 v off b)
  let ?w = "window (ensure_buf_size b (off + n)) off n"
  have w: "length ?w = n" by simp
  have "encode E v b off = Ok (blit (ensure_buf_size b (off + n)) off (img v ?w))"
    using 4 assms(4) by (intro enc) auto
  with 4 assms(4) w show ?case
    by (intro exI [of _ "img v ?w"]) (auto simp: img intro: dec [OF _ w])
next
  case (6 v off b)
  then show ?case using assms(4) by (simp add: enc)
qed (use assms in auto)


section \<open>The fixed-size encoders keep the contract\<close>

lemma blit_at_window:
  "off + n \<le> length b \<Longrightarrow> p + length x \<le> n \<Longrightarrow>
     blit b (off + p) x = blit b off (blit (window b off n) p x)"
  by (rule blit_inside)

lemma u8_encode_Ok:
  assumes "wf_abi m" "ALIGN m dvd off" "off + al_up m 1 \<le> isize_max m"
  shows "u8_encode m v b off =
     (let b1 = ensure_buf_size b (off + al_up m 1)
      in Ok (blit b1 off (blit (window b1 off (al_up m 1)) (pad_pos m 1) [v])))"
proof -
  have one: "1 \<le> isize_max m" using wf_abiD(4) [OF assms(1)] by linarith
  have pp: "pad_pos m 1 + 1 \<le> al_up m 1" using pad_pos_bound [OF assms(1) one] .
  have "off + al_up m 1 \<le> usize_max m" using assms(3) by linarith
  then show ?thesis
    using pp get_aligned_eq(1) [OF assms(1,2) _ assms(3) one]
    by (simp add: u8_encode_def resize_ensure Let_def write_slice_def blit_at_window)
qed

lemma u8_decode_Ok:
  assumes "wf_abi m" "i + al_up m 1 \<le> length b" "length b \<le> isize_max m"
  shows "u8_decode m b i = Ok (window b i (al_up m 1) ! pad_pos m 1)"
proof -
  have one: "1 \<le> isize_max m" using wf_abiD(4) [OF assms(1)] by linarith
  have "1 \<le> al_up m 1" using al_up_bounds(1) [OF assms(1) one] .
  then show ?thesis
    using assms by (simp add: u8_decode_def checked_decode_slice_Ok index_def pad_pos_def Let_def)
qed

lemma u8_decode_no_panic:
  assumes "wf_abi m" "length b \<le> isize_max m"
  shows "u8_decode m b i \<noteq> Panic"
proof (cases "i + al_up m 1 \<le> length b")
  case True
  then show ?thesis using assms by (simp add: u8_decode_Ok)
next
  case False
  then have "\<exists>e. checked_decode_slice m b i (al_up m 1) ''buf too small to read aligned u8'' = Err e"
    by (intro checked_decode_slice_short) simp
  then show ?thesis by (auto simp: u8_decode_def)
qed

lemma u8_static:
  assumes "wf_abi m"
  shows "static_codec m (u8_encoder m) (\<lambda>_. True)"
proof (rule static_codecI [where n = "al_up m 1" and img = "\<lambda>v w. blit w (pad_pos m 1) [v]"])
  have one: "1 \<le> isize_max m" using wf_abiD(4) [OF assms] by linarith
  then have pp: "pad_pos m 1 + 1 \<le> al_up m 1" by (rule pad_pos_bound [OF assms])
  show "HEADER_SIZE (u8_encoder m) \<le> isize_max m" using one by (simp add: u8_encoder_def)
  fix v and w b :: buf and i
  assume "length w = al_up m 1" "i + al_up m 1 \<le> length b" "length b \<le> isize_max m"
    and "window b i (al_up m 1) = blit w (pad_pos m 1) [v]"
  then show "decode (u8_encoder m) b i = Ok v"
    using pp assms by (simp add: u8_encoder_def u8_decode_Ok nth_blit)
qed (use assms pad_pos_bound [OF assms, of 1] wf_abiD(4) [OF assms] in
     \<open>auto simp: u8_encoder_def u8_encode_Ok u8_decode_no_panic Let_def\<close>)

lemma bool_static:
  assumes "wf_abi m"
  shows "static_codec m (bool_encoder m) (\<lambda>_. True)"
proof (rule static_codecI [where n = "al_up m 1"
      and img = "\<lambda>v w. blit w (pad_pos m 1) [if v then 1 else 0]"])
  have one: "1 \<le> isize_max m" using wf_abiD(4) [OF assms] by linarith
  then have pp: "pad_pos m 1 + 1 \<le> al_up m 1" by (rule pad_pos_bound [OF assms])
  show "HEADER_SIZE (bool_encoder m) \<le> isize_max m" using one by (simp add: bool_encoder_def)
  fix v and w b :: buf and i
  assume "length w = al_up m 1" "i + al_up m 1 \<le> length b" "length b \<le> isize_max m"
    and "window b i (al_up m 1) = blit w (pad_pos m 1) [if v then 1 else 0]"
  then show "decode (bool_encoder m) b i = Ok v"
    using pp assms by (auto simp: bool_encoder_def u8_decode_Ok nth_blit)
qed (use assms pad_pos_bound [OF assms, of 1] wf_abiD(4) [OF assms] in
     \<open>auto simp: bool_encoder_def u8_encode_Ok u8_decode_no_panic Let_def oc_simps\<close>)


text \<open>The machine integers, in either byte order.\<close>

definition int_image :: "abi \<Rightarrow> bool \<Rightarrow> 'a::len word \<Rightarrow> byte list" where
  "int_image m is_signed v =
     (let sz = LENGTH('a) div 8;
          fill = (if int_positive is_signed v then 0x00 else 0xFF)
      in replicate (pad_pos m sz) fill @ write_uint (order m) sz (unat v) @
         replicate (al_up m sz - pad_pos m sz - sz) fill)"

lemma int_encode_Ok:
  fixes v :: "'a::len word"
  assumes "wf_abi m" "ALIGN m dvd off" "off + al_up m (LENGTH('a) div 8) \<le> isize_max m"
    and "LENGTH('a) \<in> {16, 32, 64}"
  shows "int_encode m is_signed v b off =
     Ok (blit (ensure_buf_size b (off + al_up m (LENGTH('a) div 8))) off (int_image m is_signed v))"
proof -
  define sz where "sz = LENGTH('a) div 8"
  define n where "n = al_up m sz"
  define pp where "pp = pad_pos m sz"
  define x where "x = write_uint (order m) sz (unat v)"
  define f :: byte where "f = (if int_positive is_signed v then 0x00 else 0xFF)"
  define b1 where "b1 = ensure_buf_size b (off + n)"
  have szm: "0 < sz" "sz \<le> isize_max m"
    using assms(4) wf_abiD(4) [OF assms(1)] by (auto simp: sz_def)
  have pp: "pp + sz \<le> n" using pad_pos_bound [OF assms(1) szm(2)] by (simp add: pp_def n_def)
  have le: "off + n \<le> usize_max m" using assms(3) by (simp add: n_def sz_def)
  have lb: "off + n \<le> length b1" by (simp add: b1_def)
  have ind: "get_aligned_indices m off sz = (off + pp, off + pp + sz)"
    using get_aligned_eq(2) [OF assms(1,2) szm(1) _ szm(2)] assms(3) by (simp add: pp_def sz_def)
  have lx: "length x = sz" by (simp add: x_def)
  have enc: "int_encode m is_signed v b off =
      oc_bind (write_slice b1 (off + pp) (off + pp + sz) x) (\<lambda>b2.
      oc_bind (fill_range b2 off (off + pp) f) (\<lambda>b3.
      oc_bind (write_slice b3 (off + pp) (off + pp + sz) x) (\<lambda>b4.
      fill_range b4 (off + pp + sz) (off + n) f)))"
    using le ind by (simp add: int_encode_def Let_def resize_ensure b1_def n_def sz_def x_def f_def)
  have img: "int_image m is_signed v = replicate pp f @ x @ replicate (n - pp - sz) f"
    by (simp add: int_image_def Let_def sz_def n_def pp_def x_def f_def)
  show ?thesis
  proof (cases "order m = BE")
    case True
    then have n: "n = pp + sz" using pp by (auto simp: pp_def n_def pad_pos_def)
    have "blit (blit (blit b1 (off + pp) x) off (replicate pp f)) (off + pp) x
        = blit (blit b1 (off + pp) x) off (replicate pp f @ x)"
      using blit_adjacent [of off "replicate pp f" x "blit b1 (off + pp) x"] lb n lx by simp
    also have "\<dots> = blit b1 off (replicate pp f @ x)"
      using lb n lx blit_at_window [of off n b1 pp x] by (simp add: blit_overwrite)
    finally show ?thesis
      unfolding enc img using n lb lx
      by (cases "pp = 0") (auto simp: write_slice_def fill_range_def b1_def n_def sz_def buf_simps)
  next
    case False
    then have p0: "pp = 0" by (simp add: pp_def pad_pos_def)
    have "blit (blit b1 off x) (off + sz) (replicate (n - sz) f) = blit b1 off (x @ replicate (n - sz) f)"
      using blit_adjacent [of off x "replicate (n - sz) f" b1] lb pp p0 lx by simp
    then show ?thesis
      unfolding enc img using p0 pp lb lx
      by (cases "n = sz") (auto simp: write_slice_def fill_range_def b1_def n_def sz_def buf_simps)
  qed
qed

lemma int_decode_Ok:
  assumes "wf_abi m" "i + al_up m (LENGTH('a::len) div 8) \<le> length b" "length b \<le> isize_max m"
    and "LENGTH('a) \<in> {16, 32, 64}"
  shows "int_decode m b i = Ok (word_of_nat (read_uint (order m)
           (window (window b i (al_up m (LENGTH('a) div 8))) (pad_pos m (LENGTH('a) div 8)) (LENGTH('a) div 8))) :: 'a word)"
proof -
  have "LENGTH('a) div 8 \<le> isize_max m" using assms(4) wf_abiD(4) [OF assms(1)] by auto
  then have "LENGTH('a) div 8 \<le> al_up m (LENGTH('a) div 8)" using al_up_bounds(1) [OF assms(1)] by simp
  then show ?thesis
    using assms(2,3) by (simp add: int_decode_def checked_decode_slice_Ok slice_from_def slice_def
        pad_pos_def Let_def window_def)
qed

lemma int_decode_no_panic:
  assumes "wf_abi m" "length b \<le> isize_max m" "LENGTH('a::len) \<in> {16, 32, 64}"
  shows "(int_decode m b i :: 'a word decoded) \<noteq> Panic"
proof (cases "i + al_up m (LENGTH('a) div 8) \<le> length b")
  case True
  then show ?thesis using assms by (simp add: int_decode_Ok)
next
  case False
  then have "\<exists>e. checked_decode_slice m b i (al_up m (LENGTH('a) div 8)) ''buf too small to decode value'' = Err e"
    by (intro checked_decode_slice_short) simp
  then show ?thesis by (auto simp: int_decode_def)
qed

lemma window_middle: "n = length x \<Longrightarrow> window (p @ x @ q) (length p) n = x"
  by (simp add: window_def)

lemma int_static:
  assumes "wf_abi m" and "LENGTH('a::len) \<in> {16, 32, 64}"
  shows "static_codec m (int_encoder m is_signed :: 'a word encoder) (\<lambda>_. True)"
proof (rule static_codecI [where n = "al_up m (LENGTH('a) div 8)" and img = "\<lambda>v _. int_image m is_signed v"])
  have sz: "LENGTH('a) div 8 \<le> isize_max m" using assms(2) wf_abiD(4) [OF assms(1)] by auto
  then show "HEADER_SIZE (int_encoder m is_signed :: 'a word encoder) \<le> isize_max m"
    by (simp add: int_encoder_def)
  note pp = pad_pos_bound [OF assms(1) sz]
  fix v :: "'a word" and w b :: buf and i
  show "length (int_image m is_signed v) = al_up m (LENGTH('a) div 8)"
    using pp by (simp add: int_image_def Let_def)
  assume b: "i + al_up m (LENGTH('a) div 8) \<le> length b" "length b \<le> isize_max m"
    and w: "window b i (al_up m (LENGTH('a) div 8)) = int_image m is_signed v"
  have "window (int_image m is_signed v) (pad_pos m (LENGTH('a) div 8)) (LENGTH('a) div 8)
      = write_uint (order m) (LENGTH('a) div 8) (unat v)"
    unfolding int_image_def Let_def
    using window_middle [of _ "write_uint (order m) (LENGTH('a) div 8) (unat v)" "replicate (pad_pos m (LENGTH('a) div 8)) _"]
    by simp
  moreover have "8 * (LENGTH('a) div 8) = LENGTH('a)" using assms(2) by auto
  ultimately show "decode (int_encoder m is_signed) b i = Ok v"
    using b w assms by (simp add: int_encoder_def int_decode_Ok read_write_word)
qed (use assms in \<open>auto simp: int_encoder_def int_encode_Ok int_decode_no_panic\<close>)

text \<open>\<open>FixedBytes\<close>, \<open>Address\<close>, \<open>Uint\<close> and \<open>Signed\<close> in the compact modes.\<close>

lemma fixed_bytes_encode_Ok:
  assumes "wf_abi m" "ALIGN m dvd off" "off + al_up m n \<le> isize_max m" "0 < n" "n \<le> isize_max m"
    and "length v = n" "order m = LE \<or> ALIGN m dvd n"
  shows "fixed_bytes_encode m n v b off =
     (let b1 = ensure_buf_size b (off + al_up m n)
      in Ok (blit b1 off (blit (window b1 off (al_up m n)) 0 v)))"
proof -
  have "pad_pos m n = 0" using assms by (auto simp: pad_pos_def)
  moreover have "n \<le> al_up m n" using al_up_bounds(1) [OF assms(1,5)] .
  ultimately show ?thesis
    using get_aligned_eq(1) [OF assms(1,2,4,3,5), of b] assms(6)
      blit_at_window [of off "al_up m n" "ensure_buf_size b (off + al_up m n)" 0 v]
    by (simp add: fixed_bytes_encode_def Let_def write_slice_def)
qed

lemma fixed_bytes_decode_Ok:
  assumes "i + n \<le> length b" "length b \<le> isize_max m"
  shows "fixed_bytes_decode m n msg b i = Ok (window b i n)"
  using assms by (simp add: fixed_bytes_decode_def slice_Ok)

lemma fixed_bytes_decode_no_panic:
  assumes "i + n \<le> usize_max m"
  shows "fixed_bytes_decode m n msg b i \<noteq> Panic"
  using assms by (simp add: fixed_bytes_decode_def slice_def)

lemma window_blit_0: "length v \<le> length w \<Longrightarrow> window (blit w 0 v) 0 (length v) = v"
  by (simp add: window_blit_same)

text \<open>Encoders defined through the representation of another type.\<close>

lemma static_codec_via:
  assumes E: "static_codec m E valid"
    and hdr: "HEADER_SIZE E' = HEADER_SIZE E" "\<not> IS_DYNAMIC E'"
    and enc: "\<And>v b off. valid' v \<Longrightarrow> encode E' v b off = encode E (rep v) b off"
    and dec: "\<And>b off. decode E' b off = oc_bind (decode E b off) (\<lambda>x. Ok (ab x))"
    and rep: "\<And>v. valid' v \<Longrightarrow> valid (rep v) \<and> ab (rep v) = v"
  shows "static_codec m E' valid'"
proof -
  note lo = static_codec.wf_mode [OF E] static_codec.header_bound [OF E]
    static_codec.encode_window [OF E] static_codec.decode_no_panic [OF E]
  show ?thesis
  proof (unfold_locales, goal_cases)
    case (4 v off b)
    then show ?case using lo(3) [of "rep v" off b] by (auto simp: hdr enc dec rep)
  next
    case (6 v off b)
    then show ?case using static_codec.encode_ensure [OF E, of "rep v" off b] by (simp add: hdr enc rep)
  qed (use lo hdr in \<open>auto simp: dec oc_simps\<close>)
qed

lemma fixed_bytes_window:
  assumes "wf_abi m" "0 < n" "n \<le> 32" "order m = LE \<or> ALIGN m dvd n"
  shows "static_codec m \<lparr>HEADER_SIZE = n, IS_DYNAMIC = False, encode = fixed_bytes_encode m n,
     decode = fixed_bytes_decode m n msg, partial_decode = pd\<rparr> (\<lambda>v. length v = n)"
    (is "static_codec m ?E _")
proof (rule static_codecI [where n = "al_up m n" and img = "\<lambda>v w. blit w 0 v"])
  have n: "n \<le> isize_max m" using assms(3) wf_abiD(4) [OF assms(1)] by linarith
  then show "HEADER_SIZE ?E \<le> isize_max m" by simp
  have le: "n \<le> al_up m n" using al_up_bounds(1) [OF assms(1) n] .
  fix v :: "byte list" and w b :: buf and off i
  assume v: "length v = n"
  show "length w = al_up m n \<Longrightarrow> length (blit w 0 v) = al_up m n" using v le by simp
  show "ALIGN m dvd off \<Longrightarrow> off + al_up m n \<le> isize_max m \<Longrightarrow> encode ?E v b off =
      Ok (blit (ensure_buf_size b (off + al_up m n)) off
         (blit (window (ensure_buf_size b (off + al_up m n)) off (al_up m n)) 0 v))"
    using fixed_bytes_encode_Ok [OF assms(1) _ _ assms(2) n v assms(4), of off b]
    by (simp add: Let_def)
  assume w: "length w = al_up m n" "window b i (al_up m n) = blit w 0 v"
    and b: "i + al_up m n \<le> length b" "length b \<le> isize_max m"
  have "window b i n = window (window b i (al_up m n)) 0 n" using le by (simp add: window_of_window)
  also have "\<dots> = v" using w v le window_blit_0 [of v w] by simp
  finally show "decode ?E b i = Ok v"
    using b le by (simp add: fixed_bytes_decode_Ok)
next
  fix b :: buf and off
  have "n \<le> 32" "32 \<le> isize_max m" using assms(3) wf_abiD(4) [OF assms(1)] by linarith+
  then show "off \<le> isize_max m \<Longrightarrow> decode ?E b off \<noteq> Panic"
    by (auto intro!: fixed_bytes_decode_no_panic)
qed (use assms in auto)

lemma fixed_bytes_static:
  assumes "wf_abi m" "0 < n" "n \<le> 32" "order m = LE \<or> ALIGN m dvd n"
  shows "static_codec m (fixed_bytes_encoder m n) (\<lambda>v. length v = n)"
  unfolding fixed_bytes_encoder_def using assms by (rule fixed_bytes_window)

lemma address_static:
  assumes "wf_abi m" "order m = LE \<or> ALIGN m dvd 20"
  shows "static_codec m (address_encoder m) (\<lambda>_. True)"
  by (rule static_codec_via [where rep = to_be_bytes and ab = from_be_bytes,
        OF fixed_bytes_window [where n = 20 and msg = "''Buffer too small to decode fixed bytes''"
          and pd = "\<lambda>_ _. Panic", OF assms(1) _ _ assms(2)]])
     (auto simp: address_encoder_def)

text \<open>The words of 32 bytes the Solidity mode uses for all of them.\<close>

lemma sol_word_static:
  assumes "wf_abi m" "ALIGN m = 32" "\<not> IS_DYNAMIC E" "HEADER_SIZE E = 32"
    and enc: "\<And>v off b. valid v \<Longrightarrow> 32 dvd off \<Longrightarrow> off + 32 \<le> isize_max m \<Longrightarrow>
       encode E v b off = Ok (blit (ensure_buf_size b (off + 32)) off (img v))"
    and img: "\<And>v. valid v \<Longrightarrow> length (img v) = 32"
    and dec: "\<And>v b i. valid v \<Longrightarrow> 32 dvd i \<Longrightarrow> i + 32 \<le> length b \<Longrightarrow> length b \<le> isize_max m \<Longrightarrow>
       window b i 32 = img v \<Longrightarrow> decode E b i = Ok v"
    and np: "\<And>b off. off + 64 \<le> usize_max m \<Longrightarrow> decode E b off \<noteq> Panic"
  shows "static_codec m E valid"
proof (rule static_codecI [where n = 32 and img = "\<lambda>v _. img v"])
  have "64 \<le> isize_max m" "2 * isize_max m \<le> usize_max m"
    using wf_abiD(4) [OF assms(1)] by linarith+
  then show "off \<le> isize_max m \<Longrightarrow> decode E b off \<noteq> Panic" for b off
    by (intro np) linarith
  show "HEADER_SIZE E \<le> isize_max m" using assms(4) \<open>64 \<le> isize_max m\<close> by simp
qed (use assms in \<open>auto\<close>)


lemma write_halves:
  assumes "length x + length y = 32" "off + 32 \<le> length b"
  shows "oc_bind (write_slice b off (off + length x) x) (\<lambda>b2. write_slice b2 (off + length x) (off + 32) y)
           = Ok (blit b off (x @ y))"
    and "oc_bind (write_slice b (off + length x) (off + 32) y) (\<lambda>b2. write_slice b2 off (off + length x) x)
           = Ok (blit b off (x @ y))"
proof -
  have xy: "off + length x + length y = off + 32" "off + length x \<le> length b" using assms by linarith+
  then show "oc_bind (write_slice b off (off + length x) x) (\<lambda>b2. write_slice b2 (off + length x) (off + 32) y)
           = Ok (blit b off (x @ y))"
    using assms by (simp add: write_slice_def blit_adjacent)
  have "blit (blit b (off + length x) y) off x = blit b off (x @ y)"
  proof -
    have "drop (length y + (off + length x)) b = drop (off + 32) b"
      using assms(1) by (intro arg_cong [where f = "\<lambda>n. drop n b"]) linarith
    then show ?thesis using assms xy by (simp add: blit_def take_drop add.commute)
  qed
  then show "oc_bind (write_slice b (off + length x) (off + 32) y) (\<lambda>b2. write_slice b2 off (off + length x) x)
           = Ok (blit b off (x @ y))"
    using assms xy by (simp add: write_slice_def)
qed

lemma fixed_bytes_sol_static:
  assumes "wf_abi m" "ALIGN m = 32" "n \<le> 32"
  shows "static_codec m (fixed_bytes_sol_encoder m n) (\<lambda>v. length v = n)"
proof (rule sol_word_static [where img = "\<lambda>v. v @ replicate (32 - n) 0", OF assms(1,2)])
  fix v :: "byte list" and off i and b :: buf
  assume v: "length v = n"
  show "32 dvd off \<Longrightarrow> off + 32 \<le> isize_max m \<Longrightarrow> encode (fixed_bytes_sol_encoder m n) v b off =
      Ok (blit (ensure_buf_size b (off + 32)) off (v @ replicate (32 - n) 0))"
    using write_halves(1) [of v "replicate (32 - n) 0" off "ensure_buf_size b (off + 32)"] v assms
    by (simp add: fixed_bytes_sol_encoder_def fixed_bytes_sol_encode_def sol_get_aligned)
  assume i: "32 dvd i" "i + 32 \<le> length b" "length b \<le> isize_max m"
    and w: "window b i 32 = v @ replicate (32 - n) 0"
  have "window b i n = window (window b i 32) 0 n" using assms(3) by (simp add: window_of_window)
  also have "\<dots> = v" unfolding w using v by (simp add: window_def)
  finally show "decode (fixed_bytes_sol_encoder m n) b i = Ok v"
    using i assms al_up_aligned [of m i]
    by (simp add: fixed_bytes_sol_encoder_def fixed_bytes_sol_decode_def Let_def slice_Ok)
next
  fix b :: buf and off assume off: "off + 64 \<le> usize_max m"
  have "off \<le> al_up m off \<and> al_up m off < off + 32"
  proof -
    from wf_abiD(1) [OF assms(1)] obtain k where "(32::nat) = 2 ^ k" using assms(2) by auto
    then have "align_up (usize_max m) 32 off = (off + 32 - 1) div 32 * 32" using off by (intro align_up_eq) auto
    then show ?thesis using ceil_mult_bounds [of 32 off] assms(2) by simp
  qed
  then show "decode (fixed_bytes_sol_encoder m n) b off \<noteq> Panic"
    using off assms by (auto simp: fixed_bytes_sol_encoder_def fixed_bytes_sol_decode_def Let_def slice_def)
qed (use assms in \<open>auto simp: fixed_bytes_sol_encoder_def\<close>)

lemma address_sol_static:
  assumes "wf_abi m" "ALIGN m = 32"
  shows "static_codec m (address_sol_encoder m) (\<lambda>_. True)"
proof (rule sol_word_static [where img = "\<lambda>v. replicate 12 0 @ to_be_bytes v", OF assms])
  fix v :: address and off i and b :: buf
  show "32 dvd off \<Longrightarrow> off + 32 \<le> isize_max m \<Longrightarrow> encode (address_sol_encoder m) v b off =
      Ok (blit (ensure_buf_size b (off + 32)) off (replicate 12 0 @ to_be_bytes v))"
    using write_halves(1) [of "replicate 12 0" "to_be_bytes v" off "ensure_buf_size b (off + 32)"] assms
    by (simp add: address_sol_encoder_def address_sol_encode_def sol_get_aligned)
  assume i: "i + 32 \<le> length b" "length b \<le> isize_max m"
    and w: "window b i 32 = replicate 12 0 @ to_be_bytes v"
  have "window b (i + 12) 20 = window (window b i 32) 12 20" by (simp add: window_of_window)
  also have "\<dots> = to_be_bytes v" unfolding w by (simp add: window_def)
  finally show "decode (address_sol_encoder m) b i = Ok v"
    using i by (simp add: address_sol_encoder_def address_sol_decode_def slice_Ok add.commute)
next
  fix b :: buf and off assume "off + 64 \<le> usize_max m"
  then show "decode (address_sol_encoder m) b off \<noteq> Panic"
    by (simp add: address_sol_encoder_def address_sol_decode_def slice_def)
qed (auto simp: address_sol_encoder_def)

lemma uint_sol_encode_Ok:
  fixes v :: "'a::len word"
  assumes "wf_abi m" "uint_bytes TYPE('a) \<le> 32" "32 dvd off" "off + 32 \<le> isize_max m"
  shows "uint_sol_encode m pad v b off = Ok (blit (ensure_buf_size b (off + 32)) off
     (replicate (32 - uint_bytes TYPE('a)) pad @ write_uint (order m) (uint_bytes TYPE('a)) (unat v)))"
  using write_halves(2) [of "replicate (32 - uint_bytes TYPE('a)) pad"
      "write_uint (order m) (uint_bytes TYPE('a)) (unat v)" off "ensure_buf_size b (off + 32)"] assms
  by (simp add: uint_sol_encode_def sol_get_aligned Let_def)

lemma uint_sol_decode_Ok:
  fixes v :: "'a::len word"
  assumes "8 dvd LENGTH('a)" "LENGTH('a) \<le> 256" "i + 32 \<le> length b" "length b \<le> isize_max m"
    and "window b i 32 = replicate (32 - uint_bytes TYPE('a)) pad @
           write_uint (order m) (uint_bytes TYPE('a)) (unat v)"
  shows "uint_sol_decode m msg b i = Ok v"
proof -
  have n: "8 * uint_bytes TYPE('a) = LENGTH('a)" "uint_bytes TYPE('a) \<le> 32"
    using assms(1,2) by (auto simp: uint_bytes_def elim!: dvdE)
  have "drop (32 - uint_bytes TYPE('a)) (window b i 32) = write_uint (order m) (uint_bytes TYPE('a)) (unat v)"
    unfolding assms(5) by simp
  then show ?thesis
    using assms(3,4) n by (simp add: uint_sol_decode_def slice_Ok slice_from_def read_write_word Let_def)
qed

lemma uint_sol_decode_no_panic:
  assumes "LENGTH('a::len) \<le> 256" "off + 64 \<le> usize_max m"
  shows "(uint_sol_decode m msg b off :: 'a word decoded) \<noteq> Panic"
proof -
  have "uint_bytes TYPE('a) \<le> 32" using assms(1) by (simp add: uint_bytes_def)
  then show ?thesis
    using assms by (simp add: uint_sol_decode_def slice_def slice_from_def Let_def)
qed

lemma uint_sol_static:
  assumes "wf_abi m" "ALIGN m = 32" "8 dvd LENGTH('a::len)" "LENGTH('a) \<le> 256"
  shows "static_codec m (uint_sol_encoder m :: 'a word encoder) (\<lambda>_. True)"
    and "static_codec m (signed_sol_encoder m :: 'a word encoder) (\<lambda>_. True)"
proof -
  have n: "uint_bytes TYPE('a) \<le> 32" using assms(4) by (simp add: uint_bytes_def)
  note simps = uint_sol_encoder_def signed_sol_encoder_def uint_sol_encode_Ok [OF assms(1) n]
    uint_sol_decode_no_panic [OF assms(4)]
  let ?img = "\<lambda>pad v. replicate (32 - uint_bytes TYPE('a)) pad @
     write_uint (order m) (uint_bytes TYPE('a)) (unat (v :: 'a word))"
  show "static_codec m (uint_sol_encoder m :: 'a word encoder) (\<lambda>_. True)"
    by (rule sol_word_static [where img = "?img 0", OF assms(1,2)])
       (use n in \<open>auto simp: simps intro: uint_sol_decode_Ok [OF assms(3,4)]\<close>)
  show "static_codec m (signed_sol_encoder m :: 'a word encoder) (\<lambda>_. True)"
    by (rule sol_word_static [where img = "\<lambda>v. ?img (if sint v < 0 then 0xFF else 0) v", OF assms(1,2)])
       (use n in \<open>auto simp: simps intro: uint_sol_decode_Ok [OF assms(3,4)]\<close>)
qed

text \<open>\<open>Uint\<close> and \<open>Signed\<close> in the compact modes.\<close>

lemma uint_bytes_le:
  assumes "8 dvd LENGTH('a::len)" "LENGTH('a) \<le> 256"
  shows "8 * uint_bytes TYPE('a) = LENGTH('a)" "0 < uint_bytes TYPE('a)" "uint_bytes TYPE('a) \<le> 32"
proof -
  from assms(1) obtain k where k: "LENGTH('a) = 8 * k" ..
  have "0 < k" using k len_not_eq_0 [where 'a = 'a] by (cases k) auto
  moreover have "uint_bytes TYPE('a) = k" by (simp add: uint_bytes_def k)
  ultimately show "8 * uint_bytes TYPE('a) = LENGTH('a)" "0 < uint_bytes TYPE('a)" "uint_bytes TYPE('a) \<le> 32"
    using k assms(2) by simp_all
qed

lemma uint_encode_Ok:
  fixes v :: "'a::len word"
  assumes "wf_abi m" "ALIGN m dvd off" "off + al_up m n \<le> isize_max m" "0 < n" "n \<le> isize_max m"
    and "n = uint_bytes TYPE('a)"
  shows "uint_encode m v b off =
     (let b1 = ensure_buf_size b (off + al_up m n)
      in Ok (blit b1 off (blit (window b1 off (al_up m n)) 0 (write_uint (order m) n (unat v)))))"
proof -
  note al = al_up_bounds [OF assms(1,5)]
  have aln: "0 < al_up m n" "al_up m n \<le> isize_max m" using al(1) assms(3,4) by linarith+
  have al2: "al_up m (al_up m n) = al_up m n" using al_up_aligned [OF assms(1) al(3) aln(2)] .
  have "get_aligned_slice m b off (al_up m n) = (ensure_buf_size b (off + al_up m n), off, off + al_up m n)"
    using get_aligned_eq(1) [OF assms(1,2) aln(1) _ aln(2)] assms(3) by (simp add: al2 pad_pos_def)
  then have "uint_encode m v b off =
      Ok (blit (ensure_buf_size b (off + al_up m n)) (off + 0) (write_uint (order m) n (unat v)))"
    using al(1) by (simp add: uint_encode_def Let_def write_slice_def assms(6) [symmetric])
  also have "\<dots> = Ok (blit (ensure_buf_size b (off + al_up m n)) off
      (blit (window (ensure_buf_size b (off + al_up m n)) off (al_up m n)) 0 (write_uint (order m) n (unat v))))"
    using al(1) by (subst blit_at_window [where n = "al_up m n"]) auto
  finally show ?thesis by (simp add: Let_def)
qed

lemma uint_decode_Ok:
  fixes v :: "'a::len word"
  assumes "8 * n = LENGTH('a)" "n = uint_bytes TYPE('a)" "n \<le> al_up m n" "i + al_up m n \<le> length b"
    and "length b \<le> isize_max m" "window b i n = write_uint (order m) n (unat v)"
  shows "uint_decode m msg b i = Ok v"
proof -
  have "window (window b i (al_up m n)) 0 n = write_uint (order m) n (unat v)"
    using assms(3,6) by (simp add: window_of_window)
  then show ?thesis
    using assms(3-5) by (simp add: uint_decode_def slice_Ok Let_def read_write_word [OF assms(1)]
        assms(2) [symmetric])
qed

lemma uint_decode_no_panic:
  assumes "uint_bytes TYPE('a::len) \<le> al_up m (uint_bytes TYPE('a))"
    and "off + al_up m (uint_bytes TYPE('a)) \<le> usize_max m"
  shows "(uint_decode m msg b off :: 'a word decoded) \<noteq> Panic"
  using assms by (simp add: uint_decode_def slice_def Let_def)

lemma uint_window:
  assumes "wf_abi m" "8 dvd LENGTH('a::len)" "LENGTH('a) \<le> 256" "n = uint_bytes TYPE('a)"
  shows "static_codec m \<lparr>HEADER_SIZE = n, IS_DYNAMIC = False,
     encode = uint_encode m, decode = uint_decode m msg :: buf \<Rightarrow> nat \<Rightarrow> 'a word decoded, partial_decode = pd\<rparr> (\<lambda>_. True)"
    (is "static_codec m ?E _")
proof -
  note n = uint_bytes_le [OF assms(2,3), folded assms(4)]
  have n': "n \<le> isize_max m" "n + ALIGN m \<le> isize_max m"
    using n(3) wf_abiD(3,4) [OF assms(1)] by linarith+
  note al = al_up_bounds [OF assms(1) n'(1)]
  show ?thesis
  proof (rule static_codecI [where n = "al_up m n" and img = "\<lambda>v w. blit w 0 (write_uint (order m) n (unat v))"])
    fix v :: "'a word" and w b :: buf and off i
    show "length w = al_up m n \<Longrightarrow> length (blit w 0 (write_uint (order m) n (unat v))) = al_up m n"
      using al(1) by simp
    show "ALIGN m dvd off \<Longrightarrow> off + al_up m n \<le> isize_max m \<Longrightarrow> encode ?E v b off =
        Ok (blit (ensure_buf_size b (off + al_up m n)) off
           (blit (window (ensure_buf_size b (off + al_up m n)) off (al_up m n)) 0 (write_uint (order m) n (unat v))))"
      using uint_encode_Ok [OF assms(1) _ _ n(2) n'(1) assms(4), of off v b] by (simp add: Let_def)
    assume w: "length w = al_up m n" "window b i (al_up m n) = blit w 0 (write_uint (order m) n (unat v))"
      and b: "i + al_up m n \<le> length b" "length b \<le> isize_max m"
    have "window b i n = window (window b i (al_up m n)) 0 n" using al(1) by (simp add: window_of_window)
    also have "\<dots> = write_uint (order m) n (unat v)"
      using w al(1) window_blit_0 [of "write_uint (order m) n (unat v)" w] by simp
    finally show "decode ?E b i = Ok v"
      using uint_decode_Ok [OF n(1) assms(4) al(1) b] by simp
  next
    fix b :: buf and off assume "off \<le> isize_max m"
    then have "off + al_up m n \<le> usize_max m" using al(2) n'(2) by linarith
    then show "decode ?E b off \<noteq> Panic"
      using uint_decode_no_panic al(1) by (simp add: assms(4))
  qed (use assms(1) n' in auto)
qed

lemma uint_static:
  assumes "wf_abi m" "8 dvd LENGTH('a::len)" "LENGTH('a) \<le> 256"
  shows "static_codec m (uint_encoder m :: 'a word encoder) (\<lambda>_. True)"
    and "static_codec m (signed_encoder m :: 'a word encoder) (\<lambda>_. True)"
  unfolding uint_encoder_def signed_encoder_def using assms by (simp_all add: uint_window)

text \<open>Arrays: the windows of the elements lie side by side.\<close>

lemma array_decode_items_Ok:
  assumes "n * sz \<le> length b" "off + (i + n) * sz \<le> length b" "length b \<le> isize_max m"
    and "\<And>k. k < n \<Longrightarrow> decode T b (off + (i + k) * sz) = Ok (xs ! k)" and "length xs = n"
  shows "array_decode_items m T sz n i b off = Ok xs"
  using assms
proof (induction n arbitrary: i xs)
  case (Suc n)
  from Suc.prems(5) obtain y ys where xs: "xs = y # ys" "length ys = n" by (cases xs) auto
  have "off + i * sz \<le> length b" using Suc.prems(2) by (simp add: algebra_simps)
  then have e: "uadd m off (umul m sz i) = off + i * sz"
    using Suc.prems(3) by (simp add: mult.commute)
  have "array_decode_items m T sz n (Suc i) b off = Ok ys"
    using Suc.prems xs Suc.prems(4) [of "Suc _"] by (intro Suc.IH) (auto simp: algebra_simps)
  then show ?case using Suc.prems(4) [of 0] xs e by simp
qed simp

lemma array_decode_items_no_panic:
  assumes "off + (i + n) * sz \<le> isize_max m"
    and "\<And>off. off \<le> isize_max m \<Longrightarrow> decode T b off \<noteq> Panic"
  shows "array_decode_items m T sz n i b off \<noteq> Panic"
  using assms(1)
proof (induction n arbitrary: i)
  case (Suc n)
  have le: "off + i * sz \<le> isize_max m" using Suc.prems by (simp add: algebra_simps)
  then have e: "uadd m off (umul m sz i) = off + i * sz" by (simp add: mult.commute)
  have "array_decode_items m T sz n (Suc i) b off \<noteq> Panic"
    using Suc by (simp add: algebra_simps)
  then show ?case using e assms(2) [OF le] by (auto simp: oc_simps)
qed simp

lemma array_encode_items_window:
  assumes "static_codec m T valid" "list_all valid xs" "ALIGN m dvd off"
    and "off + (i + length xs) * al_up m (HEADER_SIZE T) \<le> length b" "length b \<le> isize_max m"
  shows "\<exists>w. length w = length xs * al_up m (HEADER_SIZE T) \<and>
     array_encode_items m T (al_up m (HEADER_SIZE T)) xs i b off
       = Ok (blit b (off + i * al_up m (HEADER_SIZE T)) w) \<and>
     (\<forall>b' j. ALIGN m dvd j \<longrightarrow> j + length w \<le> length b' \<longrightarrow> length b' \<le> isize_max m \<longrightarrow>
        window b' j (length w) = w \<longrightarrow>
        (\<forall>k<length xs. decode T b' (j + k * al_up m (HEADER_SIZE T)) = Ok (xs ! k)))"
  using assms(2-5)
proof (induction xs arbitrary: i b)
  case Nil
  show ?case by (rule exI [of _ "[]"]) simp
next
  case (Cons x xs)
  note E = assms(1)
  let ?s = "al_up m (HEADER_SIZE T)"
  have sdvd: "ALIGN m dvd ?s"
    using al_up_bounds(3) [OF static_codec.wf_mode [OF E] static_codec.header_bound [OF E]] .
  have le: "off + i * ?s + ?s + length xs * ?s \<le> length b"
    using Cons.prems(3) by (simp add: algebra_simps)
  have e: "uadd m off (umul m ?s i) = off + i * ?s"
    using le Cons.prems(4) by (simp add: mult.commute)
  obtain w0 where w0: "length w0 = ?s" "encode T x b (off + i * ?s) = Ok (blit b (off + i * ?s) w0)"
    and d0: "\<And>b' j. ALIGN m dvd j \<Longrightarrow> j + ?s \<le> length b' \<Longrightarrow> length b' \<le> isize_max m \<Longrightarrow>
      window b' j ?s = w0 \<Longrightarrow> decode T b' j = Ok x"
    using static_codec.encode_window [OF E, of x "off + i * ?s" b] Cons.prems le sdvd by auto
  let ?b = "blit b (off + i * ?s) w0"
  have lb: "length ?b = length b" using le w0(1) by simp
  have "off + (Suc i + length xs) * ?s \<le> length b" using le by (simp add: algebra_simps)
  then have b: "off + (Suc i + length xs) * ?s \<le> length ?b" "length ?b \<le> isize_max m"
    using Cons.prems(4) lb by simp_all
  have v: "list_all valid xs" "valid x" using Cons.prems(1) by simp_all
  obtain w where w: "length w = length xs * ?s"
    "array_encode_items m T ?s xs (Suc i) ?b off = Ok (blit ?b (off + Suc i * ?s) w)"
    and d: "\<forall>b' j. ALIGN m dvd j \<longrightarrow> j + length w \<le> length b' \<longrightarrow> length b' \<le> isize_max m \<longrightarrow>
      window b' j (length w) = w \<longrightarrow> (\<forall>k<length xs. decode T b' (j + k * ?s) = Ok (xs ! k))"
    using Cons.IH [OF v(1) Cons.prems(2) b] by (elim exE conjE)
  have "blit ?b (off + Suc i * ?s) w = blit b (off + i * ?s) (w0 @ w)"
    using blit_adjacent [of "off + i * ?s" w0 w b] le w0(1) w(1) by (simp add: algebra_simps)
  then have enc: "array_encode_items m T ?s (x # xs) i b off = Ok (blit b (off + i * ?s) (w0 @ w))"
    using e w0(2) w(2) by simp
  have dec: "decode T b' (j + k * ?s) = Ok ((x # xs) ! k)"
    if "ALIGN m dvd j" "j + length (w0 @ w) \<le> length b'" "length b' \<le> isize_max m"
      "window b' j (length (w0 @ w)) = w0 @ w" "k < length (x # xs)" for b' j k
  proof -
    have "window b' j ?s @ window b' (j + ?s) (length w) = w0 @ w"
      using that(4) w0(1) by (simp add: window_append)
    then have ww: "window b' j ?s = w0" "window b' (j + ?s) (length w) = w"
      using that(2) w0(1) by (simp_all add: append_eq_append_conv)
    show ?thesis
    proof (cases k)
      case 0
      then show ?thesis using that w0(1) ww(1) by (simp add: d0)
    next
      case (Suc k')
      have "decode T b' ((j + ?s) + k' * ?s) = Ok (xs ! k')"
        using that w0(1) ww(2) sdvd Suc by (intro d [rule_format]) auto
      then show ?thesis using Suc by (simp add: add.assoc)
    qed
  qed
  have len: "length (w0 @ w) = length (x # xs) * ?s" using w0(1) w(1) by simp
  show ?case
    by (intro exI [of _ "w0 @ w"] conjI allI impI) (rule len enc dec; assumption)+
qed

lemma array_static:
  assumes "static_codec m T valid" "n * al_up m (HEADER_SIZE T) \<le> isize_max m"
  shows "static_codec m (array_encoder m T n) (\<lambda>xs. length xs = n \<and> list_all valid xs)"
proof -
  note wf = static_codec.wf_mode [OF assms(1)] and hb = static_codec.header_bound [OF assms(1)]
  let ?s = "al_up m (HEADER_SIZE T)"
  have um: "umul m ?s n = n * ?s" using assms(2) by (simp add: mult.commute)
  have "ALIGN m dvd n * ?s" using al_up_bounds(3) [OF wf hb] by simp
  then have al: "al_up m (n * ?s) = n * ?s" using al_up_aligned [OF wf _ assms(2)] by simp
  show ?thesis
  proof (unfold_locales, goal_cases)
    case (4 xs off b)
    then have le: "off + n * ?s \<le> isize_max m" by (simp add: array_encoder_def um al)
    let ?b = "ensure_buf_size b (off + n * ?s)"
    have v: "list_all valid xs" "length xs = n" using 4(1) by simp_all
    have b: "off + (0 + length xs) * ?s \<le> length ?b" "length ?b \<le> isize_max m" using le 4(4) v(2) by simp_all
    obtain w where w: "length w = length xs * ?s" "array_encode_items m T ?s xs 0 ?b off = Ok (blit ?b (off + 0 * ?s) w)"
      and d: "\<forall>b' j. ALIGN m dvd j \<longrightarrow> j + length w \<le> length b' \<longrightarrow> length b' \<le> isize_max m \<longrightarrow>
        window b' j (length w) = w \<longrightarrow> (\<forall>k<length xs. decode T b' (j + k * ?s) = Ok (xs ! k))"
      using array_encode_items_window [OF assms(1) v(1) 4(2) b] by (elim exE conjE)
    have enc: "encode (array_encoder m T n) xs b off = Ok (blit ?b off w)"
      using w(2) le by (simp add: array_encoder_def array_encode_def Let_def um resize_ensure)
    have dec: "decode (array_encoder m T n) b' i = Ok xs"
      if i: "ALIGN m dvd i" "i + n * ?s \<le> length b'" "length b' \<le> isize_max m" "window b' i (n * ?s) = w" for b' i
    proof -
      have "array_decode_items m T ?s n 0 b' i = Ok xs"
        using d [rule_format, OF i(1)] i w(1) v(2) by (intro array_decode_items_Ok) auto
      then show ?thesis using i by (simp add: array_encoder_def array_decode_def Let_def um)
    qed
    have hd: "al_up m (HEADER_SIZE (array_encoder m T n)) = n * ?s" by (simp add: array_encoder_def um al)
    have lw: "length w = n * ?s" using w(1) v(2) by simp
    show ?case unfolding hd
      by (intro exI [of _ w] conjI allI impI) (rule lw enc dec; assumption)+
  next
    case (5 b off)
    have "array_decode_items m T ?s n 0 b off \<noteq> Panic" if "off + n * ?s \<le> length b"
      using that 5 static_codec.decode_no_panic [OF assms(1) 5(1)]
      by (intro array_decode_items_no_panic) auto
    then show ?case using 5 assms(2) by (simp add: array_encoder_def array_decode_def Let_def um)
  next
    case (6 xs off b)
    then have "off + n * ?s \<le> isize_max m" by (simp add: array_encoder_def um al)
    then show ?case by (simp add: array_encoder_def array_encode_def Let_def um al resize_ensure)
  qed (use wf assms(2) um in \<open>auto simp: array_encoder_def\<close>)
qed


section \<open>The encoders at the modes of the crate\<close>

interpretation sol_u8: static_codec SolidityABI "u8_encoder SolidityABI" "\<lambda>_. True"
  by (rule u8_static) simp

interpretation sol_bool: static_codec SolidityABI "bool_encoder SolidityABI" "\<lambda>_. True"
  by (rule bool_static) simp

interpretation sol_u32: static_codec SolidityABI "int_encoder SolidityABI False :: u32 encoder" "\<lambda>_. True"
  by (rule int_static) simp_all

interpretation sol_u64: static_codec SolidityABI "int_encoder SolidityABI False :: u64 encoder" "\<lambda>_. True"
  by (rule int_static) simp_all

interpretation sol_address: static_codec SolidityABI "address_sol_encoder SolidityABI" "\<lambda>_. True"
  by (rule address_sol_static) simp_all

interpretation sol_b256: static_codec SolidityABI "fixed_bytes_sol_encoder SolidityABI 32" "\<lambda>v. length v = 32"
  by (rule fixed_bytes_sol_static) simp_all

interpretation sol_u256: static_codec SolidityABI "uint_sol_encoder SolidityABI :: u256 encoder" "\<lambda>_. True"
  by (rule uint_sol_static) simp_all

interpretation sol_i256: static_codec SolidityABI "signed_sol_encoder SolidityABI :: u256 encoder" "\<lambda>_. True"
  by (rule uint_sol_static) simp_all

interpretation compact_u8: static_codec CompactABI "u8_encoder CompactABI" "\<lambda>_. True"
  by (rule u8_static) simp

interpretation compact_bool: static_codec CompactABI "bool_encoder CompactABI" "\<lambda>_. True"
  by (rule bool_static) simp

interpretation compact_u32: static_codec CompactABI "int_encoder CompactABI False :: u32 encoder" "\<lambda>_. True"
  by (rule int_static) simp_all

interpretation compact_u64: static_codec CompactABI "int_encoder CompactABI False :: u64 encoder" "\<lambda>_. True"
  by (rule int_static) simp_all

interpretation compact_address: static_codec CompactABI "address_encoder CompactABI" "\<lambda>_. True"
  by (rule address_static) simp_all

interpretation compact_b256: static_codec CompactABI "fixed_bytes_encoder CompactABI 32" "\<lambda>v. length v = 32"
  by (rule fixed_bytes_static) simp_all

interpretation compact_u256: static_codec CompactABI "uint_encoder CompactABI :: u256 encoder" "\<lambda>_. True"
  by (rule uint_static) simp_all

interpretation compact_i256: static_codec CompactABI "signed_encoder CompactABI :: u256 encoder" "\<lambda>_. True"
  by (rule uint_static) simp_all

section \<open>Properties\<close>

text \<open>
  C12. Every machine integer (16, 32 or 64 bits, signed or not) written at an aligned offset of
  any buffer is read back unchanged in every well-formed mode; the buffer grows exactly to the
  end of the aligned word, and no byte outside this word changes.
\<close>

theorem int_round_trip:
  fixes v :: "'a::len word"
  assumes "wf_abi m" and "LENGTH('a) \<in> {16, 32, 64}" and "ALIGN m dvd off"
    and "off + al_up m (LENGTH('a) div 8) \<le> isize_max m" and "length b \<le> isize_max m"
  shows "\<exists>b'. encode (int_encoder m is_signed) v b off = Ok b' \<and> decode (int_encoder m is_signed) b' off = Ok v \<and>
     length b' = max (length b) (off + al_up m (LENGTH('a) div 8)) \<and>
     (\<forall>j n. j + n \<le> length b \<longrightarrow> j + n \<le> off \<or> off + al_up m (LENGTH('a) div 8) \<le> j \<longrightarrow>
        window b' j n = window b j n)"
proof -
  have h: "HEADER_SIZE (int_encoder m is_signed :: 'a word encoder) = LENGTH('a) div 8"
    by (simp add: int_encoder_def)
  show ?thesis
    using static_codec.stores [OF int_static [OF assms(1,2), of is_signed], where v = v and off = off and b = b] assms(3-5)
    unfolding h by simp
qed

theorem int_round_trip_witness:
  "wf_abi SolidityABI \<and> (\<exists>b'. encode (int_encoder SolidityABI True) (- 5 :: 32 word) [1, 2, 3] 32 = Ok b' \<and>
     decode (int_encoder SolidityABI True) b' 32 = Ok (- 5 :: 32 word) \<and> window b' 0 3 = [1, 2, 3])"
proof -
  have al: "al_up SolidityABI (LENGTH(32) div 8) = 32" by code_simp
  from int_round_trip [where 'a = 32, of SolidityABI 32 "[1, 2, 3]" True "- 5"]
  obtain b' where b': "encode (int_encoder SolidityABI True) (- 5 :: 32 word) [1, 2, 3] 32 = Ok b'"
    "decode (int_encoder SolidityABI True) b' 32 = Ok (- 5 :: 32 word)"
    and fr: "\<forall>j n. j + n \<le> length [1, 2, 3 :: byte] \<longrightarrow> j + n \<le> 32 \<or> 32 + 32 \<le> j \<longrightarrow>
      window b' j n = window [1, 2, 3] j n"
    unfolding al by auto
  have "window b' 0 3 = [1, 2, 3]" using fr [rule_format, of 0 3] by (simp add: window_def)
  with b' show ?thesis by auto
qed



text \<open>
  In Solidity mode an \<open>address\<close> and a \<open>uint256\<close> are one 32-byte big-endian word, the address
  left-padded with zeros: the layout the Solidity ABI prescribes.
\<close>

theorem sol_word_layout:
  "encode (uint_sol_encoder SolidityABI) (v :: u256) [] 0 = Ok (to_be_bytes v) \<and>
   encode (address_sol_encoder SolidityABI) a [] 0 = Ok (replicate 12 0 @ to_be_bytes a)"
proof
  have ub: "uint_bytes TYPE(256) = 32" by (simp add: uint_bytes_def)
  have e: "ensure_buf_size [] 32 = replicate 32 0" by (simp add: ensure_conv)
  show "encode (uint_sol_encoder SolidityABI) v [] 0 = Ok (to_be_bytes v)"
    by (simp add: uint_sol_encoder_def uint_sol_encode_Ok ub e blit_def to_be_bytes_def write_uint_def)
  have "address_sol_encode SolidityABI a [] 0 = Ok (blit (replicate 32 0) 0 (replicate 12 0 @ to_be_bytes a))"
    using write_halves(1) [of "replicate 12 0" "to_be_bytes a" 0 "replicate 32 0"]
    by (simp add: address_sol_encode_def sol_get_aligned e)
  then show "encode (address_sol_encoder SolidityABI) a [] 0 = Ok (replicate 12 0 @ to_be_bytes a)"
    by (simp add: address_sol_encoder_def blit_def)
qed


text \<open>
  In Solidity mode an optional \<open>uint256\<close> does not survive a round trip: \<open>decode\<close> reads the
  presence flag from the last byte of the value, so \<open>Some 0\<close> comes back as \<open>None\<close>, while an
  optional \<open>u32\<close> in compact mode does survive.
\<close>

theorem option_flag_clash:
  "oc_bind (encode (option_encoder SolidityABI (uint_sol_encoder SolidityABI) 0) (Some (0 :: u256)) [] 0)
     (\<lambda>b. decode (option_encoder SolidityABI (uint_sol_encoder SolidityABI) (0 :: u256)) b 0) = Ok None \<and>
   oc_bind (encode (option_encoder CompactABI (int_encoder CompactABI False) 0) (Some (0 :: u32)) [] 0)
     (\<lambda>b. decode (option_encoder CompactABI (int_encoder CompactABI False) (0 :: u32)) b 0) = Ok (Some 0)"
  by (rule conjI; code_simp)

end
