(* ===== verification/Codec_Bytes.thy ===== *)
theory Codec_Bytes
  imports Codec_Primitive
begin

text \<open>
  Byte strings: the head-and-tail layout of \<open>bytes_codec.rs\<close>, and the encoders of \<open>Bytes\<close> and
  \<open>String\<close> (\<open>evm.rs\<close>) in both modes. The locale \<open>lawful_codec\<close> is the contract every encoder keeps,
  dynamic ones included: encoding overwrites the reserved header and appends a tail, and any
  buffer that carries the header and the tail at their places decodes to the value, whatever
  else was written to it before or after.
\<close>

section \<open>bytes_codec.rs\<close>

definition write_bytes_solidity :: "abi \<Rightarrow> buf \<Rightarrow> nat \<Rightarrow> byte list \<Rightarrow> u32 \<Rightarrow> (buf \<times> nat) decoded" where
  "write_bytes_solidity m b off data elements =
     (let b1 = (if length b < off then resize b off else b);
          data_offset = length b1
      in oc_bind (write_u32_aligned m b1 data_offset elements) (\<lambda>b2.
         let b3 = b2 @ data in Ok (b3, usub m (length b3) data_offset)))"

definition write_bytes_wasm :: "abi \<Rightarrow> buf \<Rightarrow> nat \<Rightarrow> byte list \<Rightarrow> (buf \<times> nat) decoded" where
  "write_bytes_wasm m b off data =
     (let aligned_elem_size = al_up m 4;
          aligned_header_size = umul m aligned_elem_size 2;
          b1 = (if length b < uadd m off aligned_header_size
                then resize b (uadd m off aligned_header_size) else b);
          data_offset = length b1
      in oc_bind (write_u32_aligned m b1 off (word_of_nat data_offset)) (\<lambda>b2.
         oc_bind (write_u32_aligned m b2 (uadd m off aligned_elem_size) (word_of_nat (length data))) (\<lambda>b3.
         let b4 = b3 @ data in Ok (b4, usub m (length b4) data_offset))))"

definition write_bytes :: "abi \<Rightarrow> bool \<Rightarrow> buf \<Rightarrow> nat \<Rightarrow> byte list \<Rightarrow> u32 \<Rightarrow> (buf \<times> nat) decoded" where
  "write_bytes m sol_mode b off data elements =
     (if sol_mode then write_bytes_solidity m b off data elements
      else write_bytes_wasm m b off data)"

definition read_bytes_header_wasm :: "abi \<Rightarrow> buf \<Rightarrow> nat \<Rightarrow> (nat \<times> nat) decoded" where
  "read_bytes_header_wasm m b off =
     (let aligned_elem_size = al_up m 4
      in oc_bind (ok_or (checked_mul_usize (usize_max m) aligned_elem_size 2) (Decoding DecodingOverflow)) (\<lambda>header_size.
         oc_bind (ok_or (checked_add_usize (usize_max m) off header_size) (Decoding DecodingOverflow)) (\<lambda>header_end.
         if length b < header_end
         then Err (Decoding (BufferTooSmall header_end (length b) ''buffer too small to read bytes header''))
         else oc_bind (read_u32_aligned m b off) (\<lambda>data_offset.
              oc_bind (read_u32_aligned m b (uadd m off aligned_elem_size)) (\<lambda>data_len.
              Ok (unat data_offset, unat data_len))))))"

definition read_bytes_header_solidity :: "abi \<Rightarrow> buf \<Rightarrow> nat \<Rightarrow> (nat \<times> nat) decoded" where
  "read_bytes_header_solidity m b off =
     oc_bind (read_u32_aligned m b off) (\<lambda>data_offset.
     oc_bind (read_u32_aligned m b (unat data_offset)) (\<lambda>data_len.
     Ok (unat data_offset, unat data_len)))"

definition read_bytes_header :: "abi \<Rightarrow> bool \<Rightarrow> buf \<Rightarrow> nat \<Rightarrow> (nat \<times> nat) decoded" where
  "read_bytes_header m sol_mode b off =
     (if sol_mode then read_bytes_header_solidity m b off else read_bytes_header_wasm m b off)"

definition read_bytes :: "abi \<Rightarrow> bool \<Rightarrow> buf \<Rightarrow> nat \<Rightarrow> byte list decoded" where
  "read_bytes m sol_mode b off =
     oc_bind (read_bytes_header m sol_mode b off) (\<lambda>(data_offset, data_len).
     if sol_mode
     then oc_bind (ok_or (checked_add_usize (usize_max m) data_offset 32) (Decoding DecodingOverflow)) (\<lambda>data_start.
          checked_decode_slice m b data_start data_len ''bytes body exceeds input'')
     else checked_decode_slice m b data_offset data_len ''bytes body exceeds input'')"

section \<open>Bytes and String (evm.rs)\<close>

definition pad_to_align :: "abi \<Rightarrow> buf \<Rightarrow> buf" where
  "pad_to_align m b =
     (if length b mod ALIGN m \<noteq> 0
      then (let padding = ALIGN m - length b mod ALIGN m in resize b (uadd m (length b) padding))
      else b)"

definition bytes_sol_encode :: "abi \<Rightarrow> byte list \<Rightarrow> buf \<Rightarrow> nat \<Rightarrow> buf decoded" where
  "bytes_sol_encode m v b off =
     (let aligned_header_size = align_up (usize_max m) 32 32;
          b1 = (if length b < uadd m off aligned_header_size
                then resize b (uadd m off aligned_header_size) else b)
      in oc_bind (write_u32_aligned m b1 off (word_of_nat (length b1))) (\<lambda>b2.
         oc_bind (write_bytes m True b2 (length b2) v (word_of_nat (length v))) (\<lambda>(b3, _).
         Ok (pad_to_align m b3))))"

definition bytes_sol_encoder :: "abi \<Rightarrow> byte list encoder" where
  "bytes_sol_encoder m = \<lparr>HEADER_SIZE = 32, IS_DYNAMIC = True,
     encode = bytes_sol_encode m, decode = read_bytes m True,
     partial_decode = read_bytes_header m True\<rparr>"

definition bytes_compact_encode :: "abi \<Rightarrow> byte list \<Rightarrow> buf \<Rightarrow> nat \<Rightarrow> buf decoded" where
  "bytes_compact_encode m v b off =
     (let aligned_el_size = al_up m 4;
          b1 = (if length b < uadd m off aligned_el_size
                then resize b (uadd m off aligned_el_size) else b)
      in oc_bind (write_bytes m False b1 off v (word_of_nat (length v))) (\<lambda>(b2, _).
         Ok (pad_to_align m b2)))"

definition bytes_compact_encoder :: "abi \<Rightarrow> byte list encoder" where
  "bytes_compact_encoder m = \<lparr>HEADER_SIZE = 4 * 2, IS_DYNAMIC = True,
     encode = bytes_compact_encode m, decode = read_bytes m False,
     partial_decode = read_bytes_header m False\<rparr>"

text \<open>
  A \<open>String\<close> is its UTF-8 bytes. \<open>from_utf8\<close> of the standard library accepts exactly the
  well-formed sequences of the Unicode standard (shortest form, no surrogates, up to U+10FFFF).
\<close>

definition utf8_cont :: "byte \<Rightarrow> bool" where
  "utf8_cont b = (0x80 \<le> b \<and> b \<le> 0xBF)"

fun valid_utf8 :: "byte list \<Rightarrow> bool" where
  "valid_utf8 [] = True"
| "valid_utf8 (a # r) =
     (if a < 0x80 then valid_utf8 r
      else case r of
        [] \<Rightarrow> False
      | b # r2 \<Rightarrow>
          if 0xC2 \<le> a \<and> a \<le> 0xDF then utf8_cont b \<and> valid_utf8 r2
          else (case r2 of
            [] \<Rightarrow> False
          | c # r3 \<Rightarrow>
              if 0xE0 \<le> a \<and> a \<le> 0xEF
              then (if a = 0xE0 then 0xA0 \<le> b \<and> b \<le> 0xBF
                    else if a = 0xED then 0x80 \<le> b \<and> b \<le> 0x9F
                    else utf8_cont b) \<and> utf8_cont c \<and> valid_utf8 r3
              else (case r3 of
                [] \<Rightarrow> False
              | d # r4 \<Rightarrow>
                  0xF0 \<le> a \<and> a \<le> 0xF4 \<and>
                  (if a = 0xF0 then 0x90 \<le> b \<and> b \<le> 0xBF
                   else if a = 0xF4 then 0x80 \<le> b \<and> b \<le> 0x8F
                   else utf8_cont b) \<and> utf8_cont c \<and> utf8_cont d \<and> valid_utf8 r4)))"

definition from_utf8 :: "byte list \<Rightarrow> byte list decoded" where
  "from_utf8 bs =
     (if valid_utf8 bs then Ok bs
      else Err (Decoding (InvalidData ''failed to decode string from utf8'')))"

definition string_sol_encoder :: "abi \<Rightarrow> byte list encoder" where
  "string_sol_encoder m = \<lparr>HEADER_SIZE = HEADER_SIZE (bytes_sol_encoder m), IS_DYNAMIC = True,
     encode = bytes_sol_encode m,
     decode = (\<lambda>b off. oc_bind (decode (bytes_sol_encoder m) b off) from_utf8),
     partial_decode = partial_decode (bytes_sol_encoder m)\<rparr>"

definition string_compact_encoder :: "abi \<Rightarrow> byte list encoder" where
  "string_compact_encoder m = \<lparr>HEADER_SIZE = HEADER_SIZE (bytes_compact_encoder m), IS_DYNAMIC = True,
     encode = bytes_compact_encode m,
     decode = (\<lambda>b off. oc_bind (decode (bytes_compact_encoder m) b off) from_utf8),
     partial_decode = partial_decode (bytes_compact_encoder m)\<rparr>"

section \<open>The contract of all encoders\<close>

text \<open>Buffers stay below 2 GiB, so that every position fits an \<open>isize\<close> and a \<open>u32\<close>.\<close>

abbreviation max_buf :: nat where
  "max_buf \<equiv> 2147483647"

locale lawful_codec =
  fixes m :: abi
    and E :: "'a encoder"
    and hs :: nat
    and sz :: "'a \<Rightarrow> nat"
    and valid :: "'a \<Rightarrow> bool"
  assumes wf: "wf_abi m"
    and encode_split:
      "valid v \<Longrightarrow> ALIGN m dvd off \<Longrightarrow> off + hs \<le> length b \<Longrightarrow> length b + sz v \<le> max_buf \<Longrightarrow>
       \<exists>H t. length H = hs \<and> length t \<le> sz v \<and> encode E v b off = Ok (blit b off H @ t) \<and>
         (\<forall>b'. length b + length t \<le> length b' \<longrightarrow> length b' \<le> max_buf \<longrightarrow>
            window b' off hs = H \<longrightarrow> window b' (length b) (length t) = t \<longrightarrow> decode E b' off = Ok v)"
    and encode_empty: "valid v \<Longrightarrow> hs \<le> max_buf \<Longrightarrow> encode E v [] 0 = encode E v (replicate hs 0) 0"
    and no_panic: "length b \<le> max_buf \<Longrightarrow> ALIGN m dvd off \<Longrightarrow> off + hs \<le> max_buf \<Longrightarrow> decode E b off \<noteq> Panic"
begin

lemma top_round_trip:
  assumes "valid v" "hs + sz v \<le> max_buf"
  shows "\<exists>b. encode E v [] 0 = Ok b \<and> decode E b 0 = Ok v \<and> hs \<le> length b \<and> length b \<le> hs + sz v"
proof -
  obtain H t where "length H = hs" "length t \<le> sz v"
    "encode E v (replicate hs 0) 0 = Ok (blit (replicate hs 0) 0 H @ t)"
    and d: "\<forall>b'. length (replicate hs (0::byte)) + length t \<le> length b' \<longrightarrow> length b' \<le> max_buf \<longrightarrow>
            window b' 0 hs = H \<longrightarrow> window b' (length (replicate hs (0::byte))) (length t) = t \<longrightarrow> decode E b' 0 = Ok v"
    using encode_split [OF assms(1), of 0 "replicate hs 0"] assms(2) by auto
  moreover then have "decode E (blit (replicate hs 0) 0 H @ t) 0 = Ok v"
    using assms(2) by (intro d [rule_format]) (auto simp: blit_def window_def)
  ultimately show ?thesis using encode_empty [OF assms(1)] assms(2) by auto
qed

lemma framed_round_trip:
  assumes "valid v" "ALIGN m dvd off" "off + hs \<le> length b" "length b + sz v \<le> max_buf"
  shows "\<exists>b'. encode E v b off = Ok b' \<and> decode E b' off = Ok v \<and>
     (\<forall>j n. j + n \<le> length b \<longrightarrow> j + n \<le> off \<or> off + hs \<le> j \<longrightarrow> window b' j n = window b j n)"
proof -
  obtain H t where ht: "length H = hs" "length t \<le> sz v" "encode E v b off = Ok (blit b off H @ t)"
    and d: "\<forall>b'. length b + length t \<le> length b' \<longrightarrow> length b' \<le> max_buf \<longrightarrow>
            window b' off hs = H \<longrightarrow> window b' (length b) (length t) = t \<longrightarrow> decode E b' off = Ok v"
    using encode_split [OF assms] by (elim exE conjE)
  have pre: "window (blit b off H @ t) j n = window (blit b off H) j n" if "j + n \<le> length b" for j n
    using that assms(3) ht(1) by (simp add: window_def)
  have "decode E (blit b off H @ t) off = Ok v"
    using ht assms pre [of off hs] by (intro d [rule_format]) (auto simp: window_blit_same, simp add: window_def)
  moreover have "window (blit b off H @ t) j n = window b j n"
    if "j + n \<le> length b" "j + n \<le> off \<or> off + hs \<le> j" for j n
    using that ht(1) assms(3) pre [of j n] by (simp add: window_blit_disjoint)
  ultimately show ?thesis using ht(3) by blast
qed

end

section \<open>Byte strings keep the contract\<close>

lemma unat_u32 [simp]: "n \<le> max_buf \<Longrightarrow> unat (word_of_nat n :: u32) = n"
  by (simp add: unat_of_nat)

lemma isize_max_ge: "wf_abi m \<Longrightarrow> max_buf \<le> isize_max m"
  using wf_abiD(4) [of m] by linarith

lemma read_u32_at:
  assumes "wf_abi m" "off + al_up m 4 \<le> length b" "length b \<le> isize_max m"
    and "window b (u32_pos m off) 4 = write_uint (order m) 4 (unat x)"
  shows "read_u32_aligned m b off = Ok x"
  using assms by (simp add: read_u32_aligned_Ok read_write_u32)

lemma pad_to_align_ex:
  assumes "wf_abi m" "length b \<le> max_buf"
  obtains p where "pad_to_align m b = b @ replicate p 0" "p < ALIGN m"
proof -
  note al = wf_abiD(2,3) [OF assms(1)]
  have le: "length b + ALIGN m \<le> usize_max m" using al assms wf_abiD(4) [OF assms(1)] by linarith
  show ?thesis
  proof (cases "length b mod ALIGN m = 0")
    case True
    then show ?thesis using al that [of 0] by (simp add: pad_to_align_def)
  next
    case False
    then have "uadd m (length b) (ALIGN m - length b mod ALIGN m) = length b + (ALIGN m - length b mod ALIGN m)"
      using le by simp
    moreover have "0 < ALIGN m - length b mod ALIGN m" using al by simp
    ultimately have "pad_to_align m b = b @ replicate (ALIGN m - length b mod ALIGN m) 0"
      using False unfolding pad_to_align_def resize_def Let_def by simp
    then show ?thesis using False al that [of "ALIGN m - length b mod ALIGN m"] by simp
  qed
qed

lemma window_take: "window b i k = t \<Longrightarrow> j + n \<le> k \<Longrightarrow> window b (i + j) n = window t j n"
  by (auto simp: window_of_window)

lemma write_u32_grow:
  assumes "wf_abi m" "length b + al_up m 4 \<le> isize_max m"
  shows "write_u32_aligned m b (length b) x =
     Ok (b @ blit (replicate (al_up m 4) 0) (u32_pos m 0) (write_uint (order m) 4 (unat x)))"
proof -
  have "length b \<le> length b + al_up m 4 - 4" using al_up_4 [OF assms(1)] by linarith
  then show ?thesis
    using assms al_up_4 [OF assms(1)]
    by (simp add: write_u32_aligned_Ok ensure_conv blit_def u32_pos_def add.commute)
qed

lemma u32_pos_shift: "wf_abi m \<Longrightarrow> u32_pos m off = off + u32_pos m 0"
  using al_up_4 [of m] by (simp add: u32_pos_def)

lemma bytes_sol_encode_eq:
  assumes "wf_abi m" "ALIGN m = 32" "off + 32 \<le> length b" "length b + 32 + length v + 32 \<le> max_buf"
  shows "\<exists>p. p < 32 \<and> bytes_sol_encode m v b off =
     Ok (blit b (u32_pos m off) (write_uint (order m) 4 (length b)) @
        blit (replicate 32 0) (u32_pos m 0) (write_uint (order m) 4 (length v)) @ v @ replicate p 0)"
proof -
  note isz = isize_max_ge [OF assms(1)]
  have al4: "al_up m 4 = 32"
    using al_up_eq [OF assms(1), of 4] assms(2) wf_abiD(4) [OF assms(1)] by simp
  have pos: "u32_pos m off + 4 \<le> length b" using u32_pos_in [OF assms(1), of off] al4 assms(3) by simp
  have pos0: "u32_pos m 0 + 4 \<le> 32" using u32_pos_in [OF assms(1), of 0] al4 by simp
  let ?b2 = "blit b (u32_pos m off) (write_uint (order m) 4 (length b))"
  let ?w = "blit (replicate 32 0) (u32_pos m 0) (write_uint (order m) 4 (length v))"
  have e: "uadd m off 32 = off + 32" using assms(3,4) isz by (intro usize_add_exact) linarith
  have w1: "write_u32_aligned m b off (word_of_nat (length b)) = Ok ?b2"
    using assms isz al4 by (simp add: write_u32_aligned_Ok)
  have w2: "write_u32_aligned m ?b2 (length ?b2) (word_of_nat (length v)) = Ok (?b2 @ ?w)"
    using assms(1,4) isz al4 pos write_u32_grow [of m ?b2 "word_of_nat (length v)"] by simp
  obtain p where p: "pad_to_align m (?b2 @ ?w @ v) = (?b2 @ ?w @ v) @ replicate p 0" "p < ALIGN m"
    using pad_to_align_ex [OF assms(1), of "?b2 @ ?w @ v"] assms pos pos0 by auto
  have "bytes_sol_encode m v b off = Ok (pad_to_align m (?b2 @ ?w @ v))"
    using assms e w1 w2 pos by (simp add: bytes_sol_encode_def write_bytes_def write_bytes_solidity_def Let_def)
  then show ?thesis using p assms(2) by auto
qed

lemma read_bytes_sol_Ok:
  assumes "wf_abi m" "ALIGN m = 32" "off + 32 \<le> length b" "d + 32 + length v \<le> length b" "length b \<le> max_buf"
    and "window b (u32_pos m off) 4 = write_uint (order m) 4 d"
    and "window b (u32_pos m d) 4 = write_uint (order m) 4 (length v)"
    and "window b (d + 32) (length v) = v"
  shows "read_bytes m True b off = Ok v"
proof -
  note isz = isize_max_ge [OF assms(1)]
  have al4: "al_up m 4 = 32"
    using al_up_eq [OF assms(1), of 4] assms(2) wf_abiD(4) [OF assms(1)] by simp
  have "read_u32_aligned m b off = Ok (word_of_nat d)"
    using assms isz al4 by (intro read_u32_at) auto
  moreover have "read_u32_aligned m b d = Ok (word_of_nat (length v))"
    using assms isz al4 by (intro read_u32_at) auto
  moreover have "d + 32 \<le> usize_max m" using assms(4,5) isz by linarith
  ultimately show ?thesis
    using assms isz by (simp add: read_bytes_def read_bytes_header_def read_bytes_header_solidity_def
        checked_add_usize_def checked_decode_slice_Ok)
qed

lemma read_bytes_no_panic:
  assumes "wf_abi m" "length b \<le> max_buf"
  shows "read_bytes m sol b off \<noteq> Panic"
proof -
  have np: "read_u32_aligned m b i \<noteq> Panic" for i
    using assms isize_max_ge [OF assms(1)] by (intro read_u32_aligned_no_panic) auto
  show ?thesis
    by (auto simp: read_bytes_def read_bytes_header_def read_bytes_header_solidity_def
        read_bytes_header_wasm_def Let_def oc_simps np split: if_splits)
qed

lemma read_bytes_length: "read_bytes m sol b off = Ok d \<Longrightarrow> length d \<le> length b"
  by (auto simp: read_bytes_def checked_decode_slice_def oc_simps split: if_splits)

lemma bytes_sol_lawful:
  assumes "wf_abi m" "ALIGN m = 32"
  shows "lawful_codec m (bytes_sol_encoder m) 32 (\<lambda>v. 64 + length v) (\<lambda>_. True)"
proof (unfold_locales, goal_cases)
  case (2 v off b)
  then have b: "off + 32 \<le> length b" "length b + 32 + length v + 32 \<le> max_buf" by simp_all
  have al4: "al_up m 4 = 32"
    using al_up_eq [OF assms(1), of 4] assms(2) wf_abiD(4) [OF assms(1)] by simp
  have pos0: "u32_pos m 0 + 4 \<le> 32" using u32_pos_in [OF assms(1), of 0] al4 by simp
  define H where "H = blit (window b off 32) (u32_pos m 0) (write_uint (order m) 4 (length b))"
  define w where "w = blit (replicate 32 0) (u32_pos m 0) (write_uint (order m) 4 (length v))"
  have lw: "length w = 32" using pos0 by (simp add: w_def)
  obtain p where p: "p < 32" "bytes_sol_encode m v b off = Ok (blit b off H @ w @ v @ replicate p 0)"
    using bytes_sol_encode_eq [OF assms b] blit_inside [OF b(1), of "u32_pos m 0"] pos0
    unfolding u32_pos_shift [OF assms(1), of off] by (auto simp: H_def w_def)
  have "decode (bytes_sol_encoder m) b' off = Ok v"
    if b': "length b + length (w @ v @ replicate p 0) \<le> length b'" "length b' \<le> max_buf" "window b' off 32 = H"
      "window b' (length b) (length (w @ v @ replicate p 0)) = w @ v @ replicate p 0" for b'
  proof -
    have "window b' (off + u32_pos m 0) 4 = window H (u32_pos m 0) 4"
      using b'(3) pos0 by (rule window_take)
    also have "\<dots> = write_uint (order m) 4 (length b)"
      using pos0 b(1) unfolding H_def by (intro window_blit_same) auto
    finally have h: "window b' (u32_pos m off) 4 = write_uint (order m) 4 (length b)"
      unfolding u32_pos_shift [OF assms(1), of off] .
    have "window b' (length b + u32_pos m 0) 4 = window (w @ v @ replicate p 0) (u32_pos m 0) 4"
      using b'(4) pos0 lw by (intro window_take) auto
    also have "\<dots> = window w (u32_pos m 0) 4" using pos0 lw by (simp add: window_def)
    also have "\<dots> = write_uint (order m) 4 (length v)"
      using pos0 unfolding w_def by (intro window_blit_same) auto
    finally have l: "window b' (u32_pos m (length b)) 4 = write_uint (order m) 4 (length v)"
      unfolding u32_pos_shift [OF assms(1), of "length b"] .
    have "window b' (length b + 32) (length v) = window (w @ v @ replicate p 0) 32 (length v)"
      using b'(4) lw by (intro window_take) auto
    also have "\<dots> = v" using lw by (simp add: window_def)
    finally have d: "window b' (length b + 32) (length v) = v" .
    show ?thesis
      using read_bytes_sol_Ok [OF assms _ _ b'(2) h l d] b'(1) b lw by (simp add: bytes_sol_encoder_def)
  qed
  moreover have "length H = 32" using pos0 b(1) by (simp add: H_def)
  moreover have "length (w @ v @ replicate p 0) \<le> 64 + length v" using p(1) lw by simp
  ultimately show ?case
    using p(2) by (intro exI [of _ H] exI [of _ "w @ v @ replicate p 0"]) (auto simp: bytes_sol_encoder_def)
next
  case (3 v)
  have al4: "al_up m 4 = 32"
    using al_up_eq [OF assms(1), of 4] assms(2) wf_abiD(4) [OF assms(1)] by simp
  then show ?case
    using assms wf_abiD(4) [OF assms(1)]
    by (simp add: bytes_sol_encoder_def bytes_sol_encode_def Let_def resize_def)
qed (use assms in \<open>auto simp: bytes_sol_encoder_def read_bytes_no_panic\<close>)

lemma write_u32_compact:
  assumes "wf_abi m" "al_up m 4 = 4" "off + 4 \<le> isize_max m"
  shows "write_u32_aligned m b off x = Ok (blit (ensure_buf_size b (off + 4)) off (write_uint (order m) 4 (unat x)))"
  using write_u32_aligned_Ok [OF assms(1)] assms by (simp add: u32_pos_def)

lemma write_bytes_wasm_eq:
  assumes "wf_abi m" "al_up m 4 = 4" "off + 8 \<le> length b" "length b + length data \<le> max_buf"
  shows "write_bytes_wasm m b off data = Ok (blit b off
     (write_uint (order m) 4 (length b) @ write_uint (order m) 4 (length data)) @ data, length data)"
proof -
  note isz = isize_max_ge [OF assms(1)]
  have "off + 8 \<le> usize_max m" using assms(3,4) isz by linarith
  moreover have "blit (blit b off (write_uint (order m) 4 (length b))) (off + 4) (write_uint (order m) 4 (length data))
      = blit b off (write_uint (order m) 4 (length b) @ write_uint (order m) 4 (length data))"
    using blit_adjacent [of off "write_uint (order m) 4 (length b)" "write_uint (order m) 4 (length data)" b] assms(3)
    by simp
  ultimately show ?thesis
    using assms isz by (simp add: write_bytes_wasm_def Let_def write_u32_compact usize_mul_def)
qed

lemma read_bytes_compact_Ok:
  assumes "wf_abi m" "al_up m 4 = 4" "off + 8 \<le> length b" "d + length v \<le> length b" "length b \<le> max_buf"
    and "window b off 8 = write_uint (order m) 4 d @ write_uint (order m) 4 (length v)"
    and "window b d (length v) = v"
  shows "read_bytes m False b off = Ok v"
proof -
  note isz = isize_max_ge [OF assms(1)]
  have "window b (off + 0) 4 = write_uint (order m) 4 d" "window b (off + 4) 4 = write_uint (order m) 4 (length v)"
    by (subst window_take [OF assms(6)]; simp add: window_def)+
  then have "read_u32_aligned m b off = Ok (word_of_nat d)"
    "read_u32_aligned m b (off + 4) = Ok (word_of_nat (length v))"
    using assms isz by (auto intro!: read_u32_at simp: u32_pos_def add.commute)
  moreover have "off + 8 \<le> usize_max m" "8 \<le> usize_max m" using assms(3,5) isz by linarith+
  ultimately show ?thesis
    using assms isz by (simp add: read_bytes_def read_bytes_header_def read_bytes_header_wasm_def
        checked_add_usize_def checked_mul_usize_def checked_decode_slice_Ok Let_def)
qed

lemma bytes_compact_lawful:
  assumes "wf_abi m" "al_up m 4 = 4"
  shows "lawful_codec m (bytes_compact_encoder m) 8 (\<lambda>v. length v + 32) (\<lambda>_. True)"
proof (unfold_locales, goal_cases)
  case (2 v off b)
  then have b: "off + 8 \<le> length b" "length b + length v + 32 \<le> max_buf" by simp_all
  define H where "H = write_uint (order m) 4 (length b) @ write_uint (order m) 4 (length v)"
  have "length (blit b off H @ v) \<le> max_buf" using b by (simp add: H_def)
  then obtain p where p: "pad_to_align m (blit b off H @ v) = (blit b off H @ v) @ replicate p 0" "p < ALIGN m"
    using pad_to_align_ex [OF assms(1)] by metis
  have "off + 4 \<le> usize_max m" using b isize_max_ge [OF assms(1)] by linarith
  then have enc: "encode (bytes_compact_encoder m) v b off = Ok (blit b off H @ v @ replicate p 0)"
    using b assms p(1) write_bytes_wasm_eq [OF assms b(1), of v]
    by (simp add: bytes_compact_encoder_def bytes_compact_encode_def write_bytes_def H_def)
  have dec: "decode (bytes_compact_encoder m) b' off = Ok v"
    if b': "length b + length (v @ replicate p 0) \<le> length b'" "length b' \<le> max_buf" "window b' off 8 = H"
      "window b' (length b) (length (v @ replicate p 0)) = v @ replicate p 0" for b'
  proof -
    have "window b' (length b + 0) (length v) = v"
      by (subst window_take [OF b'(4)]) (simp_all add: window_def)
    then show ?thesis
      using read_bytes_compact_Ok [OF assms, of off b' "length b" v] b b' by (simp add: bytes_compact_encoder_def H_def)
  qed
  have "length H = 8" "length (v @ replicate p 0) \<le> length v + 32"
    using p(2) wf_abiD(3) [OF assms(1)] by (simp_all add: H_def)
  then show ?case using enc dec
    by (intro exI [of _ H] exI [of _ "v @ replicate p 0"]) auto
next
  case (3 v)
  have "8 \<le> usize_max m" using wf_abiD(4) [OF assms(1)] by linarith
  moreover have "umul m 4 2 = 8" using \<open>8 \<le> usize_max m\<close> by simp
  ultimately show ?case
    using assms by (simp add: bytes_compact_encoder_def bytes_compact_encode_def write_bytes_def
        write_bytes_wasm_def Let_def resize_def flip: replicate_add)
qed (use assms in \<open>auto simp: bytes_compact_encoder_def read_bytes_no_panic\<close>)

text \<open>Strings are byte strings whose decoding checks the text.\<close>

lemma lawful_codec_checked:
  assumes E: "lawful_codec m E hs sz (\<lambda>_. True)"
    and enc: "encode E' = encode E"
    and dec: "\<And>b off. decode E' b off = oc_bind (decode E b off) from_utf8"
  shows "lawful_codec m E' hs sz valid_utf8"
proof -
  note lo = lawful_codec.wf [OF E] lawful_codec.encode_split [OF E, OF TrueI]
    lawful_codec.encode_empty [OF E, OF TrueI] lawful_codec.no_panic [OF E]
  show ?thesis
  proof (unfold_locales, goal_cases)
    case (2 v off b)
    from lo(2) [OF 2(2-4)] show ?case
      using 2(1) by (auto simp: enc dec from_utf8_def)
  next
    case (4 b off)
    then show ?case using lo(4) [of b off] by (auto simp: dec oc_simps from_utf8_def split: if_splits)
  qed (use lo in \<open>auto simp: enc\<close>)
qed

lemma string_lawful:
  shows "wf_abi m \<Longrightarrow> ALIGN m = 32 \<Longrightarrow>
      lawful_codec m (string_sol_encoder m) 32 (\<lambda>v. 64 + length v) valid_utf8"
    and "wf_abi m \<Longrightarrow> al_up m 4 = 4 \<Longrightarrow>
      lawful_codec m (string_compact_encoder m) 8 (\<lambda>v. length v + 32) valid_utf8"
  using lawful_codec_checked [OF bytes_sol_lawful, of m "string_sol_encoder m"]
    lawful_codec_checked [OF bytes_compact_lawful, of m "string_compact_encoder m"]
  by (simp_all add: string_sol_encoder_def string_compact_encoder_def bytes_sol_encoder_def bytes_compact_encoder_def)

text \<open>Every fixed-size encoder keeps the general contract, with an empty tail.\<close>

lemma static_lawful:
  assumes "static_codec m E valid"
  shows "lawful_codec m E (al_up m (HEADER_SIZE E)) (\<lambda>_. 0) valid"
proof -
  note wf = static_codec.wf_mode [OF assms(1)]
  note isz = isize_max_ge [OF wf]
  show ?thesis
  proof (unfold_locales, goal_cases)
    case (2 v off b)
    from static_codec.encode_window [OF assms(1) 2(1,2), of b] obtain w
      where w: "length w = al_up m (HEADER_SIZE E)"
        "encode E v b off = Ok (blit (ensure_buf_size b (off + al_up m (HEADER_SIZE E))) off w)"
        and d: "\<forall>b' i. ALIGN m dvd i \<longrightarrow> i + al_up m (HEADER_SIZE E) \<le> length b' \<longrightarrow>
              length b' \<le> isize_max m \<longrightarrow> window b' i (al_up m (HEADER_SIZE E)) = w \<longrightarrow> decode E b' i = Ok v"
      using 2 isz by auto
    have "\<forall>b'. length b \<le> length b' \<longrightarrow> length b' \<le> max_buf \<longrightarrow>
        window b' off (al_up m (HEADER_SIZE E)) = w \<longrightarrow> decode E b' off = Ok v"
      using d 2 isz by auto
    then show ?case using w 2 by (intro exI [of _ w] exI [of _ "[]"]) (simp add: window_def)
  next
    case (3 v)
    then show ?case
      using static_codec.encode_ensure [OF assms(1), of v 0 "[]"] isz by (simp add: ensure_conv)
  next
    case (4 b off)
    then show ?case using static_codec.decode_no_panic [OF assms(1)] isz by auto
  qed (use wf in auto)
qed

sublocale static_codec \<subseteq> general: lawful_codec m E "al_up m (HEADER_SIZE E)" "\<lambda>_. 0" valid
  by (rule static_lawful) (rule static_codec_axioms)

interpretation sol_bytes: lawful_codec SolidityABI "bytes_sol_encoder SolidityABI" 32 "\<lambda>v. 64 + length v" "\<lambda>_. True"
  by (rule bytes_sol_lawful) simp_all

interpretation sol_string: lawful_codec SolidityABI "string_sol_encoder SolidityABI" 32 "\<lambda>v. 64 + length v" valid_utf8
  by (rule string_lawful) simp_all

lemma compact_al_up_4: "al_up CompactABI 4 = 4"
  by code_simp

interpretation compact_bytes: lawful_codec CompactABI "bytes_compact_encoder CompactABI" 8 "\<lambda>v. length v + 32" "\<lambda>_. True"
  by (rule bytes_compact_lawful) (simp, rule compact_al_up_4)

interpretation compact_string: lawful_codec CompactABI "string_compact_encoder CompactABI" 8 "\<lambda>v. length v + 32" valid_utf8
  by (rule string_lawful) (simp, rule compact_al_up_4)

text \<open>
  C17. A byte string written into a reserved header of a Solidity-mode buffer is read back
  unchanged; of the bytes that were already in the buffer only the header word changes.
\<close>

theorem bytes_sol_round_trip:
  assumes "32 dvd off" "off + 32 \<le> length b" "length b + 64 + length v \<le> max_buf"
  shows "\<exists>b'. encode (bytes_sol_encoder SolidityABI) v b off = Ok b' \<and>
     decode (bytes_sol_encoder SolidityABI) b' off = Ok v \<and>
     (\<forall>j n. j + n \<le> length b \<longrightarrow> j + n \<le> off \<or> off + 32 \<le> j \<longrightarrow> window b' j n = window b j n)"
  using sol_bytes.framed_round_trip [of off b v] assms by simp

theorem bytes_sol_round_trip_witness:
  "\<exists>b'. encode (bytes_sol_encoder SolidityABI) [1, 2, 3] (replicate 64 7) 32 = Ok b' \<and>
     decode (bytes_sol_encoder SolidityABI) b' 32 = Ok [1, 2, 3] \<and> window b' 0 32 = replicate 32 7"
proof -
  from bytes_sol_round_trip [of 32 "replicate 64 7" "[1, 2, 3]"] obtain b' where
    "encode (bytes_sol_encoder SolidityABI) [1, 2, 3] (replicate 64 7) 32 = Ok b'"
    "decode (bytes_sol_encoder SolidityABI) b' 32 = Ok [1, 2, 3]"
    and fr: "\<And>j n. j + n \<le> 64 \<Longrightarrow> j + n \<le> 32 \<or> 32 + 32 \<le> j \<Longrightarrow> window b' j n = window (replicate 64 7) j n"
    by auto
  moreover have "window b' 0 32 = replicate 32 7" using fr [of 0 32] by (simp add: window_def)
  ultimately show ?thesis by blast
qed

text \<open>
  C18. In compact mode a well-formed UTF-8 text encoded into an empty buffer is read back
  unchanged, and decoding any bytes whatever gives a text or an error, never a panic.
\<close>

theorem string_compact_round_trip:
  assumes "valid_utf8 v" "length v + 40 \<le> max_buf"
  shows "(\<exists>b. encode (string_compact_encoder CompactABI) v [] 0 = Ok b \<and>
       decode (string_compact_encoder CompactABI) b 0 = Ok v \<and> length b \<le> length v + 40) \<and>
     (\<forall>b off. length b \<le> max_buf \<longrightarrow> 4 dvd off \<longrightarrow> off + 8 \<le> max_buf \<longrightarrow>
       decode (string_compact_encoder CompactABI) b off \<noteq> Panic)"
  using compact_string.top_round_trip [OF assms(1)] assms(2) compact_string.no_panic by force

theorem string_compact_round_trip_witness:
  "valid_utf8 [0xE2, 0x82, 0xAC, 0x21] \<and>
   (\<exists>b. encode (string_compact_encoder CompactABI) [0xE2, 0x82, 0xAC, 0x21] [] 0 = Ok b \<and>
     decode (string_compact_encoder CompactABI) b 0 = Ok [0xE2, 0x82, 0xAC, 0x21])"
proof -
  have "valid_utf8 [0xE2, 0x82, 0xAC, 0x21]" by (simp add: utf8_cont_def)
  then show ?thesis using string_compact_round_trip [of "[0xE2, 0x82, 0xAC, 0x21]"] by auto
qed

end
