(* ===== verification/Codec_Vec.thy ===== *)
theory Codec_Vec
  imports Codec_Bytes
begin

text \<open>
  Dynamic arrays (\<open>vec.rs\<close>) in both modes. Elements are encoded into a buffer of their own, first
  their headers side by side and behind them their tails; the result is the body of the vector.
  A vector of lawful elements is lawful again when the stride the encoder uses for the headers,
  \<open>max ALIGN HEADER_SIZE\<close>, is the stride the decoder uses, \<open>align_up HEADER_SIZE\<close>. Reserving memory
  for the result (\<open>try_reserve\<close>) always succeeds in the model.
\<close>

section \<open>vec.rs\<close>

fun vec_encode_items :: "abi \<Rightarrow> 'a encoder \<Rightarrow> nat \<Rightarrow> 'a list \<Rightarrow> nat \<Rightarrow> buf \<Rightarrow> buf decoded" where
  "vec_encode_items m T elem_size [] i b = Ok b"
| "vec_encode_items m T elem_size (x # xs) i b =
     oc_bind (encode T x b (umul m elem_size i)) (\<lambda>b'. vec_encode_items m T elem_size xs (Suc i) b')"

fun vec_decode_items :: "abi \<Rightarrow> 'a encoder \<Rightarrow> nat \<Rightarrow> nat \<Rightarrow> nat \<Rightarrow> buf \<Rightarrow> 'a list decoded" where
  "vec_decode_items m T element_header_size 0 i b = Ok []"
| "vec_decode_items m T element_header_size (Suc n) i b =
     oc_bind (ok_or (checked_mul_usize (usize_max m) i element_header_size) (Decoding DecodingOverflow)) (\<lambda>elem_offset.
     oc_bind (decode T b elem_offset) (\<lambda>x.
     oc_bind (vec_decode_items m T element_header_size n (Suc i) b) (\<lambda>xs. Ok (x # xs))))"

definition vec_compact_encode :: "abi \<Rightarrow> 'a encoder \<Rightarrow> 'a list \<Rightarrow> buf \<Rightarrow> nat \<Rightarrow> buf decoded" where
  "vec_compact_encode m T xs b off =
     (let aligned_elem_size = al_up m 4;
          aligned_header_size = umul m aligned_elem_size 3;
          b1 = (if length b < uadd m off aligned_header_size
                then resize b (uadd m off aligned_header_size) else b)
      in oc_bind (write_u32_aligned m b1 off (word_of_nat (length xs))) (\<lambda>b2.
         if xs = []
         then oc_bind (write_u32_aligned m b2 (uadd m off aligned_elem_size) (word_of_nat aligned_header_size))
                (\<lambda>b3. write_u32_aligned m b3 (uadd m off (umul m aligned_elem_size 2)) 0)
         else oc_bind (vec_encode_items m T (max (ALIGN m) (HEADER_SIZE T)) xs 0
                  (replicate (umul m (max (ALIGN m) (HEADER_SIZE T)) (length xs)) 0)) (\<lambda>data.
              oc_bind (write_bytes_wasm m b2 (uadd m off aligned_elem_size) data) (\<lambda>(b3, _). Ok b3))))"

definition vec_compact_decode :: "abi \<Rightarrow> 'a encoder \<Rightarrow> buf \<Rightarrow> nat \<Rightarrow> 'a list decoded" where
  "vec_compact_decode m T b off =
     (let aligned_header_el_size = al_up m 4
      in oc_bind (ok_or (checked_add_usize (usize_max m) off aligned_header_el_size) (Decoding DecodingOverflow)) (\<lambda>header_end.
         if length b < header_end
         then Err (Decoding (BufferTooSmall header_end (length b) ''failed to decode vector length''))
         else oc_bind (read_u32_aligned m b off) (\<lambda>data_len.
              if unat data_len = 0 then Ok []
              else oc_bind (read_bytes m False b (uadd m off aligned_header_el_size)) (\<lambda>data.
                   let element_header_size = al_up m (HEADER_SIZE T)
                   in oc_bind (validate_collection_body m (unat data_len) element_header_size (length data)) (\<lambda>_.
                      vec_decode_items m T element_header_size (unat data_len) 0 data)))))"

definition vec_compact_encoder :: "abi \<Rightarrow> 'a encoder \<Rightarrow> 'a list encoder" where
  "vec_compact_encoder m T = \<lparr>HEADER_SIZE = 4 * 3, IS_DYNAMIC = True,
     encode = vec_compact_encode m T, decode = vec_compact_decode m T,
     partial_decode = read_bytes_header m False\<rparr>"

definition vec_sol_encode :: "abi \<Rightarrow> 'a encoder \<Rightarrow> 'a list \<Rightarrow> buf \<Rightarrow> nat \<Rightarrow> buf decoded" where
  "vec_sol_encode m T xs b off =
     (let b1 = (if length b < uadd m off 32 then resize b (uadd m off 32) else b)
      in oc_bind (write_u32_aligned m b1 off (word_of_nat (length b1))) (\<lambda>b2.
         if xs = [] then write_u32_aligned m b2 (length b2) 0
         else oc_bind (vec_encode_items m T (max (ALIGN m) (HEADER_SIZE T)) xs 0
                  (replicate (umul m 32 (length xs)) 0)) (\<lambda>data.
              oc_bind (write_bytes_solidity m b2 (uadd m off 32) data (word_of_nat (length xs))) (\<lambda>(b3, _). Ok b3))))"

definition vec_sol_decode :: "abi \<Rightarrow> 'a encoder \<Rightarrow> buf \<Rightarrow> nat \<Rightarrow> 'a list decoded" where
  "vec_sol_decode m T b off =
     oc_bind (read_u32_aligned m b off) (\<lambda>data_offset.
     oc_bind (read_u32_aligned m b (unat data_offset)) (\<lambda>data_len.
     if unat data_len = 0 then Ok []
     else oc_bind (ok_or (checked_add_usize (usize_max m) (unat data_offset) 32) (Decoding DecodingOverflow)) (\<lambda>body_offset.
          oc_bind (checked_decode_slice_from b body_offset ''vector body exceeds input'') (\<lambda>chunk.
          let element_header_size = al_up m (HEADER_SIZE T)
          in oc_bind (validate_collection_body m (unat data_len) element_header_size (length chunk)) (\<lambda>_.
             vec_decode_items m T element_header_size (unat data_len) 0 chunk)))))"

definition vec_sol_encoder :: "abi \<Rightarrow> 'a encoder \<Rightarrow> 'a list encoder" where
  "vec_sol_encoder m T = \<lparr>HEADER_SIZE = 32, IS_DYNAMIC = True,
     encode = vec_sol_encode m T, decode = vec_sol_decode m T,
     partial_decode = read_bytes_header m True\<rparr>"

section \<open>The loop over the elements\<close>

lemma blit_append: "i + length w \<le> length b \<Longrightarrow> blit (b @ t) i w = blit b i w @ t"
  by (simp add: blit_def)

lemma vec_encode_items_split:
  assumes L: "lawful_codec m T s szT valid" and "ALIGN m dvd s"
    and "list_all valid xs" "(i + length xs) * s \<le> length b" "length b + sum_list (map szT xs) \<le> max_buf"
  shows "\<exists>H t. length H = length xs * s \<and> length t \<le> sum_list (map szT xs) \<and>
     vec_encode_items m T s xs i b = Ok (blit b (i * s) H @ t) \<and>
     (\<forall>b'. length b + length t \<le> length b' \<longrightarrow> length b' \<le> max_buf \<longrightarrow>
        window b' (i * s) (length H) = H \<longrightarrow> window b' (length b) (length t) = t \<longrightarrow>
        (\<forall>k<length xs. decode T b' ((i + k) * s) = Ok (xs ! k)))"
  using assms(3-5)
proof (induction xs arbitrary: i b)
  case Nil
  show ?case by (rule exI [of _ "[]"], rule exI [of _ "[]"]) simp
next
  case (Cons x xs)
  note isz = isize_max_ge [OF lawful_codec.wf [OF L]]
  have v: "valid x" "list_all valid xs" using Cons.prems(1) by simp_all
  have le: "i * s + s + length xs * s \<le> length b" using Cons.prems(2) by (simp add: algebra_simps)
  have e: "umul m s i = i * s" using le Cons.prems(3) isz by (simp add: mult.commute)
  have al: "ALIGN m dvd i * s" using assms(2) by simp
  have b0: "i * s + s \<le> length b" "length b + szT x \<le> max_buf"
    using le Cons.prems(3) by simp_all
  obtain H0 t0 where h0: "length H0 = s" "length t0 \<le> szT x" "encode T x b (i * s) = Ok (blit b (i * s) H0 @ t0)"
    and d0: "\<forall>b'. length b + length t0 \<le> length b' \<longrightarrow> length b' \<le> max_buf \<longrightarrow>
      window b' (i * s) s = H0 \<longrightarrow> window b' (length b) (length t0) = t0 \<longrightarrow> decode T b' (i * s) = Ok x"
    using lawful_codec.encode_split [OF L v(1) al b0] by (elim exE conjE)
  let ?b = "blit b (i * s) H0 @ t0"
  have lb: "length ?b = length b + length t0" using b0(1) h0(1) by simp
  have b1: "(Suc i + length xs) * s \<le> length ?b" "length ?b + sum_list (map szT xs) \<le> max_buf"
    using le Cons.prems(3) lb h0(2) by (simp_all add: algebra_simps)
  obtain H1 t1 where h1: "length H1 = length xs * s" "length t1 \<le> sum_list (map szT xs)"
      "vec_encode_items m T s xs (Suc i) ?b = Ok (blit ?b (Suc i * s) H1 @ t1)"
    and d1: "\<forall>b'. length ?b + length t1 \<le> length b' \<longrightarrow> length b' \<le> max_buf \<longrightarrow>
      window b' (Suc i * s) (length H1) = H1 \<longrightarrow> window b' (length ?b) (length t1) = t1 \<longrightarrow>
      (\<forall>k<length xs. decode T b' ((Suc i + k) * s) = Ok (xs ! k))"
    using Cons.IH [OF v(2) b1] by (elim exE conjE)
  have "blit ?b (Suc i * s) H1 = blit (blit b (i * s) H0) (i * s + length H0) H1 @ t0"
    using le h0(1) h1(1) by (subst blit_append) (simp_all add: add.commute)
  also have "\<dots> = blit b (i * s) (H0 @ H1) @ t0"
    using le h0(1) h1(1) by (subst blit_adjacent) simp_all
  finally have enc: "vec_encode_items m T s (x # xs) i b = Ok (blit b (i * s) (H0 @ H1) @ (t0 @ t1))"
    using e h0(3) h1(3) by simp
  have dec: "decode T b' ((i + k) * s) = Ok ((x # xs) ! k)"
    if b': "length b + length (t0 @ t1) \<le> length b'" "length b' \<le> max_buf"
      "window b' (i * s) (length (H0 @ H1)) = H0 @ H1" "window b' (length b) (length (t0 @ t1)) = t0 @ t1"
      "k < length (x # xs)" for b' k
  proof -
    have w: "window b' (i * s) s = H0" "window b' (i * s + s) (length H1) = H1"
      using b'(1,3) le h0(1) h1(1) window_append [of b' "i * s" s "length H1"] by simp_all
    have t: "window b' (length b) (length t0) = t0" "window b' (length b + length t0) (length t1) = t1"
      using b'(1,4) window_append [of b' "length b" "length t0" "length t1"] by simp_all
    show ?thesis
    proof (cases k)
      case 0
      then show ?thesis using d0 b'(1,2) w(1) t(1) by simp
    next
      case (Suc k')
      have "decode T b' ((Suc i + k') * s) = Ok (xs ! k')"
        using b'(1,2,5) w(2) t(2) lb Suc by (intro d1 [rule_format]) (simp_all add: add.commute)
      then show ?thesis using Suc by simp
    qed
  qed
  have len: "length (H0 @ H1) = length (x # xs) * s" "length (t0 @ t1) \<le> sum_list (map szT (x # xs))"
    using h0(1,2) h1(1,2) by simp_all
  show ?case
    by (intro exI [of _ "H0 @ H1"] exI [of _ "t0 @ t1"] conjI allI impI) (rule len enc dec; assumption)+
qed

lemma vec_decode_items_Ok:
  assumes "length xs = n" "\<And>k. k < n \<Longrightarrow> decode T b ((i + k) * s) = Ok (xs ! k)" "(i + n) * s \<le> usize_max m"
  shows "vec_decode_items m T s n i b = Ok xs"
  using assms
proof (induction n arbitrary: i xs)
  case (Suc n)
  then obtain y ys where xs: "xs = y # ys" "length ys = n" by (cases xs) auto
  have "i * s \<le> usize_max m" using Suc.prems(3) by (simp add: algebra_simps)
  moreover have "vec_decode_items m T s n (Suc i) b = Ok ys"
    using Suc.prems(2) [of "Suc _"] Suc.prems(3) xs by (intro Suc.IH) auto
  ultimately show ?case using Suc.prems(2) [of 0] xs by (simp add: checked_mul_usize_def)
qed simp

lemma vec_decode_items_no_panic:
  assumes "(i + n) * s \<le> max_buf" "\<And>k. k * s + s \<le> max_buf \<Longrightarrow> decode T b (k * s) \<noteq> Panic"
  shows "vec_decode_items m T s n i b \<noteq> Panic"
  using assms(1)
proof (induction n arbitrary: i)
  case (Suc n)
  have "i * s + s \<le> max_buf" using Suc.prems by (simp add: algebra_simps)
  moreover have "vec_decode_items m T s n (Suc i) b \<noteq> Panic" using Suc by simp
  ultimately show ?case using assms(2) by (auto simp: oc_simps checked_mul_usize_def)
qed simp

section \<open>Vectors keep the contract\<close>

text \<open>An aligned word that carries a \<open>u32\<close>, the rest of it as found.\<close>

definition u32_word :: "abi \<Rightarrow> byte list \<Rightarrow> u32 \<Rightarrow> byte list" where
  "u32_word m w x = blit w (u32_pos m 0) (write_uint (order m) 4 (unat x))"

lemma length_u32_word [simp]: "wf_abi m \<Longrightarrow> length w = al_up m 4 \<Longrightarrow> length (u32_word m w x) = al_up m 4"
  using u32_pos_in [of m 0] by (simp add: u32_word_def)

lemma write_u32_inside:
  assumes "wf_abi m" "off + al_up m 4 \<le> length b" "length b \<le> isize_max m"
  shows "write_u32_aligned m b off x = Ok (blit b off (u32_word m (window b off (al_up m 4)) x))"
proof -
  have "blit b (off + u32_pos m 0) (write_uint (order m) 4 (unat x)) =
      blit b off (u32_word m (window b off (al_up m 4)) x)"
    unfolding u32_word_def using assms(2) u32_pos_in [OF assms(1), of 0] by (intro blit_inside) auto
  then show ?thesis
    using assms by (simp add: write_u32_aligned_Ok u32_pos_shift [OF assms(1), of off])
qed

lemma read_u32_word:
  assumes "wf_abi m" "off + al_up m 4 \<le> length b" "length b \<le> isize_max m" "length w = al_up m 4"
    and "window b off (al_up m 4) = u32_word m w x"
  shows "read_u32_aligned m b off = Ok x"
proof (rule read_u32_at [OF assms(1-3)])
  note p = u32_pos_in [OF assms(1), of 0]
  have "window b (off + u32_pos m 0) 4 = window (u32_word m w x) (u32_pos m 0) 4"
    using p by (intro window_take [OF assms(5)]) simp
  also have "\<dots> = write_uint (order m) 4 (unat x)"
    unfolding u32_word_def using p assms(4) by (intro window_blit_same) auto
  finally show "window b (u32_pos m off) 4 = write_uint (order m) 4 (unat x)"
    using u32_pos_shift [OF assms(1), of off] by simp
qed

lemma vec_sol_encode_split:
  assumes "wf_abi m" "ALIGN m = 32" "HEADER_SIZE T \<le> 32" and L: "lawful_codec m T 32 szT valid"
    and xs: "list_all valid xs"
    and b: "off + 32 \<le> length b" "length b + (32 + 32 * length xs + sum_list (map szT xs)) \<le> max_buf"
  shows "\<exists>data. length data \<le> 32 * length xs + sum_list (map szT xs) \<and> 32 * length xs \<le> length data \<and>
     vec_sol_encode m T xs b off = Ok (blit b off (u32_word m (window b off 32) (word_of_nat (length b))) @
        u32_word m (replicate 32 0) (word_of_nat (length xs)) @ data) \<and>
     (\<forall>c. length data \<le> length c \<longrightarrow> length c \<le> max_buf \<longrightarrow> window c 0 (length data) = data \<longrightarrow>
        (\<forall>k<length xs. decode T c (k * 32) = Ok (xs ! k)))"
proof -
  note isz = isize_max_ge [OF assms(1)]
  have al4: "al_up m 4 = 32"
    using al_up_eq [OF assms(1), of 4] assms(2) wf_abiD(4) [OF assms(1)] by simp
  have e: "uadd m off 32 = off + 32" "umul m 32 (length xs) = 32 * length xs" using b isz by simp_all
  have mx: "max (ALIGN m) (HEADER_SIZE T) = 32" using assms(2,3) by simp
  let ?H = "u32_word m (window b off 32) (word_of_nat (length b))"
  have lH: "length ?H = 32" using b(1) length_u32_word [OF assms(1)] by (simp add: al4)
  have w1: "write_u32_aligned m b off (word_of_nat (length b)) = Ok (blit b off ?H)"
    using write_u32_inside [OF assms(1)] b isz by (simp add: al4)
  have w2: "write_u32_aligned m (blit b off ?H) (length b) x = Ok (blit b off ?H @ u32_word m (replicate 32 0) x)" for x
    using write_u32_grow [OF assms(1), of "blit b off ?H" x] b lH isz by (simp add: al4 u32_word_def)
  show ?thesis
  proof (cases "xs = []")
    case True
    then have "vec_sol_encode m T xs b off = Ok (blit b off ?H @ u32_word m (replicate 32 0) (word_of_nat (length xs)) @ [])"
      using w1 w2 [of 0] b lH e by (simp add: vec_sol_encode_def Let_def)
    with True show ?thesis by (intro exI [of _ "[]"]) auto
  next
    case False
    let ?z = "replicate (32 * length xs) (0 :: byte)"
    have z: "(0 + length xs) * 32 \<le> length ?z" "length ?z + sum_list (map szT xs) \<le> max_buf"
      using b by simp_all
    have al32: "ALIGN m dvd 32" using assms(2) by simp
    obtain H t where h: "length H = length xs * 32" "length t \<le> sum_list (map szT xs)"
        "vec_encode_items m T 32 xs 0 ?z = Ok (blit ?z (0 * 32) H @ t)"
      and d: "\<forall>b'. length ?z + length t \<le> length b' \<longrightarrow> length b' \<le> max_buf \<longrightarrow>
        window b' (0 * 32) (length H) = H \<longrightarrow> window b' (length ?z) (length t) = t \<longrightarrow>
        (\<forall>k<length xs. decode T b' ((0 + k) * 32) = Ok (xs ! k))"
      using vec_encode_items_split [OF L al32 xs z] by (elim exE conjE)
    have data: "vec_encode_items m T 32 xs 0 ?z = Ok (H @ t)" using h(1,3) by (simp add: blit_def)
    have enc: "vec_sol_encode m T xs b off = Ok (blit b off ?H @ u32_word m (replicate 32 0) (word_of_nat (length xs)) @ (H @ t))"
      using False w1 w2 data b lH e mx by (simp add: vec_sol_encode_def write_bytes_solidity_def Let_def)
    have dec: "decode T c (k * 32) = Ok (xs ! k)"
      if c: "length (H @ t) \<le> length c" "length c \<le> max_buf" "window c 0 (length (H @ t)) = H @ t" "k < length xs" for c k
    proof -
      have "window c 0 (length H) = H" "window c (length H) (length t) = t"
        using c(1,3) window_append [of c 0 "length H" "length t"] by simp_all
      then show ?thesis using d [rule_format, of c k] c h(1) by (simp add: mult.commute)
    qed
    have "length (H @ t) \<le> 32 * length xs + sum_list (map szT xs)" "32 * length xs \<le> length (H @ t)"
      using h(1,2) by simp_all
    then show ?thesis
      using enc dec by (intro exI [of _ "H @ t"] conjI allI impI) auto
  qed
qed

lemma vec_sol_lawful:
  assumes "wf_abi m" "ALIGN m = 32" "0 < HEADER_SIZE T" "HEADER_SIZE T \<le> 32" and L: "lawful_codec m T 32 szT valid"
  shows "lawful_codec m (vec_sol_encoder m T) 32 (\<lambda>xs. 32 + 32 * length xs + sum_list (map szT xs)) (list_all valid)"
proof -
  note isz = isize_max_ge [OF assms(1)]
  have al4: "al_up m 4 = 32"
    using al_up_eq [OF assms(1), of 4] assms(2) wf_abiD(4) [OF assms(1)] by simp
  have alT: "al_up m (HEADER_SIZE T) = 32"
    using al_up_max [OF assms(1,3)] al_up_aligned [OF assms(1), of 32] assms wf_abiD(4) [OF assms(1)] by simp
  show ?thesis
  proof (unfold_locales, goal_cases)
    case (2 xs off b)
    obtain data where dl: "length data \<le> 32 * length xs + sum_list (map szT xs)" "32 * length xs \<le> length data"
      and enc: "vec_sol_encode m T xs b off = Ok (blit b off (u32_word m (window b off 32) (word_of_nat (length b))) @
        u32_word m (replicate 32 0) (word_of_nat (length xs)) @ data)"
      and d: "\<forall>c. length data \<le> length c \<longrightarrow> length c \<le> max_buf \<longrightarrow> window c 0 (length data) = data \<longrightarrow>
        (\<forall>k<length xs. decode T c (k * 32) = Ok (xs ! k))"
      using vec_sol_encode_split [OF assms(1,2,4) L 2(1,3,4)] by (elim exE conjE)
    let ?H = "u32_word m (window b off 32) (word_of_nat (length b))"
      and ?w = "u32_word m (replicate 32 0) (word_of_nat (length xs))"
    have l: "length ?H = 32" "length ?w = 32"
      using 2(3) length_u32_word [OF assms(1)] by (simp_all add: al4)
    have dec: "decode (vec_sol_encoder m T) b' off = Ok xs"
      if b': "length b + length (?w @ data) \<le> length b'" "length b' \<le> max_buf" "window b' off 32 = ?H"
        "window b' (length b) (length (?w @ data)) = ?w @ data" for b'
    proof -
      have w: "window b' (length b) 32 = ?w" "window b' (length b + 32) (length data) = data"
        using b'(1,4) l window_append [of b' "length b" 32 "length data"] by simp_all
      have r1: "read_u32_aligned m b' off = Ok (word_of_nat (length b))"
        using read_u32_word [OF assms(1), of off b' "window b off 32"] b' 2(3) isz by (simp add: al4)
      have r2: "read_u32_aligned m b' (length b) = Ok (word_of_nat (length xs))"
        using read_u32_word [OF assms(1), of "length b" b' "replicate 32 0"] b'(1,2) w(1) l isz by (simp add: al4)
      have n: "length xs \<le> max_buf" "length b \<le> max_buf" "length b + 32 \<le> usize_max m"
        using 2(4) isz by simp_all
      let ?c = "drop (length b + 32) b'"
      have c: "length data \<le> length ?c" "length ?c \<le> max_buf" "window ?c 0 (length data) = data"
        using b'(1,2) l w(2) by (simp_all add: window_drop)
      have items: "vec_decode_items m T 32 (length xs) 0 ?c = Ok xs"
        using d [rule_format, OF c] dl(2) c(1,2) isz by (intro vec_decode_items_Ok) auto
      have val: "validate_collection_body m (length xs) 32 (length ?c) = Ok ()"
        using dl(2) c(1,2) isz by (simp add: validate_collection_body_Ok)
      show ?thesis
        using r1 r2 n items val b'(1) l
        by (simp add: vec_sol_encoder_def vec_sol_decode_def checked_add_usize_def checked_decode_slice_from_def alT Let_def)
    qed
    have len: "length (?w @ data) \<le> 32 + 32 * length xs + sum_list (map szT xs)" using dl(1) l by simp
    have enc': "encode (vec_sol_encoder m T) xs b off = Ok (blit b off ?H @ (?w @ data))"
      using enc by (simp add: vec_sol_encoder_def)
    show ?case
      by (intro exI [of _ ?H] exI [of _ "?w @ data"] conjI allI impI) (rule l(1) len enc' dec; assumption)+
  next
    case (3 xs)
    have "32 \<le> usize_max m" using wf_abiD(4) [OF assms(1)] by linarith
    then show ?case by (simp add: vec_sol_encoder_def vec_sol_encode_def Let_def resize_def)
  next
    case (4 b off)
    have np: "read_u32_aligned m b i \<noteq> Panic" for i
      using 4 isz by (intro read_u32_aligned_no_panic [OF assms(1)]) auto
    have it: "vec_decode_items m T 32 n 0 (drop k b) \<noteq> Panic"
      if "validate_collection_body m n 32 (length b - k) = Ok u" for n k u
      using that 4(1) lawful_codec.no_panic [OF L, of "drop k b"] assms(2)
      by (intro vec_decode_items_no_panic) (auto simp: validate_collection_body_Ok)
    show ?case
      by (auto simp: vec_sol_encoder_def vec_sol_decode_def Let_def oc_simps np alT checked_decode_slice_from_def
          dest: it split: if_splits)
  qed (use assms in auto)
qed

lemma vec_compact_lawful:
  assumes "wf_abi m" "al_up m 4 = 4" and s: "max (ALIGN m) (HEADER_SIZE T) = s" "al_up m (HEADER_SIZE T) = s"
    and "0 < s" "ALIGN m dvd s" and L: "lawful_codec m T s szT valid"
  shows "lawful_codec m (vec_compact_encoder m T) 12 (\<lambda>xs. s * length xs + sum_list (map szT xs)) (list_all valid)"
proof -
  note isz = isize_max_ge [OF assms(1)]
  have u: "umul m 4 3 = 12" "umul m 4 2 = 8" using wf_abiD(4) [OF assms(1)] by simp_all
  show ?thesis
  proof (unfold_locales, goal_cases)
    case (2 xs off b)
    have n: "length xs \<le> max_buf"
    proof -
      have "length xs \<le> s * length xs" using \<open>0 < s\<close> by simp
      then show ?thesis using 2(4) by linarith
    qed
    have e: "uadd m off 12 = off + 12" "uadd m off 4 = off + 4" "uadd m off 8 = off + 8"
      "umul m s (length xs) = s * length xs" using 2(3,4) isz by simp_all
    let ?wu = "write_uint (order m) 4"
    let ?b2 = "blit b off (?wu (length xs))"
    have w1: "write_u32_aligned m b off (word_of_nat (length xs)) = Ok ?b2"
      using 2(3,4) isz assms n by (simp add: write_u32_compact)
    have l2: "length ?b2 = length b" using 2(3) by simp
    show ?case
    proof (cases "xs = []")
      case True
      let ?H = "?wu 0 @ ?wu 12 @ ?wu 0"
      have "blit (blit ?b2 (off + 4) (?wu 12)) (off + 8) (?wu 0) = blit b off ?H"
        using True 2(3) blit_adjacent [of "off + 4" "?wu 12" "?wu 0" ?b2] blit_adjacent [of off "?wu 0" "?wu 12 @ ?wu 0" b]
        by (simp add: add.commute)
      then have enc: "encode (vec_compact_encoder m T) xs b off = Ok (blit b off ?H @ [])"
        using True 2(3,4) w1 l2 e isz assms u
        by (simp add: vec_compact_encoder_def vec_compact_encode_def Let_def write_u32_compact)
      have dec: "decode (vec_compact_encoder m T) b' off = Ok xs"
        if "length b + length [] \<le> length b'" "length b' \<le> max_buf" "window b' off 12 = ?H" for b'
      proof -
        have "window b' (off + 0) 4 = ?wu 0" by (subst window_take [OF that(3)]; simp add: window_def)
        then have "read_u32_aligned m b' off = Ok 0"
          using that 2(3) isz assms by (intro read_u32_at) (auto simp: u32_pos_def)
        then show ?thesis
          using True that 2(3) isz assms by (simp add: vec_compact_encoder_def vec_compact_decode_def checked_add_usize_def Let_def)
      qed
      have "length ?H = 12" by simp
      then show ?thesis using enc dec
        by (intro exI [of _ ?H] exI [of _ "[]"] conjI allI impI) auto
    next
      case False
      let ?z = "replicate (s * length xs) (0 :: byte)"
      have z: "(0 + length xs) * s \<le> length ?z" "length ?z + sum_list (map szT xs) \<le> max_buf"
        using 2(3,4) by (simp_all add: mult.commute)
      obtain H t where h: "length H = length xs * s" "length t \<le> sum_list (map szT xs)"
          "vec_encode_items m T s xs 0 ?z = Ok (blit ?z (0 * s) H @ t)"
        and d: "\<forall>b'. length ?z + length t \<le> length b' \<longrightarrow> length b' \<le> max_buf \<longrightarrow>
          window b' (0 * s) (length H) = H \<longrightarrow> window b' (length ?z) (length t) = t \<longrightarrow>
          (\<forall>k<length xs. decode T b' ((0 + k) * s) = Ok (xs ! k))"
        using vec_encode_items_split [OF L \<open>ALIGN m dvd s\<close> 2(1) z] by (elim exE conjE)
      let ?d = "H @ t"
      have data: "vec_encode_items m T s xs 0 ?z = Ok ?d" using h(1,3) by (simp add: blit_def mult.commute)
      have ld: "length xs * s \<le> length ?d" "length ?d \<le> s * length xs + sum_list (map szT xs)"
        using h(1,2) by (simp_all add: mult.commute)
      let ?H = "?wu (length xs) @ ?wu (length b) @ ?wu (length ?d)"
      have "blit ?b2 (off + 4) (?wu (length b) @ ?wu (length ?d)) = blit b off ?H"
        using 2(3) blit_adjacent [of off "?wu (length xs)" "?wu (length b) @ ?wu (length ?d)" b] by simp
      then have "write_bytes_wasm m ?b2 (off + 4) ?d = Ok (blit b off ?H @ ?d, length ?d)"
        using write_bytes_wasm_eq [OF assms(1,2), of "off + 4" ?b2 ?d] 2(3,4) l2 ld(2) by simp
      then have enc: "encode (vec_compact_encoder m T) xs b off = Ok (blit b off ?H @ ?d)"
        using False 2(3,4) w1 l2 e isz assms u data
        by (simp add: vec_compact_encoder_def vec_compact_encode_def Let_def)
      have dec: "decode (vec_compact_encoder m T) b' off = Ok xs"
        if b': "length b + length ?d \<le> length b'" "length b' \<le> max_buf" "window b' off 12 = ?H"
          "window b' (length b) (length ?d) = ?d" for b'
      proof -
        have "window b' (off + 0) 4 = ?wu (length xs)" "window b' (off + 4) 8 = ?wu (length b) @ ?wu (length ?d)"
          by (subst window_take [OF b'(3)]; simp add: window_def)+
        then have r: "read_u32_aligned m b' off = Ok (word_of_nat (length xs))" "read_bytes m False b' (off + 4) = Ok ?d"
          using b' 2(3) isz assms n
          by (auto intro!: read_u32_at simp: u32_pos_def) (intro read_bytes_compact_Ok [where d = "length b"]; simp)
        have "\<forall>k<length xs. decode T ?d ((0 + k) * s) = Ok (xs ! k)"
          using b'(1,2) h(1) by (intro allI impI d [rule_format]) (simp_all add: window_def mult.commute)
        then have items: "vec_decode_items m T s (length xs) 0 ?d = Ok xs"
          using ld(1) b'(1,2) isz by (intro vec_decode_items_Ok) auto
        have val: "validate_collection_body m (length xs) s (length ?d) = Ok ()"
          using ld(1) b'(1,2) isz \<open>0 < s\<close> unfolding validate_collection_body_Ok by linarith
        show ?thesis
          using r e items val b' 2(3) isz assms n False
          by (simp add: vec_compact_encoder_def vec_compact_decode_def checked_add_usize_def Let_def)
      qed
      have "length ?H = 12" by simp
      then show ?thesis using enc dec ld(2)
        by (intro exI [of _ ?H] exI [of _ ?d] conjI allI impI) auto
    qed
  next
    case (3 xs)
    have "12 \<le> usize_max m" using wf_abiD(4) [OF assms(1)] by linarith
    then show ?case using assms u by (simp add: vec_compact_encoder_def vec_compact_encode_def Let_def resize_def)
  next
    case (4 b off)
    have np: "read_u32_aligned m b i \<noteq> Panic" for i
      using 4 isz by (intro read_u32_aligned_no_panic [OF assms(1)]) auto
    have rb: "read_bytes m False b i \<noteq> Panic" for i
      using 4(1) by (rule read_bytes_no_panic [OF assms(1)])
    have it: "vec_decode_items m T s n 0 c \<noteq> Panic"
      if "validate_collection_body m n s (length c) = Ok u" "read_bytes m False b i = Ok c" for n c u i
      using that 4(1) lawful_codec.no_panic [OF L, of c] read_bytes_length [OF that(2)] \<open>ALIGN m dvd s\<close>
      by (intro vec_decode_items_no_panic) (auto simp: validate_collection_body_Ok)
    show ?case
      by (auto simp: vec_compact_encoder_def vec_compact_decode_def Let_def oc_simps np rb s(2)
          dest: it split: if_splits)
  qed (use assms in auto)
qed

section \<open>Vectors at the modes of the crate\<close>

lemma align_up_sol [simp]:
  "align_up 4294967295 32 32 = 32" "align_up 4294967295 32 1 = 32"
  "align_up 4294967295 32 4 = 32" "align_up 4294967295 32 8 = 32"
  by code_simp+

lemma align_up_compact [simp]:
  "align_up 4294967295 4 4 = 4" "align_up 4294967295 4 8 = 8" "align_up 4294967295 4 12 = 12"
  "align_up 4294967295 4 20 = 20" "align_up 4294967295 4 32 = 32" "align_up 4294967295 4 1 = 4"
  by code_simp+

interpretation sol_vec_u256: lawful_codec SolidityABI "vec_sol_encoder SolidityABI (uint_sol_encoder SolidityABI :: u256 encoder)"
  32 "\<lambda>xs. 32 + 32 * length xs + sum_list (map (\<lambda>_. 0) xs)" "list_all (\<lambda>_. True)"
  by (rule vec_sol_lawful)
     (use sol_u256.general.lawful_codec_axioms in \<open>auto simp: uint_sol_encoder_def\<close>)

interpretation sol_vec_bytes: lawful_codec SolidityABI "vec_sol_encoder SolidityABI (bytes_sol_encoder SolidityABI)"
  32 "\<lambda>xs. 32 + 32 * length xs + sum_list (map (\<lambda>v. 64 + length v) xs)" "list_all (\<lambda>_. True)"
  by (rule vec_sol_lawful)
     (use sol_bytes.lawful_codec_axioms in \<open>auto simp: bytes_sol_encoder_def\<close>)

interpretation compact_vec_u32: lawful_codec CompactABI "vec_compact_encoder CompactABI (int_encoder CompactABI False :: u32 encoder)"
  12 "\<lambda>xs. 4 * length xs + sum_list (map (\<lambda>_. 0) xs)" "list_all (\<lambda>_. True)"
  by (rule vec_compact_lawful)
     (use compact_u32.general.lawful_codec_axioms in \<open>auto simp: int_encoder_def\<close>)

interpretation compact_vec_bytes: lawful_codec CompactABI "vec_compact_encoder CompactABI (bytes_compact_encoder CompactABI)"
  12 "\<lambda>xs. 8 * length xs + sum_list (map (\<lambda>v. length v + 32) xs)" "list_all (\<lambda>_. True)"
  by (rule vec_compact_lawful)
     (use compact_bytes.lawful_codec_axioms in \<open>auto simp: bytes_compact_encoder_def\<close>)

section \<open>Properties\<close>

text \<open>
  C14. A vector of any lawful element type whose header is one 32-byte word (integers, addresses,
  byte strings, vectors again) is read back unchanged in Solidity mode from an empty buffer, and
  decoding arbitrary input gives a value or an error, never a panic.
\<close>

theorem vec_sol_round_trip:
  assumes "lawful_codec SolidityABI T 32 szT valid" "0 < HEADER_SIZE T" "HEADER_SIZE T \<le> 32"
    and "list_all valid xs" "64 + 32 * length xs + sum_list (map szT xs) \<le> max_buf"
  shows "(\<exists>b. encode (vec_sol_encoder SolidityABI T) xs [] 0 = Ok b \<and>
       decode (vec_sol_encoder SolidityABI T) b 0 = Ok xs) \<and>
     (\<forall>b off. length b \<le> max_buf \<longrightarrow> 32 dvd off \<longrightarrow> off + 32 \<le> max_buf \<longrightarrow> decode (vec_sol_encoder SolidityABI T) b off \<noteq> Panic)"
proof -
  have L: "lawful_codec SolidityABI (vec_sol_encoder SolidityABI T) 32
      (\<lambda>xs. 32 + 32 * length xs + sum_list (map szT xs)) (list_all valid)"
    by (rule vec_sol_lawful) (use assms in simp_all)
  show ?thesis
    using lawful_codec.top_round_trip [OF L assms(4)] lawful_codec.no_panic [OF L] assms(5) by auto
qed

theorem vec_sol_round_trip_witness:
  "\<exists>b. encode (vec_sol_encoder SolidityABI (vec_sol_encoder SolidityABI (bytes_sol_encoder SolidityABI)))
       [[[1, 2], []], [[3]]] [] 0 = Ok b \<and>
     decode (vec_sol_encoder SolidityABI (vec_sol_encoder SolidityABI (bytes_sol_encoder SolidityABI))) b 0 =
       Ok [[[1, 2], []], [[3]]]"
  using vec_sol_round_trip [OF sol_vec_bytes.lawful_codec_axioms, of "[[[1, 2], []], [[3]]]"]
  by (auto simp: vec_sol_encoder_def)




end
