(* ===== verification/Codec_Struct.thy ===== *)
theory Codec_Struct
  imports Codec_Vec
begin

text \<open>
  Aggregates: the encoders \<open>#[derive(Codec)]\<close> generates for structs (\<open>codec-derive\<close>), those of
  tuples (\<open>tuple.rs\<close>), and function arguments (\<open>func.rs\<close>). A struct is given by the list of its
  fields, as the macro sees it: each field carries the encoder of its type and how to read and
  store it in the struct. The generated encoder is a function of this list.
\<close>

section \<open>Fields\<close>

record 's field_info =
  f_header :: nat
  f_dynamic :: bool
  f_encode :: "'s \<Rightarrow> buf \<Rightarrow> nat \<Rightarrow> buf decoded"
  f_decode :: "'s \<Rightarrow> buf \<Rightarrow> nat \<Rightarrow> 's decoded"

definition field :: "'a encoder \<Rightarrow> ('s \<Rightarrow> 'a) \<Rightarrow> ('a \<Rightarrow> 's \<Rightarrow> 's) \<Rightarrow> 's field_info" where
  "field T get put = \<lparr>f_header = HEADER_SIZE T, f_dynamic = IS_DYNAMIC T,
     f_encode = (\<lambda>s. encode T (get s)),
     f_decode = (\<lambda>s b off. oc_bind (decode T b off) (\<lambda>v. Ok (put v s)))\<rparr>"

section \<open>Derived struct encoders (codec-derive)\<close>

definition struct_is_dynamic :: "'s field_info list \<Rightarrow> bool" where
  "struct_is_dynamic fs = fold (\<lambda>f acc. acc \<or> f_dynamic f) fs False"

definition struct_header_size :: "abi \<Rightarrow> bool \<Rightarrow> 's field_info list \<Rightarrow> nat" where
  "struct_header_size m sol_mode fs =
     fold (\<lambda>f acc. uadd m acc (if sol_mode then f_header f else al_up m (f_header f))) fs 0"

definition struct_aligned_header_size :: "abi \<Rightarrow> bool \<Rightarrow> 's field_info list \<Rightarrow> nat" where
  "struct_aligned_header_size m sol_mode fs =
     (if sol_mode
      then fold (\<lambda>f acc. uadd m acc (if f_dynamic f then 32 else al_up m (f_header f))) fs 0
      else struct_header_size m False fs)"

fun struct_encode_fields :: "abi \<Rightarrow> bool \<Rightarrow> 's field_info list \<Rightarrow> 's \<Rightarrow> buf \<Rightarrow> nat \<Rightarrow> buf decoded" where
  "struct_encode_fields m sol_mode [] s b off = Ok b"
| "struct_encode_fields m sol_mode (f # fs) s b off =
     oc_bind (f_encode f s b off) (\<lambda>b'.
     struct_encode_fields m sol_mode fs s b'
       (uadd m off (if sol_mode \<and> f_dynamic f then al_up m 4 else al_up m (f_header f))))"

fun struct_decode_fields :: "abi \<Rightarrow> bool \<Rightarrow> 's field_info list \<Rightarrow> 's \<Rightarrow> buf \<Rightarrow> nat \<Rightarrow> 's decoded" where
  "struct_decode_fields m sol_mode [] s b off = Ok s"
| "struct_decode_fields m sol_mode (f # fs) s b off =
     oc_bind (f_decode f s b off) (\<lambda>s'.
     struct_decode_fields m sol_mode fs s' b
       (uadd m off (if sol_mode \<and> f_dynamic f then 32 else al_up m (f_header f))))"

text \<open>\<open>split_off\<close> and \<open>unsplit\<close> cut a buffer in two and join it again.\<close>

definition with_tail :: "buf \<Rightarrow> nat \<Rightarrow> (buf \<Rightarrow> buf decoded) \<Rightarrow> buf decoded" where
  "with_tail b pos k =
     (if pos \<le> length b then oc_bind (k (drop pos b)) (\<lambda>tail. Ok (take pos b @ tail)) else Panic)"

definition struct_encode :: "abi \<Rightarrow> bool \<Rightarrow> 's field_info list \<Rightarrow> 's \<Rightarrow> buf \<Rightarrow> nat \<Rightarrow> buf decoded" where
  "struct_encode m sol_mode fs s b off =
     (if sol_mode
      then (let aligned_offset = al_up m off;
                aligned_header_size = struct_aligned_header_size m True fs
            in if struct_is_dynamic fs
               then (let buf_len = length b;
                         offset = (if buf_len \<noteq> 0 then buf_len else 32)
                     in oc_bind (write_u32_aligned m b aligned_offset (word_of_nat offset)) (\<lambda>b1.
                        let b2 = (if length b1 < uadd m aligned_header_size offset
                                  then resize b1 (uadd m aligned_header_size offset) else b1)
                        in with_tail b2 offset (\<lambda>tail. struct_encode_fields m True fs s tail 0)))
               else (let b1 = (if length b < uadd m aligned_offset aligned_header_size
                               then resize b (uadd m aligned_offset aligned_header_size) else b)
                     in with_tail b1 aligned_offset (\<lambda>tail. struct_encode_fields m True fs s tail 0)))
      else (let current_offset = al_up m off;
                header_size = struct_header_size m False fs;
                b1 = (if length b < uadd m current_offset header_size
                      then resize b (uadd m current_offset header_size) else b)
            in struct_encode_fields m False fs s b1 current_offset))"

definition struct_decode :: "abi \<Rightarrow> bool \<Rightarrow> 's field_info list \<Rightarrow> 's \<Rightarrow> buf \<Rightarrow> nat \<Rightarrow> 's decoded" where
  "struct_decode m sol_mode fs s0 b off =
     (if sol_mode
      then (let aligned_offset = al_up m off
            in oc_bind
                 (if struct_is_dynamic fs
                  then oc_bind (read_u32_aligned m b aligned_offset) (\<lambda>offset.
                       checked_decode_slice_from b (unat offset) ''struct body exceeds input'')
                  else checked_decode_slice_from b aligned_offset ''struct head exceeds input'')
                 (\<lambda>tmp. struct_decode_fields m True fs s0 tmp 0))
      else struct_decode_fields m False fs s0 b (al_up m off))"

definition struct_partial_decode :: "abi \<Rightarrow> bool \<Rightarrow> 's field_info list \<Rightarrow> buf \<Rightarrow> nat \<Rightarrow> (nat \<times> nat) decoded" where
  "struct_partial_decode m sol_mode fs b off =
     (if sol_mode \<and> struct_is_dynamic fs
      then oc_bind (read_u32_aligned m b (al_up m off)) (\<lambda>data_offset.
           Ok (unat data_offset, struct_header_size m True fs))
      else Ok (al_up m off, struct_header_size m sol_mode fs))"

text \<open>
  The generated \<open>decode\<close> binds every field and builds the struct from them; here the fields are
  stored one after the other into \<open>s0\<close>, of which nothing remains when the list is complete.
\<close>

definition struct_encoder :: "abi \<Rightarrow> bool \<Rightarrow> 's field_info list \<Rightarrow> 's \<Rightarrow> 's encoder" where
  "struct_encoder m sol_mode fs s0 = \<lparr>HEADER_SIZE = struct_header_size m sol_mode fs,
     IS_DYNAMIC = struct_is_dynamic fs,
     encode = struct_encode m sol_mode fs, decode = struct_decode m sol_mode fs s0,
     partial_decode = struct_partial_decode m sol_mode fs\<rparr>"

section \<open>Tuples (tuple.rs)\<close>

definition unit_encoder :: "unit encoder" where
  "unit_encoder = \<lparr>HEADER_SIZE = 0, IS_DYNAMIC = False,
     encode = (\<lambda>_ b _. Ok b), decode = (\<lambda>_ _. Ok ()), partial_decode = (\<lambda>_ _. Ok (0, 0))\<rparr>"

definition tuple1_encode :: "abi \<Rightarrow> bool \<Rightarrow> 'a encoder \<Rightarrow> 'a \<Rightarrow> buf \<Rightarrow> nat \<Rightarrow> buf decoded" where
  "tuple1_encode m sol_mode T v b off =
     (let header_el_size = (if sol_mode then al_up m 32 else al_up m 4)
      in if IS_DYNAMIC T
         then (let buf_len = length b;
                   dynamic_offset = (if buf_len = 0 then header_el_size else buf_len)
               in oc_bind (write_u32_aligned m b off (word_of_nat dynamic_offset)) (\<lambda>b1.
                  let current_offset = uadd m off header_el_size;
                      aligned_header_size = al_up m (HEADER_SIZE T);
                      b2 = (if buf_len < uadd m current_offset aligned_header_size
                            then resize b1 (uadd m current_offset aligned_header_size) else b1)
                  in with_tail b2 current_offset (\<lambda>tmp. encode T v tmp 0)))
         else encode T v b off)"

definition tuple1_decode :: "abi \<Rightarrow> 'a encoder \<Rightarrow> buf \<Rightarrow> nat \<Rightarrow> 'a decoded" where
  "tuple1_decode m T b off =
     oc_bind
       (if IS_DYNAMIC T
        then oc_bind (read_u32_aligned m b off) (\<lambda>dynamic_offset.
             checked_decode_slice_from b (unat dynamic_offset) ''tuple body exceeds input'')
        else checked_decode_slice_from b off ''tuple head exceeds input'')
       (\<lambda>chunk. decode T chunk 0)"

definition tuple1_encoder :: "abi \<Rightarrow> bool \<Rightarrow> 'a encoder \<Rightarrow> 'a encoder" where
  "tuple1_encoder m sol_mode T = \<lparr>HEADER_SIZE = al_up m (HEADER_SIZE T), IS_DYNAMIC = IS_DYNAMIC T,
     encode = tuple1_encode m sol_mode T, decode = tuple1_decode m T,
     partial_decode = partial_decode T\<rparr>"

definition is_power_of_two :: "nat \<Rightarrow> bool" where
  "is_power_of_two n = (n \<noteq> 0 \<and> and n (n - 1) = 0)"

definition tuple_header_size :: "abi \<Rightarrow> 's field_info list \<Rightarrow> nat" where
  "tuple_header_size m fs = al_up m (fold (\<lambda>f size. uadd m (al_up m size) (f_header f)) fs 0)"

definition tuple_encode :: "abi \<Rightarrow> bool \<Rightarrow> 's field_info list \<Rightarrow> 's \<Rightarrow> buf \<Rightarrow> nat \<Rightarrow> buf decoded" where
  "tuple_encode m sol_mode fs s b off =
     oc_bind (oc_assert (is_power_of_two (ALIGN m))) (\<lambda>_.
     if sol_mode
     then (let aligned_offset = al_up m off;
               aligned_header_size =
                 fold (\<lambda>f size. uadd m size (if f_dynamic f then al_up m 4 else al_up m (f_header f))) fs 0
           in if struct_is_dynamic fs
              then (let buf_len = length b;
                        offset = (if buf_len = 0 then al_up m 4 else buf_len)
                    in oc_bind (write_u32_aligned m b aligned_offset (word_of_nat offset)) (\<lambda>b1.
                       let b2 = (if length b1 < uadd m aligned_header_size offset
                                 then resize b1 (uadd m aligned_header_size offset) else b1)
                       in with_tail b2 offset (\<lambda>tail. struct_encode_fields m True fs s tail 0)))
              else (let b1 = (if length b < uadd m aligned_offset aligned_header_size
                              then resize b (uadd m aligned_offset aligned_header_size) else b)
                    in with_tail b1 aligned_offset (\<lambda>tail. struct_encode_fields m True fs s tail 0)))
     else (let header_el_size = al_up m 4
           in if struct_is_dynamic fs
              then (let buf_len = length b;
                        dynamic_offset = (if buf_len = 0 then header_el_size else buf_len)
                    in oc_bind (write_u32_aligned m b off (word_of_nat dynamic_offset)) (\<lambda>b1.
                       let current_offset = uadd m off header_el_size;
                           aligned_header_size = fold (\<lambda>f size. uadd m size (al_up m (f_header f))) fs 0;
                           b2 = (if buf_len < uadd m current_offset aligned_header_size
                                 then resize b1 (uadd m current_offset aligned_header_size) else b1)
                       in with_tail b2 current_offset (\<lambda>tmp. struct_encode_fields m False fs s tmp 0)))
              else struct_encode_fields m False fs s b off))"

definition tuple_decode :: "abi \<Rightarrow> bool \<Rightarrow> 's field_info list \<Rightarrow> 's \<Rightarrow> buf \<Rightarrow> nat \<Rightarrow> 's decoded" where
  "tuple_decode m sol_mode fs s0 b off =
     (if length b < off
      then Err (Decoding (BufferTooSmall off (length b) ''buf too small to take offset''))
      else oc_bind
        (if struct_is_dynamic fs
         then oc_bind (read_u32_aligned m b off) (\<lambda>dynamic_offset.
              if length b < unat dynamic_offset
              then Err (Decoding (BufferTooSmall (unat dynamic_offset) (length b)
                     ''buf too small to take dynamic offset''))
              else slice_from b (unat dynamic_offset))
         else slice_from b off)
        (\<lambda>tmp. struct_decode_fields m sol_mode fs s0 tmp 0))"

definition tuple_encoder :: "abi \<Rightarrow> bool \<Rightarrow> 's field_info list \<Rightarrow> 's \<Rightarrow> 's encoder" where
  "tuple_encoder m sol_mode fs s0 = \<lparr>HEADER_SIZE = tuple_header_size m fs,
     IS_DYNAMIC = struct_is_dynamic fs,
     encode = tuple_encode m sol_mode fs, decode = tuple_decode m sol_mode fs s0,
     partial_decode = (\<lambda>_ _. Ok (0, 0))\<rparr>"

section \<open>Function arguments (func.rs)\<close>

definition encode_as_args :: "abi \<Rightarrow> 'a encoder \<Rightarrow> 'a \<Rightarrow> buf \<Rightarrow> buf decoded" where
  "encode_as_args m T v b =
     (if IS_DYNAMIC T
      then oc_bind (encode T v [] 0) (\<lambda>temp_buf.
           Ok (if length temp_buf > ALIGN m then b @ drop (ALIGN m) temp_buf else b))
      else encode T v b (length b))"

definition decode_as_args :: "abi \<Rightarrow> bool \<Rightarrow> 'a encoder \<Rightarrow> buf \<Rightarrow> 'a decoded" where
  "decode_as_args m sol_mode T b =
     (if IS_DYNAMIC T
      then oc_bind
        (if sol_mode
         then write_slice (replicate (ALIGN m) 0) (usub m (ALIGN m) 4) (ALIGN m) (be_bytes 4 (ALIGN m))
         else Ok (le_bytes 4 (ALIGN m)))
        (\<lambda>temp_buf. decode T (temp_buf @ b) 0)
      else decode T b 0)"

section \<open>The contract of a field\<close>

text \<open>
  \<open>lawful_field\<close> is the contract of the field's encoder seen from the struct: \<open>upd s acc\<close> is \<open>acc\<close>
  with this field taken from \<open>s\<close>.
\<close>

definition lawful_field ::
  "abi \<Rightarrow> nat \<Rightarrow> ('s \<Rightarrow> nat) \<Rightarrow> ('s \<Rightarrow> bool) \<Rightarrow> ('s \<Rightarrow> 's \<Rightarrow> 's) \<Rightarrow> 's field_info \<Rightarrow> bool" where
  "lawful_field m hs sz valid upd f =
     ((\<forall>s off b. valid s \<longrightarrow> ALIGN m dvd off \<longrightarrow> off + hs \<le> length b \<longrightarrow> length b + sz s \<le> max_buf \<longrightarrow>
        (\<exists>H t. length H = hs \<and> length t \<le> sz s \<and> f_encode f s b off = Ok (blit b off H @ t) \<and>
          (\<forall>b' acc. length b + length t \<le> length b' \<longrightarrow> length b' \<le> max_buf \<longrightarrow>
             window b' off hs = H \<longrightarrow> window b' (length b) (length t) = t \<longrightarrow>
             f_decode f acc b' off = Ok (upd s acc)))) \<and>
      (\<forall>acc b off. length b \<le> max_buf \<longrightarrow> ALIGN m dvd off \<longrightarrow> off + hs \<le> max_buf \<longrightarrow> f_decode f acc b off \<noteq> Panic))"

lemma lawful_fieldI:
  assumes "lawful_codec m T hs szT validT" "\<And>s. valid s \<Longrightarrow> validT (get s)"
  shows "lawful_field m hs (\<lambda>s. szT (get s)) valid (\<lambda>s. put (get s)) (field T get put)"
  unfolding lawful_field_def
proof (intro conjI allI impI)
  fix s off and b :: buf
  assume s: "valid s" and b: "ALIGN m dvd off" "off + hs \<le> length b" "length b + szT (get s) \<le> max_buf"
  obtain H t where "length H = hs" "length t \<le> szT (get s)" "encode T (get s) b off = Ok (blit b off H @ t)"
    "\<forall>b'. length b + length t \<le> length b' \<longrightarrow> length b' \<le> max_buf \<longrightarrow>
       window b' off hs = H \<longrightarrow> window b' (length b) (length t) = t \<longrightarrow> decode T b' off = Ok (get s)"
    using lawful_codec.encode_split [OF assms(1) assms(2) [OF s] b] by (elim exE conjE)
  then show "\<exists>H t. length H = hs \<and> length t \<le> szT (get s) \<and> f_encode (field T get put) s b off = Ok (blit b off H @ t) \<and>
      (\<forall>b' acc. length b + length t \<le> length b' \<longrightarrow> length b' \<le> max_buf \<longrightarrow> window b' off hs = H \<longrightarrow>
         window b' (length b) (length t) = t \<longrightarrow> f_decode (field T get put) acc b' off = Ok (put (get s) acc))"
    by (intro exI [of _ H] exI [of _ t]) (simp add: field_def)
next
  fix acc off and b :: buf
  assume "length b \<le> max_buf" "ALIGN m dvd off" "off + hs \<le> max_buf"
  then show "f_decode (field T get put) acc b off \<noteq> Panic"
    using lawful_codec.no_panic [OF assms(1)] by (auto simp: field_def oc_simps)
qed

abbreviation stride :: "abi \<Rightarrow> bool \<Rightarrow> 's field_info \<Rightarrow> nat" where
  "stride m sol f \<equiv> (if sol \<and> f_dynamic f then al_up m 4 else al_up m (f_header f))"

text \<open>
  A list of lawful fields, with the size of their headers, a bound on their tails, and the
  copying of all of them.
\<close>

inductive lawful_fields ::
  "abi \<Rightarrow> bool \<Rightarrow> ('s \<Rightarrow> bool) \<Rightarrow> 's field_info list \<Rightarrow> nat \<Rightarrow> ('s \<Rightarrow> nat) \<Rightarrow> ('s \<Rightarrow> 's \<Rightarrow> 's) \<Rightarrow> bool"
  for m sol valid where
  lawful_Nil: "lawful_fields m sol valid [] 0 (\<lambda>_. 0) (\<lambda>_ acc. acc)"
| lawful_Cons: "lawful_field m hs sz valid upd f \<Longrightarrow> stride m sol f = hs \<Longrightarrow> ALIGN m dvd hs \<Longrightarrow>
     lawful_fields m sol valid fs Hs Sz Up \<Longrightarrow>
     lawful_fields m sol valid (f # fs) (hs + Hs) (\<lambda>s. sz s + Sz s) (\<lambda>s acc. Up s (upd s acc))"

lemma struct_fields_split:
  assumes "lawful_fields m sol valid fs Hs Sz Up" "wf_abi m" "sol \<longrightarrow> al_up m 4 = 32"
    and "valid s" "ALIGN m dvd off" "off + Hs \<le> length b" "length b + Sz s \<le> max_buf"
  shows "\<exists>H t. length H = Hs \<and> length t \<le> Sz s \<and> struct_encode_fields m sol fs s b off = Ok (blit b off H @ t) \<and>
     (\<forall>b' acc. length b + length t \<le> length b' \<longrightarrow> length b' \<le> max_buf \<longrightarrow>
        window b' off Hs = H \<longrightarrow> window b' (length b) (length t) = t \<longrightarrow>
        struct_decode_fields m sol fs acc b' off = Ok (Up s acc))"
  using assms
proof (induction fs Hs Sz Up arbitrary: off b rule: lawful_fields.induct)
  case lawful_Nil
  show ?case by (rule exI [of _ "[]"], rule exI [of _ "[]"]) simp
next
  case (lawful_Cons hs sz upd f fs Hs Sz Up)
  note isz = isize_max_ge [OF \<open>wf_abi m\<close>]
  have b0: "off + hs \<le> length b" "length b + sz s \<le> max_buf" using lawful_Cons.prems by simp_all
  obtain H0 t0 where h0: "length H0 = hs" "length t0 \<le> sz s" "f_encode f s b off = Ok (blit b off H0 @ t0)"
    and d0: "\<forall>b' acc. length b + length t0 \<le> length b' \<longrightarrow> length b' \<le> max_buf \<longrightarrow>
      window b' off hs = H0 \<longrightarrow> window b' (length b) (length t0) = t0 \<longrightarrow> f_decode f acc b' off = Ok (upd s acc)"
    using lawful_Cons.hyps(1) [unfolded lawful_field_def, THEN conjunct1, rule_format,
        OF lawful_Cons.prems(3,4) b0] by (elim exE conjE)
  let ?b = "blit b off H0 @ t0"
  have lb: "length ?b = length b + length t0" using b0(1) h0(1) by simp
  have b1: "ALIGN m dvd off + hs" "off + hs + Hs \<le> length ?b" "length ?b + Sz s \<le> max_buf"
    using lawful_Cons.prems lawful_Cons.hyps(3) lb h0(2) by simp_all
  obtain H1 t1 where h1: "length H1 = Hs" "length t1 \<le> Sz s"
      "struct_encode_fields m sol fs s ?b (off + hs) = Ok (blit ?b (off + hs) H1 @ t1)"
    and d1: "\<forall>b' acc. length ?b + length t1 \<le> length b' \<longrightarrow> length b' \<le> max_buf \<longrightarrow>
      window b' (off + hs) Hs = H1 \<longrightarrow> window b' (length ?b) (length t1) = t1 \<longrightarrow>
      struct_decode_fields m sol fs acc b' (off + hs) = Ok (Up s acc)"
    using lawful_Cons.IH [OF lawful_Cons.prems(1-3) b1] by (elim exE conjE)
  have e: "uadd m off hs = off + hs" using b0 isz by simp
  have "blit ?b (off + hs) H1 = blit b off (H0 @ H1) @ t0"
    using lawful_Cons.prems(5) h0(1) h1(1) blit_adjacent [of off H0 H1 b] by (simp add: blit_append)
  then have enc: "struct_encode_fields m sol (f # fs) s b off = Ok (blit b off (H0 @ H1) @ (t0 @ t1))"
    using h0(3) h1(3) e lawful_Cons.hyps(2) by simp
  have dec: "struct_decode_fields m sol (f # fs) acc b' off = Ok (Up s (upd s acc))"
    if b': "length b + length (t0 @ t1) \<le> length b'" "length b' \<le> max_buf"
      "window b' off (hs + Hs) = H0 @ H1" "window b' (length b) (length (t0 @ t1)) = t0 @ t1" for b' acc
  proof -
    have w: "window b' off hs = H0" "window b' (off + hs) Hs = H1"
      using b'(1,3) lawful_Cons.prems(5) h0(1) h1(1) window_append [of b' off hs Hs] by simp_all
    have t: "window b' (length b) (length t0) = t0" "window b' (length b + length t0) (length t1) = t1"
      using b'(1,4) window_append [of b' "length b" "length t0" "length t1"] by simp_all
    have "f_decode f acc b' off = Ok (upd s acc)" using d0 b'(1,2) w(1) t(1) by simp
    moreover have "struct_decode_fields m sol fs (upd s acc) b' (off + hs) = Ok (Up s (upd s acc))"
      using d1 b'(1,2) w(2) t(2) lb by simp
    moreover have "(if sol \<and> f_dynamic f then 32 else al_up m (f_header f)) = hs"
      using lawful_Cons.hyps(2) lawful_Cons.prems(2) by (auto split: if_splits)
    ultimately show ?thesis using e by simp
  qed
  have len: "length (H0 @ H1) = hs + Hs" "length (t0 @ t1) \<le> sz s + Sz s" using h0(1,2) h1(1,2) by simp_all
  show ?case
    by (intro exI [of _ "H0 @ H1"] exI [of _ "t0 @ t1"] conjI allI impI) (rule len enc dec; assumption)+
qed

lemma struct_fields_no_panic:
  assumes "lawful_fields m sol valid fs Hs Sz Up" "wf_abi m" "sol \<longrightarrow> al_up m 4 = 32"
    and "length b \<le> max_buf" "ALIGN m dvd off" "off + Hs \<le> max_buf"
  shows "struct_decode_fields m sol fs acc b off \<noteq> Panic"
  using assms
proof (induction fs Hs Sz Up arbitrary: off acc rule: lawful_fields.induct)
  case (lawful_Cons hs sz upd f fs Hs Sz Up)
  have "f_decode f acc b off \<noteq> Panic"
    using lawful_Cons.hyps(1) lawful_Cons.prems by (simp add: lawful_field_def)
  moreover have "struct_decode_fields m sol fs acc' b (off + hs) \<noteq> Panic" for acc'
    using lawful_Cons by simp
  moreover have "(if sol \<and> f_dynamic f then 32 else al_up m (f_header f)) = hs"
    using lawful_Cons.hyps(2) lawful_Cons.prems(2) by (auto split: if_splits)
  moreover have "uadd m off hs = off + hs"
    using lawful_Cons.prems isize_max_ge [OF lawful_Cons.prems(1)] by simp
  ultimately show ?case by (auto simp: oc_simps)
qed simp

lemma lawful_fields_aligned: "lawful_fields m sol valid fs Hs Sz Up \<Longrightarrow> ALIGN m dvd Hs"
  by (induction rule: lawful_fields.induct) auto

lemma header_sum_compact:
  assumes "lawful_fields m False valid fs Hs Sz Up" "a + Hs \<le> usize_max m"
  shows "fold (\<lambda>f acc. uadd m acc (al_up m (f_header f))) fs a = a + Hs"
  using assms
proof (induction fs Hs Sz Up arbitrary: a rule: lawful_fields.induct)
  case (lawful_Cons hs sz upd f fs Hs Sz Up)
  then have "fold (\<lambda>f acc. uadd m acc (al_up m (f_header f))) fs (a + hs) = a + hs + Hs" by simp
  then show ?case using lawful_Cons by simp
qed simp

lemma header_sum_sol:
  assumes "lawful_fields m True valid fs Hs Sz Up" "a + Hs \<le> usize_max m" "al_up m 4 = 32"
  shows "fold (\<lambda>f acc. uadd m acc (if f_dynamic f then 32 else al_up m (f_header f))) fs a = a + Hs"
  using assms
proof (induction fs Hs Sz Up arbitrary: a rule: lawful_fields.induct)
  case (lawful_Cons hs sz upd f fs Hs Sz Up)
  let ?g = "\<lambda>f acc. uadd m acc (if f_dynamic f then 32 else al_up m (f_header f))"
  have "fold ?g fs (a + hs) = a + hs + Hs" using lawful_Cons by simp
  moreover have "?g f a = a + hs" using lawful_Cons.hyps(2) lawful_Cons.prems by (auto split: if_splits)
  ultimately show ?case by simp
qed simp

section \<open>Structs keep the contract\<close>

lemma al_up_off: "wf_abi m \<Longrightarrow> ALIGN m dvd off \<Longrightarrow> off \<le> max_buf \<Longrightarrow> al_up m off = off"
  using isize_max_ge [of m] by simp

lemma struct_compact_lawful:
  assumes F: "lawful_fields m False valid fs Hs Sz Up" and "wf_abi m" "Hs \<le> max_buf"
    and all: "\<And>s acc. valid s \<Longrightarrow> Up s acc = s"
  shows "lawful_codec m (struct_encoder m False fs s0) Hs Sz valid"
proof -
  note isz = isize_max_ge [OF assms(2)]
  have hs: "struct_header_size m False fs = Hs"
    using header_sum_compact [OF F, of 0] assms(3) isz by (simp add: struct_header_size_def)
  have sol: "False \<longrightarrow> al_up m 4 = 32" by simp
  show ?thesis
  proof (unfold_locales, goal_cases)
    case (2 s off b)
    have al: "al_up m off = off" "uadd m off Hs = off + Hs"
      using 2 isz al_up_off [OF assms(2)] by simp_all
    obtain H t where h: "length H = Hs" "length t \<le> Sz s" "struct_encode_fields m False fs s b off = Ok (blit b off H @ t)"
      and d: "\<forall>b' acc. length b + length t \<le> length b' \<longrightarrow> length b' \<le> max_buf \<longrightarrow>
        window b' off Hs = H \<longrightarrow> window b' (length b) (length t) = t \<longrightarrow>
        struct_decode_fields m False fs acc b' off = Ok (Up s acc)"
      using struct_fields_split [OF F assms(2) sol 2] by (elim exE conjE)
    have enc: "encode (struct_encoder m False fs s0) s b off = Ok (blit b off H @ t)"
      using h(3) al hs 2(3) by (simp add: struct_encoder_def struct_encode_def Let_def)
    have dec: "decode (struct_encoder m False fs s0) b' off = Ok s"
      if "length b + length t \<le> length b'" "length b' \<le> max_buf" "window b' off Hs = H" "window b' (length b) (length t) = t" for b'
      using d that al all [OF 2(1)] by (simp add: struct_encoder_def struct_decode_def)
    show ?case
      by (intro exI [of _ H] exI [of _ t] conjI allI impI) (rule h(1,2) enc dec; assumption)+
  next
    case (3 s)
    have "al_up m 0 = 0" by (rule al_up_off [OF assms(2)]) simp_all
    then show ?case
      using 3 isz hs by (simp add: struct_encoder_def struct_encode_def Let_def resize_def)
  next
    case (4 b off)
    then have "al_up m off = off" using al_up_off [OF assms(2)] by simp
    then show ?case
      using struct_fields_no_panic [OF F assms(2) sol 4] by (simp add: struct_encoder_def struct_decode_def)
  qed (use assms in auto)
qed

text \<open>The fields of a Solidity struct, encoded into the part of the buffer that starts at the struct.\<close>

lemma struct_tail_split:
  assumes F: "lawful_fields m True valid fs Hs Sz Up" and "wf_abi m" "al_up m 4 = 32"
    and s: "valid s" "\<And>acc. Up s acc = s"
    and b: "off + Hs \<le> length b" "length b + Sz s \<le> max_buf"
  shows "\<exists>H t. length H = Hs \<and> length t \<le> Sz s \<and>
     with_tail b off (\<lambda>tail. struct_encode_fields m True fs s tail 0) = Ok (blit b off H @ t) \<and>
     (\<forall>b' acc. length b + length t \<le> length b' \<longrightarrow> length b' \<le> max_buf \<longrightarrow>
        window b' off Hs = H \<longrightarrow> window b' (length b) (length t) = t \<longrightarrow>
        struct_decode_fields m True fs acc (drop off b') 0 = Ok s)"
proof -
  have sol: "True \<longrightarrow> al_up m 4 = 32" using assms(3) by simp
  let ?b = "drop off b"
  have b0: "0 + Hs \<le> length ?b" "length ?b + Sz s \<le> max_buf" using b by simp_all
  obtain H t where h: "length H = Hs" "length t \<le> Sz s" "struct_encode_fields m True fs s ?b 0 = Ok (blit ?b 0 H @ t)"
    and d: "\<forall>b' acc. length ?b + length t \<le> length b' \<longrightarrow> length b' \<le> max_buf \<longrightarrow>
      window b' 0 Hs = H \<longrightarrow> window b' (length ?b) (length t) = t \<longrightarrow>
      struct_decode_fields m True fs acc b' 0 = Ok (Up s acc)"
    using struct_fields_split [OF F assms(2) sol s(1) _ b0] by (auto elim!: exE conjE)
  have enc: "with_tail b off (\<lambda>tail. struct_encode_fields m True fs s tail 0) = Ok (blit b off H @ t)"
    using h b blit_split [of off H b] by (simp add: with_tail_def)
  have dec: "struct_decode_fields m True fs acc (drop off b') 0 = Ok s"
    if b': "length b + length t \<le> length b'" "length b' \<le> max_buf" "window b' off Hs = H" "window b' (length b) (length t) = t"
    for b' acc
  proof -
    have "struct_decode_fields m True fs acc (drop off b') 0 = Ok (Up s acc)"
      using b' b by (intro d [rule_format]) (auto simp: window_drop)
    then show ?thesis using s(2) by simp
  qed
  show ?thesis
    by (intro exI [of _ H] exI [of _ t] conjI allI impI) (rule h(1,2) enc dec; assumption)+
qed

lemma struct_sol_static_lawful:
  assumes F: "lawful_fields m True valid fs Hs Sz Up" and "wf_abi m" "al_up m 4 = 32" "Hs \<le> max_buf"
    and st: "\<not> struct_is_dynamic fs" and all: "\<And>s acc. valid s \<Longrightarrow> Up s acc = s"
  shows "lawful_codec m (struct_encoder m True fs s0) Hs Sz valid"
proof -
  note isz = isize_max_ge [OF assms(2)]
  have hs: "struct_aligned_header_size m True fs = Hs"
    using header_sum_sol [OF F _ assms(3), of 0] assms(4) isz by (simp add: struct_aligned_header_size_def)
  have sol: "True \<longrightarrow> al_up m 4 = 32" using assms(3) by simp
  show ?thesis
  proof (unfold_locales, goal_cases)
    case (2 s off b)
    have al: "al_up m off = off" "uadd m off Hs = off + Hs"
      using 2 isz al_up_off [OF assms(2)] by simp_all
    obtain H t where h: "length H = Hs" "length t \<le> Sz s"
        "with_tail b off (\<lambda>tail. struct_encode_fields m True fs s tail 0) = Ok (blit b off H @ t)"
      and d: "\<forall>b' acc. length b + length t \<le> length b' \<longrightarrow> length b' \<le> max_buf \<longrightarrow>
        window b' off Hs = H \<longrightarrow> window b' (length b) (length t) = t \<longrightarrow>
        struct_decode_fields m True fs acc (drop off b') 0 = Ok s"
      using struct_tail_split [OF F assms(2,3) 2(1) all [OF 2(1)] 2(3,4)] by (elim exE conjE)
    have enc: "encode (struct_encoder m True fs s0) s b off = Ok (blit b off H @ t)"
      using h(3) al hs 2(3) st by (simp add: struct_encoder_def struct_encode_def Let_def)
    have dec: "decode (struct_encoder m True fs s0) b' off = Ok s"
      if "length b + length t \<le> length b'" "length b' \<le> max_buf" "window b' off Hs = H" "window b' (length b) (length t) = t" for b'
      using d that al 2(3) st by (simp add: struct_encoder_def struct_decode_def checked_decode_slice_from_def Let_def)
    show ?case
      by (intro exI [of _ H] exI [of _ t] conjI allI impI) (rule h(1,2) enc dec; assumption)+
  next
    case (3 s)
    have "al_up m 0 = 0" by (rule al_up_off [OF assms(2)]) simp_all
    then show ?case
      using 3 isz hs st by (simp add: struct_encoder_def struct_encode_def Let_def resize_def)
  next
    case (4 b off)
    then have "al_up m off = off" using al_up_off [OF assms(2)] by simp
    then show ?case
      using struct_fields_no_panic [OF F assms(2) sol, of "drop off b" 0] 4 assms(4) st
      by (auto simp: struct_encoder_def struct_decode_def oc_simps checked_decode_slice_from_def Let_def split: if_splits)
  qed (use assms in auto)
qed

lemma struct_sol_dynamic_lawful:
  assumes F: "lawful_fields m True valid fs Hs Sz Up" and "wf_abi m" "al_up m 4 = 32" "Hs \<le> max_buf"
    and dy: "struct_is_dynamic fs" and all: "\<And>s acc. valid s \<Longrightarrow> Up s acc = s"
  shows "lawful_codec m (struct_encoder m True fs s0) 32 (\<lambda>s. Hs + Sz s) valid"
proof -
  note isz = isize_max_ge [OF assms(2)]
  have hs: "struct_aligned_header_size m True fs = Hs"
    using header_sum_sol [OF F _ assms(3), of 0] assms(4) isz by (simp add: struct_aligned_header_size_def)
  have sol: "True \<longrightarrow> al_up m 4 = 32" using assms(3) by simp
  show ?thesis
  proof (unfold_locales, goal_cases)
    case (2 s off b)
    have al: "al_up m off = off" "uadd m Hs (length b) = length b + Hs"
      using 2 isz al_up_off [OF assms(2)] by (simp_all add: add.commute)
    let ?H = "u32_word m (window b off 32) (word_of_nat (length b))"
    have lH: "length ?H = 32" using 2(3) length_u32_word [OF assms(2)] by (simp add: assms(3))
    have w: "write_u32_aligned m b off (word_of_nat (length b)) = Ok (blit b off ?H)"
      using write_u32_inside [OF assms(2)] 2(3,4) isz by (simp add: assms(3))
    let ?b = "blit b off ?H @ replicate Hs 0"
    have lb: "length ?b = length b + Hs" using lH 2(3) by simp
    have b1: "length b + Hs \<le> length ?b" "length ?b + Sz s \<le> max_buf" using lb 2(4) by simp_all
    obtain H t where h: "length H = Hs" "length t \<le> Sz s"
        "with_tail ?b (length b) (\<lambda>tail. struct_encode_fields m True fs s tail 0) = Ok (blit ?b (length b) H @ t)"
      and d: "\<forall>b' acc. length ?b + length t \<le> length b' \<longrightarrow> length b' \<le> max_buf \<longrightarrow>
        window b' (length b) Hs = H \<longrightarrow> window b' (length ?b) (length t) = t \<longrightarrow>
        struct_decode_fields m True fs acc (drop (length b) b') 0 = Ok s"
      using struct_tail_split [OF F assms(2,3) 2(1) all [OF 2(1)] b1] by (elim exE conjE)
    have "blit ?b (length b) H = blit b off ?H @ H" using h(1) lH 2(3) by (simp add: blit_def)
    moreover have "(if length (blit b off ?H) < uadd m Hs (length b) then resize (blit b off ?H) (uadd m Hs (length b)) else blit b off ?H) = ?b"
      using lH 2(3) al(2) by (simp add: resize_def)
    moreover have "length b \<noteq> 0" using 2(3) by linarith
    ultimately have enc: "encode (struct_encoder m True fs s0) s b off = Ok (blit b off ?H @ (H @ t))"
      using h(3) al(1) hs dy w
      by (simp add: struct_encoder_def struct_encode_def Let_def cong: if_cong split del: if_split)
    have dec: "decode (struct_encoder m True fs s0) b' off = Ok s"
      if b': "length b + length (H @ t) \<le> length b'" "length b' \<le> max_buf" "window b' off 32 = ?H"
        "window b' (length b) (length (H @ t)) = H @ t" for b'
    proof -
      have ww: "window b' (length b) Hs = H" "window b' (length ?b) (length t) = t"
        using b'(1,4) h(1) lb window_append [of b' "length b" Hs "length t"] by simp_all
      have "read_u32_aligned m b' off = Ok (word_of_nat (length b))"
        using read_u32_word [OF assms(2), of off b' "window b off 32"] b' 2(3) isz by (simp add: assms(3))
      moreover have "struct_decode_fields m True fs s0 (drop (length b) b') 0 = Ok s"
        using b'(1,2) ww h(1) lb by (intro d [rule_format]) auto
      ultimately show ?thesis
        using al(1) dy b'(1,2) by (simp add: struct_encoder_def struct_decode_def checked_decode_slice_from_def Let_def)
    qed
    have len: "length (H @ t) \<le> Hs + Sz s" using h(1,2) by simp
    show ?case
      by (intro exI [of _ ?H] exI [of _ "H @ t"] conjI allI impI) (rule lH len enc dec; assumption)+
  next
    case (3 s)
    have a0: "al_up m 0 = 0" by (rule al_up_off [OF assms(2)]) simp_all
    have "write_u32_aligned m [] 0 x = write_u32_aligned m (replicate 32 0) 0 x" for x
      using write_u32_aligned_Ok [OF assms(2), of 0] isz by (simp add: assms(3) ensure_conv)
    then show ?case using a0 dy by (simp add: struct_encoder_def struct_encode_def Let_def)
  next
    case (4 b off)
    have np: "read_u32_aligned m b i \<noteq> Panic" for i
      using 4 isz by (intro read_u32_aligned_no_panic [OF assms(2)]) auto
    show ?case
      using struct_fields_no_panic [OF F assms(2) sol, of "drop k b" 0 for k] 4 assms(4) dy np
      by (auto simp: struct_encoder_def struct_decode_def oc_simps checked_decode_slice_from_def Let_def split: if_splits)
  qed (use assms in auto)
qed

section \<open>Tuples and function arguments in Solidity mode\<close>

lemma tuple_encode_sol:
  assumes "ALIGN m = 32" "al_up m 4 = 32"
  shows "tuple_encode m True fs = struct_encode m True fs"
proof -
  have "is_power_of_two (ALIGN m)" unfolding assms(1) by code_simp
  then show ?thesis
    by (intro ext) (simp add: tuple_encode_def struct_encode_def struct_aligned_header_size_def assms(2) cong: if_cong)
qed

lemma tuple_decode_sol:
  assumes "al_up m off = off"
  shows "struct_decode m True fs s0 b off = Ok s \<Longrightarrow> tuple_decode m True fs s0 b off = Ok s"
    and "tuple_decode m True fs s0 b off = Panic \<Longrightarrow> struct_decode m True fs s0 b off = Panic"
proof -
  have "off \<le> length b" if "read_u32_aligned m b off = Ok d" for d
    using that by (auto simp: read_u32_aligned_def checked_add_usize_def Let_def oc_simps split: if_splits)
  then show "struct_decode m True fs s0 b off = Ok s \<Longrightarrow> tuple_decode m True fs s0 b off = Ok s"
    and "tuple_decode m True fs s0 b off = Panic \<Longrightarrow> struct_decode m True fs s0 b off = Panic"
    by (cases "read_u32_aligned m b off";
        auto simp: struct_decode_def tuple_decode_def assms checked_decode_slice_from_def slice_from_def
          split: if_splits)+
qed

lemma lawful_codec_variant:
  assumes E: "lawful_codec m E hs sz valid" and enc: "encode E' = encode E"
    and dec: "\<And>b off v. ALIGN m dvd off \<Longrightarrow> off \<le> max_buf \<Longrightarrow> decode E b off = Ok v \<Longrightarrow> decode E' b off = Ok v"
    and pan: "\<And>b off. ALIGN m dvd off \<Longrightarrow> off \<le> max_buf \<Longrightarrow> decode E' b off = Panic \<Longrightarrow> decode E b off = Panic"
  shows "lawful_codec m E' hs sz valid"
proof -
  note lo = lawful_codec.wf [OF E] lawful_codec.encode_split [OF E] lawful_codec.encode_empty [OF E] lawful_codec.no_panic [OF E]
  show ?thesis
  proof (unfold_locales, goal_cases)
    case (2 v off b)
    then have off: "off \<le> max_buf" by simp
    from lo(2) [OF 2] show ?case unfolding enc
      by (elim exE conjE) (intro exI conjI; (assumption | blast intro: dec [OF 2(2) off]))
  next
    case (4 b off)
    then have "off \<le> max_buf" by simp
    then show ?case using lo(4) [OF 4] pan [OF 4(2)] by auto
  qed (use lo in \<open>auto simp: enc\<close>)
qed

lemma tuple_sol_lawful:
  assumes "lawful_codec m (struct_encoder m True fs s0) hs sz valid" "ALIGN m = 32" "al_up m 4 = 32"
  shows "lawful_codec m (tuple_encoder m True fs s0) hs sz valid"
proof (rule lawful_codec_variant [OF assms(1)])
  show "encode (tuple_encoder m True fs s0) = encode (struct_encoder m True fs s0)"
    by (simp add: tuple_encoder_def struct_encoder_def tuple_encode_sol [OF assms(2,3)])
  fix off b v assume off: "ALIGN m dvd off" "off \<le> max_buf"
  note al = al_up_off [OF lawful_codec.wf [OF assms(1)] off]
  show "decode (struct_encoder m True fs s0) b off = Ok v \<Longrightarrow> decode (tuple_encoder m True fs s0) b off = Ok v"
    and "decode (tuple_encoder m True fs s0) b off = Panic \<Longrightarrow> decode (struct_encoder m True fs s0) b off = Panic"
    using tuple_decode_sol [OF al, of fs s0 b] by (simp_all add: tuple_encoder_def struct_encoder_def)
qed

text \<open>Function arguments drop the pointer a dynamic tuple starts with; decoding puts it back.\<close>

lemma struct_pointer_word:
  assumes "struct_is_dynamic fs" "struct_encode SolidityABI True fs s [] 0 = Ok b"
  shows "take 32 b = replicate 28 0 @ be_bytes 4 32" "32 \<le> length b"
proof -
  let ?w = "replicate 28 0 @ be_bytes 4 32 :: byte list"
  have w: "write_u32_aligned SolidityABI [] 0 32 = Ok ?w"
    by (simp add: write_u32_aligned_Ok u32_pos_def ensure_conv blit_def write_uint_def)
  have a0: "align_up 4294967295 32 0 = 0" by code_simp
  define r where "r = uadd SolidityABI (struct_aligned_header_size SolidityABI True fs) 32"
  define b2 where "b2 = (if length ?w < r then resize ?w r else ?w)"
  have "struct_encode SolidityABI True fs s [] 0 =
      with_tail b2 32 (\<lambda>tail. struct_encode_fields SolidityABI True fs s tail 0)"
    using assms(1) w by (simp add: struct_encode_def a0 Let_def b2_def r_def cong: if_cong)
  then have "with_tail b2 32 (\<lambda>tail. struct_encode_fields SolidityABI True fs s tail 0) = Ok b"
    using assms(2) by simp
  then obtain tail where "b = take 32 b2 @ tail"
    by (auto simp: with_tail_def oc_simps split: if_splits)
  moreover have "take 32 b2 = ?w" by (simp add: b2_def resize_def)
  ultimately show "take 32 b = ?w" "32 \<le> length b" by auto
qed

lemma args_round_trip:
  assumes "struct_is_dynamic fs" "lawful_codec SolidityABI (tuple_encoder SolidityABI True fs s0) hs sz valid"
    and "valid s" "hs + sz s \<le> max_buf"
  shows "\<exists>b. encode_as_args SolidityABI (tuple_encoder SolidityABI True fs s0) s [] = Ok b \<and>
     decode_as_args SolidityABI True (tuple_encoder SolidityABI True fs s0) b = Ok s"
proof -
  let ?E = "tuple_encoder SolidityABI True fs s0"
  obtain b where b: "encode ?E s [] 0 = Ok b" "decode ?E b 0 = Ok s"
    using lawful_codec.top_round_trip [OF assms(2-4)] by blast
  have "struct_encode SolidityABI True fs s [] 0 = Ok b"
    using b(1) tuple_encode_sol [of SolidityABI fs] by (simp add: tuple_encoder_def)
  note w = struct_pointer_word [OF assms(1) this]
  have dyn: "IS_DYNAMIC ?E" using assms(1) by (simp add: tuple_encoder_def)
  have "write_slice (replicate 32 0) 28 32 (be_bytes 4 32) = (Ok (take 32 b) :: buf decoded)"
    unfolding w(1) by (simp add: write_slice_def blit_def)
  then have "decode_as_args SolidityABI True ?E (drop 32 b) = Ok s"
    using b(2) dyn by (simp add: decode_as_args_def)
  moreover have "encode_as_args SolidityABI ?E s [] = Ok (drop 32 b)"
    using b(1) dyn w(2) by (simp add: encode_as_args_def)
  ultimately show ?thesis by blast
qed

section \<open>Properties\<close>

text \<open>
  C15. A derived struct whose fields are lawful and are all stored back is read back unchanged in
  Solidity mode, whether it is static or has dynamic fields, and decoding arbitrary input at an
  aligned offset never panics.
\<close>

theorem struct_sol_round_trip:
  assumes "lawful_fields SolidityABI True valid fs Hs Sz Up" "\<And>s acc. valid s \<Longrightarrow> Up s acc = s"
    and "valid s" "32 + Hs + Sz s \<le> max_buf"
  shows "(\<exists>b. encode (struct_encoder SolidityABI True fs s0) s [] 0 = Ok b \<and>
       decode (struct_encoder SolidityABI True fs s0) b 0 = Ok s) \<and>
     (\<forall>b off. length b \<le> max_buf \<longrightarrow> 32 dvd off \<longrightarrow> off + 32 + Hs \<le> max_buf \<longrightarrow>
       decode (struct_encoder SolidityABI True fs s0) b off \<noteq> Panic)"
proof (cases "struct_is_dynamic fs")
  case True
  have "lawful_codec SolidityABI (struct_encoder SolidityABI True fs s0) 32 (\<lambda>s. Hs + Sz s) valid"
    using assms True by (intro struct_sol_dynamic_lawful [OF assms(1)]) auto
  from lawful_codec.top_round_trip [OF this assms(3)] lawful_codec.no_panic [OF this] show ?thesis
    using assms(4) by auto
next
  case False
  have "lawful_codec SolidityABI (struct_encoder SolidityABI True fs s0) Hs Sz valid"
    using assms False by (intro struct_sol_static_lawful [OF assms(1)]) auto
  from lawful_codec.top_round_trip [OF this assms(3)] lawful_codec.no_panic [OF this] show ?thesis
    using assms(4) by auto
qed

definition bool_bytes_fields :: "(bool \<times> byte list) field_info list" where
  "bool_bytes_fields =
     [field (bool_encoder SolidityABI) fst (\<lambda>v p. (v, snd p)),
      field (bytes_sol_encoder SolidityABI) snd (\<lambda>v p. (fst p, v))]"

lemma align_up_one [simp]: "align_up 4294967295 32 (Suc 0) = 32" "align_up 4294967295 4 (Suc 0) = 4"
  by code_simp+

lemma bool_bytes_lawful:
  "lawful_fields SolidityABI True (\<lambda>_. True) bool_bytes_fields (32 + (32 + 0))
     (\<lambda>s. 0 + (64 + length (snd s) + 0)) (\<lambda>s acc. (fst s, snd s))"
proof -
  note a = lawful_fieldI [OF sol_bool.general.lawful_codec_axioms,
      where valid = "\<lambda>_. True" and get = fst and put = "\<lambda>v p. (v, snd p)"]
    and b = lawful_fieldI [OF sol_bytes.lawful_codec_axioms,
      where valid = "\<lambda>_. True" and get = snd and put = "\<lambda>v p. (fst p, v)"]
  have h: "al_up SolidityABI (HEADER_SIZE (bool_encoder SolidityABI)) = 32" by (simp add: bool_encoder_def)
  have "lawful_fields SolidityABI True (\<lambda>_. True) bool_bytes_fields (32 + (32 + 0))
     (\<lambda>s. 0 + (64 + length (snd s) + 0)) (\<lambda>s acc. (\<lambda>s acc. (\<lambda>_ acc. acc) s ((\<lambda>v p. (fst p, v)) (snd s) acc)) s
        ((\<lambda>v p. (v, snd p)) (fst s) acc))"
    unfolding bool_bytes_fields_def
    by (intro lawful_fields.intros)
       (use a b h in \<open>auto simp: field_def bool_encoder_def bytes_sol_encoder_def\<close>)
  then show ?thesis by simp
qed

theorem struct_sol_round_trip_witness:
  "\<exists>b. encode (struct_encoder SolidityABI True bool_bytes_fields (False, [])) (True, [1, 2]) [] 0 = Ok b \<and>
     decode (struct_encoder SolidityABI True bool_bytes_fields (False, [])) b 0 = Ok (True, [1, 2])"
  using struct_sol_round_trip [OF bool_bytes_lawful, of "(True, [1, 2])" "(False, [])"] by auto



definition pair_fields :: "'a encoder \<Rightarrow> 'b encoder \<Rightarrow> ('a \<times> 'b) field_info list" where
  "pair_fields A B = [field A fst (\<lambda>v p. (v, snd p)), field B snd (\<lambda>v p. (fst p, v))]"

definition point_encoder :: "(u64 \<times> u64) encoder" where
  "point_encoder = struct_encoder SolidityABI True
     (pair_fields (int_encoder SolidityABI False) (int_encoder SolidityABI False)) (0, 0)"

text \<open>
  A derived struct reserves the unaligned sum of its headers, so nesting a struct of two
  small integers in another one loses a field in Solidity mode: \<open>{{1, 2}, 3}\<close> is decoded as
  \<open>{{1, 3}, 3}\<close>.
\<close>

theorem nested_struct_overlap:
  "oc_bind (encode (struct_encoder SolidityABI True (pair_fields point_encoder (int_encoder SolidityABI False))
        ((0, 0), 0 :: u64)) ((1, 2), 3) [] 0)
     (\<lambda>b. decode (struct_encoder SolidityABI True (pair_fields point_encoder (int_encoder SolidityABI False))
        ((0, 0), 0 :: u64)) b 0) = Ok ((1, 3), 3)"
proof -
  let ?w = "\<lambda>x :: byte. replicate 31 0 @ [x]"
  have h: "HEADER_SIZE point_encoder = 16" "\<not> IS_DYNAMIC point_encoder" "align_up 4294967295 32 16 = 32"
    "align_up 4294967295 32 0 = 0" by code_simp+
  have e: "encode point_encoder (1, 2) (replicate 64 0) 0 = Ok (?w 1 @ ?w 2)"
    "int_encode SolidityABI False (3 :: u64) (?w 1 @ ?w 2) 32 = Ok (?w 1 @ ?w 3)" by code_simp+
  have d: "decode point_encoder (?w 1 @ ?w 3) 0 = Ok (1, 3)"
    "int_decode SolidityABI (?w 1 @ ?w 3) 32 = Ok (3 :: u64)" by code_simp+
  show ?thesis
    using h e d
    by (simp add: struct_encoder_def struct_encode_def struct_decode_def pair_fields_def field_def struct_is_dynamic_def
        struct_aligned_header_size_def int_encoder_def with_tail_def resize_def checked_decode_slice_from_def)
qed

definition item_encoder :: "(u256 \<times> byte list) encoder" where
  "item_encoder = struct_encoder SolidityABI True
     (pair_fields (uint_sol_encoder SolidityABI) (bytes_sol_encoder SolidityABI)) (0, [])"

text \<open>
  A Solidity-mode vector of structs \<open>{uint256, bytes}\<close> spaces its pointers by the struct's
  header size but reserves 32 bytes for each, so the second pointer overwrites the first element:
  the integer 1 is decoded as 192.
\<close>

theorem vec_of_dynamic_structs_overlap:
  "oc_bind (encode (vec_sol_encoder SolidityABI item_encoder) [(1, [1]), (2, [2])] [] 0)
     (\<lambda>b. decode (vec_sol_encoder SolidityABI item_encoder) b 0) = Ok [(192, [1]), (2, [2])]"
proof -
  let ?w = "\<lambda>x :: byte. replicate 31 0 @ [x]" and ?z = "replicate 31 (0 :: byte)"
  define c where "c = ?w 64 @ ?w 0 @ ?w 192 @ ?w 64 @ ?w 1 @ (1 # ?z) @ ?w 2 @ ?w 64 @ ?w 1 @ (2 # ?z)"
  have h: "HEADER_SIZE item_encoder = 64" "align_up 4294967295 32 64 = 64" by code_simp+
  have e1: "encode item_encoder (1, [1]) (replicate 64 0) 0 = Ok (?w 64 @ ?w 0 @ ?w 1 @ ?w 64 @ ?w 1 @ (1 # ?z))"
    by code_simp
  have e2: "encode item_encoder (2, [2]) (?w 64 @ ?w 0 @ ?w 1 @ ?w 64 @ ?w 1 @ (1 # ?z)) 64 = Ok c"
    unfolding c_def by code_simp
  have enc: "encode (vec_sol_encoder SolidityABI item_encoder) [(1, [1]), (2, [2])] [] 0 = Ok (?w 32 @ ?w 2 @ c)"
  proof -
    have "write_u32_aligned SolidityABI (replicate 32 0) 0 32 = Ok (?w 32)"
      "write_u32_aligned SolidityABI (?w 32) 32 2 = Ok (?w 32 @ ?w 2)" by code_simp+
    then show ?thesis
      using e1 e2 h by (simp add: vec_sol_encoder_def vec_sol_encode_def resize_def write_bytes_solidity_def Let_def)
  qed
  have dec: "decode item_encoder c 0 = Ok (192, [1])" "decode item_encoder c 64 = Ok (2, [2])"
    unfolding c_def by code_simp+
  have "read_u32_aligned SolidityABI (?w 32 @ ?w 2 @ c) 0 = Ok 32"
    "read_u32_aligned SolidityABI (?w 32 @ ?w 2 @ c) 32 = Ok 2" "length c = 320"
    unfolding c_def by code_simp+
  moreover have "vec_decode_items SolidityABI item_encoder 64 (Suc (Suc 0)) 0 c = Ok [(192, [1]), (2, [2])]"
    using dec by (simp add: checked_mul_usize_def)
  then have "vec_decode_items SolidityABI item_encoder 64 2 0 c = Ok [(192, [1]), (2, [2])]"
    by (simp only: numeral_2_eq_2)
  ultimately have "decode (vec_sol_encoder SolidityABI item_encoder) (?w 32 @ ?w 2 @ c) 0 = Ok [(192, [1]), (2, [2])]"
    using h by (simp add: vec_sol_encoder_def vec_sol_decode_def checked_add_usize_def checked_mul_usize_def
        checked_decode_slice_from_def validate_collection_body_def)
  then show ?thesis using enc by simp
qed

definition args_encoder :: "(byte list \<times> u32) encoder" where
  "args_encoder = tuple_encoder CompactABI False
     (pair_fields (bytes_compact_encoder CompactABI) (int_encoder CompactABI False)) ([], 0)"

text \<open>
  A dynamic tuple nested in another one does not survive the compact mode: its pointer is
  the length of the buffer while its body stays behind the pointer. At the top level it does.
\<close>

theorem nested_tuple_compact:
  "oc_bind (encode args_encoder ([1, 2, 3], 5) [] 0) (\<lambda>b. decode args_encoder b 0) = Ok ([1, 2, 3], 5) \<and>
   oc_bind (encode (tuple_encoder CompactABI False (pair_fields args_encoder (int_encoder CompactABI False))
        (([], 0), 0 :: u32)) (([1, 2, 3], 5), 7) [] 0)
     (\<lambda>b. decode (tuple_encoder CompactABI False (pair_fields args_encoder (int_encoder CompactABI False))
        (([], 0), 0 :: u32)) b 0) =
   Err (Decoding (BufferTooSmall 8 4 ''buffer too small to read bytes header''))"
proof
  have "encode args_encoder ([1, 2, 3], 5) [] 0 = Ok [4, 0, 0, 0, 12, 0, 0, 0, 3, 0, 0, 0, 5, 0, 0, 0, 1, 2, 3, 0]"
    "decode args_encoder [4, 0, 0, 0, 12, 0, 0, 0, 3, 0, 0, 0, 5, 0, 0, 0, 1, 2, 3, 0] 0 = Ok ([1, 2, 3], 5)"
    by code_simp+
  then show "oc_bind (encode args_encoder ([1, 2, 3], 5) [] 0) (\<lambda>b. decode args_encoder b 0) = Ok ([1, 2, 3], 5)"
    by simp
  have h: "HEADER_SIZE args_encoder = 12" "IS_DYNAMIC args_encoder" "is_power_of_two 4" by code_simp+
  have e: "encode args_encoder ([1, 2, 3], 5) (replicate 16 0) 0 =
      Ok [16, 0, 0, 0, 12, 0, 0, 0, 3, 0, 0, 0, 5, 0, 0, 0, 1, 2, 3, 0]"
    "int_encode CompactABI False (7 :: u32) [16, 0, 0, 0, 12, 0, 0, 0, 3, 0, 0, 0, 5, 0, 0, 0, 1, 2, 3, 0] 12 =
      Ok [16, 0, 0, 0, 12, 0, 0, 0, 3, 0, 0, 0, 7, 0, 0, 0, 1, 2, 3, 0]"
    "write_u32_aligned CompactABI [] 0 4 = Ok [4, 0, 0, 0]" by code_simp+
  have d: "read_u32_aligned CompactABI [4, 0, 0, 0, 16, 0, 0, 0, 12, 0, 0, 0, 3, 0, 0, 0, 7, 0, 0, 0, 1, 2, 3, 0] 0 = Ok 4"
    "decode args_encoder [16, 0, 0, 0, 12, 0, 0, 0, 3, 0, 0, 0, 7, 0, 0, 0, 1, 2, 3, 0] 0 =
      Err (Decoding (BufferTooSmall 8 4 ''buffer too small to read bytes header''))" by code_simp+
  show "oc_bind (encode (tuple_encoder CompactABI False (pair_fields args_encoder (int_encoder CompactABI False))
        (([], 0), 0 :: u32)) (([1, 2, 3], 5), 7) [] 0)
     (\<lambda>b. decode (tuple_encoder CompactABI False (pair_fields args_encoder (int_encoder CompactABI False))
        (([], 0), 0 :: u32)) b 0) =
   Err (Decoding (BufferTooSmall 8 4 ''buffer too small to read bytes header''))"
    using h e d
    by (simp add: tuple_encoder_def tuple_encode_def tuple_decode_def pair_fields_def field_def struct_is_dynamic_def
        int_encoder_def with_tail_def resize_def slice_from_def Let_def)
qed

end
