(* ===== verification/Codec_Topic.thy ===== *)
theory Codec_Topic
  imports Codec_Struct
begin

text \<open>
  Topics of indexed event parameters (\<open>crates/codec/src/topic.rs\<close>): a value type is its ABI word, a
  reference type the hash of a preimage in which every member occupies whole words and nothing is
  counted or pointed at. The trait \<open>SolidityEventTopic\<close> is a record of its constant and two methods,
  which append to a buffer.
\<close>

section \<open>topic.rs\<close>

record 'a event_topic =
  IS_REFERENCE_TYPE :: bool
  encode_topic_preimage :: "'a \<Rightarrow> buf \<Rightarrow> buf decoded"
  encode_topic_input :: "'a \<Rightarrow> buf \<Rightarrow> buf decoded"

datatype indexed_topic = TopicWord "byte list" | Preimage "byte list"

definition encode_indexed_topic :: "'a event_topic \<Rightarrow> 'a \<Rightarrow> indexed_topic decoded" where
  "encode_indexed_topic T value =
     oc_bind (encode_topic_input T value []) (\<lambda>out.
       if IS_REFERENCE_TYPE T then Ok (Preimage out)
       else if length out = 32 then Ok (TopicWord out)
       else Err (Encoding (InvalidInputData ''an indexed value type must encode to exactly 32 bytes'')))"

definition write_value_word :: "'a encoder \<Rightarrow> 'a \<Rightarrow> buf \<Rightarrow> buf decoded" where
  "write_value_word E value out = oc_bind (encode E value [] 0) (\<lambda>word. Ok (out @ word))"

definition bytes_member_padding :: "nat \<Rightarrow> nat" where
  "bytes_member_padding len = (if len = 0 then 32 else if len mod 32 = 0 then 0 else 32 - len mod 32)"

definition write_bytes_member :: "byte list \<Rightarrow> buf \<Rightarrow> buf" where
  "write_bytes_member value out = out @ value @ replicate (bytes_member_padding (length value)) 0"

text \<open>\<open>impl_value_type!\<close>, \<open>FixedBytes\<close>, \<open>Uint\<close> and \<open>Signed\<close>.\<close>

definition value_topic :: "'a encoder \<Rightarrow> 'a event_topic" where
  "value_topic E = \<lparr>IS_REFERENCE_TYPE = False, encode_topic_preimage = write_value_word E,
     encode_topic_input = write_value_word E\<rparr>"

text \<open>\<open>Bytes\<close> and, on its UTF-8 bytes, \<open>String\<close>.\<close>

definition bytes_topic :: "byte list event_topic" where
  "bytes_topic = \<lparr>IS_REFERENCE_TYPE = True, encode_topic_preimage = (\<lambda>v out. Ok (write_bytes_member v out)),
     encode_topic_input = (\<lambda>v out. Ok (out @ v))\<rparr>"

fun list_preimage :: "('a \<Rightarrow> buf \<Rightarrow> buf decoded) \<Rightarrow> 'a list \<Rightarrow> buf \<Rightarrow> buf decoded" where
  "list_preimage f [] out = Ok out"
| "list_preimage f (x # xs) out = oc_bind (f x out) (\<lambda>out'. list_preimage f xs out')"

text \<open>\<open>Vec<T>\<close> and \<open>[T; N]\<close>.\<close>

definition list_topic :: "'a event_topic \<Rightarrow> 'a list event_topic" where
  "list_topic T = \<lparr>IS_REFERENCE_TYPE = True, encode_topic_preimage = list_preimage (encode_topic_preimage T),
     encode_topic_input = list_preimage (encode_topic_preimage T)\<rparr>"

text \<open>Tuples are nested pairs that end in the empty tuple.\<close>

definition unit_topic :: "unit event_topic" where
  "unit_topic = \<lparr>IS_REFERENCE_TYPE = True, encode_topic_preimage = (\<lambda>_ out. Ok out),
     encode_topic_input = (\<lambda>_ out. Ok out)\<rparr>"

definition tuple_topic :: "'a event_topic \<Rightarrow> 'b event_topic \<Rightarrow> ('a \<times> 'b) event_topic" where
  "tuple_topic A B =
     (let pre = (\<lambda>v out. oc_bind (encode_topic_preimage A (fst v) out) (encode_topic_preimage B (snd v)))
      in \<lparr>IS_REFERENCE_TYPE = True, encode_topic_preimage = pre, encode_topic_input = pre\<rparr>)"

section \<open>The contract of members\<close>

text \<open>
  A member appends its own preimage, which depends on nothing before it and fills whole words;
  \<open>pre v\<close> is that preimage.
\<close>

locale topic_member =
  fixes T :: "'a event_topic" and pre :: "'a \<Rightarrow> byte list" and valid :: "'a \<Rightarrow> bool"
  assumes appends: "valid v \<Longrightarrow> encode_topic_preimage T v out = Ok (out @ pre v)"
    and words: "valid v \<Longrightarrow> 32 dvd length (pre v)"
begin

lemma list_appends:
  "list_all valid vs \<Longrightarrow> list_preimage (encode_topic_preimage T) vs out = Ok (out @ concat (map pre vs))"
  by (induction vs arbitrary: out) (simp_all add: appends)

lemma list_words: "list_all valid vs \<Longrightarrow> 32 dvd length (concat (map pre vs))"
  by (induction vs) (simp_all add: words)

lemma list_member: "topic_member (list_topic T) (\<lambda>vs. concat (map pre vs)) (list_all valid)"
  by unfold_locales (simp_all add: list_topic_def list_appends list_words)

end

lemma member_padding_words: "32 dvd n + bytes_member_padding n"
proof -
  define q r where "q = n div 32" and "r = n mod 32"
  then have n: "n = 32 * q + r" "r < 32" by simp_all
  have m: "(32 * q + r) mod 32 = r" using n(2) by simp
  show ?thesis
  proof (cases "r = 0")
    case True
    then show ?thesis by (simp add: n(1) bytes_member_padding_def)
  next
    case False
    then have "n + bytes_member_padding n = 32 * Suc q" using n(2) m by (simp add: n(1) bytes_member_padding_def)
    then show ?thesis by (simp only: dvd_triv_left)
  qed
qed

lemma first_word: "get_aligned_slice (sol32 SolidityABI) [] 0 32 = (replicate 32 0, 0, 32)"
  by code_simp

lemma sol_words_encoded:
  "encode (address_sol_encoder SolidityABI) a [] 0 = Ok (replicate 12 0 @ to_be_bytes a)"
  "encode (uint_sol_encoder SolidityABI) (v :: u256) [] 0 = Ok (to_be_bytes v)"
  by (simp_all add: address_sol_encoder_def address_sol_encode_def uint_sol_encoder_def uint_sol_encode_def
    first_word uint_bytes_def write_slice_def write_uint_def to_be_bytes_def blit_def Let_def)

interpretation address_topic: topic_member "value_topic (address_sol_encoder SolidityABI)"
    "\<lambda>a. replicate 12 0 @ to_be_bytes a" "\<lambda>_. True"
  by unfold_locales (simp_all add: value_topic_def write_value_word_def sol_words_encoded)

interpretation u256_topic: topic_member "value_topic (uint_sol_encoder SolidityABI :: u256 encoder)"
    to_be_bytes "\<lambda>_. True"
  by unfold_locales (simp_all add: value_topic_def write_value_word_def sol_words_encoded)

interpretation bytes_topic: topic_member bytes_topic
    "\<lambda>v. v @ replicate (bytes_member_padding (length v)) 0" "\<lambda>_. True"
  by unfold_locales (simp_all add: bytes_topic_def write_bytes_member_def member_padding_words)

interpretation bytes_list_topic: topic_member "list_topic bytes_topic"
    "\<lambda>vs. concat (map (\<lambda>v. v @ replicate (bytes_member_padding (length v)) 0) vs)" "list_all (\<lambda>_. True)"
  by (rule bytes_topic.list_member)

section \<open>Properties\<close>

lemma address_indexed [simp]:
  "encode_indexed_topic (value_topic (address_sol_encoder SolidityABI)) a = Ok (TopicWord (replicate 12 0 @ to_be_bytes a))"
  by (simp add: encode_indexed_topic_def value_topic_def write_value_word_def sol_words_encoded)


end
