(* ===== verification/Token_Command.thy ===== *)
theory Token_Command
  imports Codec_Struct Storage_Collections
begin

text \<open>
  The calls of the universal token (\<open>crates/sdk/src/universal_token/consts.rs\<close> and \<open>command.rs\<close>):
  its selectors, error codes and storage slots, the argument structs with their derived encoders,
  and the framing of a call as a selector followed by the Solidity encoding of the arguments. The
  constants are hashes the macros \<open>derive_keccak256_id!\<close>, \<open>derive_evm_error!\<close>, \<open>derive_keccak256!\<close>
  and \<open>erc7201_slot!\<close> compute at compile time; they are written out here.
\<close>

section \<open>consts.rs\<close>

named_theorems token_consts

subsection \<open>Error codes\<close>

definition ERR_UST_UNKNOWN_METHOD :: u32 where [token_consts]:
  "ERR_UST_UNKNOWN_METHOD = 0xB0D8E5D7"

definition ERR_UST_NOT_PAUSABLE :: u32 where [token_consts]:
  "ERR_UST_NOT_PAUSABLE = 0x0507E61C"

definition ERR_UST_PAUSER_MISMATCH :: u32 where [token_consts]:
  "ERR_UST_PAUSER_MISMATCH = 0xBB8DB808"

definition ERR_UST_NOT_MINTABLE :: u32 where [token_consts]:
  "ERR_UST_NOT_MINTABLE = 0x9F1090B2"

definition ERR_UST_MINTER_MISMATCH :: u32 where [token_consts]:
  "ERR_UST_MINTER_MISMATCH = 0xF5143E51"

definition ERR_UST_NOT_WRAPPED :: u32 where [token_consts]:
  "ERR_UST_NOT_WRAPPED = 0x9E6D5C02"

definition ERR_UST_EXPIRED_DEADLINE :: u32 where [token_consts]:
  "ERR_UST_EXPIRED_DEADLINE = 0x16DB56D2"

definition ERR_UST_INVALID_SIGNATURE :: u32 where [token_consts]:
  "ERR_UST_INVALID_SIGNATURE = 0xF7C8CA29"

definition ERR_ERC20_INSUFFICIENT_BALANCE :: u32 where [token_consts]:
  "ERR_ERC20_INSUFFICIENT_BALANCE = 0xE450D38C"

definition ERR_ERC20_INVALID_SENDER :: u32 where [token_consts]:
  "ERR_ERC20_INVALID_SENDER = 0x96C6FD1E"

definition ERR_ERC20_INVALID_RECEIVER :: u32 where [token_consts]:
  "ERR_ERC20_INVALID_RECEIVER = 0xEC442F05"

definition ERR_ERC20_INSUFFICIENT_ALLOWANCE :: u32 where [token_consts]:
  "ERR_ERC20_INSUFFICIENT_ALLOWANCE = 0xFB8F41B2"

definition ERR_ERC20_INVALID_APPROVER :: u32 where [token_consts]:
  "ERR_ERC20_INVALID_APPROVER = 0xE602DF05"

definition ERR_ERC20_INVALID_SPENDER :: u32 where [token_consts]:
  "ERR_ERC20_INVALID_SPENDER = 0x94280D62"

definition ERR_PAUSABLE_ENFORCED_PAUSE :: u32 where [token_consts]:
  "ERR_PAUSABLE_ENFORCED_PAUSE = 0xD93C0665"

definition ERR_PAUSABLE_EXPECTED_PAUSE :: u32 where [token_consts]:
  "ERR_PAUSABLE_EXPECTED_PAUSE = 0x8DFC202B"

subsection \<open>Selectors\<close>

definition SIG_ERC20_SYMBOL :: u32 where [token_consts]:
  "SIG_ERC20_SYMBOL = 0x95D89B41"

definition SIG_ERC20_NAME :: u32 where [token_consts]:
  "SIG_ERC20_NAME = 0x06FDDE03"

definition SIG_ERC20_DECIMALS :: u32 where [token_consts]:
  "SIG_ERC20_DECIMALS = 0x313CE567"

definition SIG_ERC20_TOTAL_SUPPLY :: u32 where [token_consts]:
  "SIG_ERC20_TOTAL_SUPPLY = 0x18160DDD"

definition SIG_ERC20_BALANCE :: u32 where [token_consts]:
  "SIG_ERC20_BALANCE = 0xB69EF8A8"

definition SIG_ERC20_BALANCE_OF :: u32 where [token_consts]:
  "SIG_ERC20_BALANCE_OF = 0x70A08231"

definition SIG_ERC20_TRANSFER :: u32 where [token_consts]:
  "SIG_ERC20_TRANSFER = 0xA9059CBB"

definition SIG_ERC20_TRANSFER_FROM :: u32 where [token_consts]:
  "SIG_ERC20_TRANSFER_FROM = 0x23B872DD"

definition SIG_ERC20_ALLOWANCE :: u32 where [token_consts]:
  "SIG_ERC20_ALLOWANCE = 0xDD62ED3E"

definition SIG_ERC20_APPROVE :: u32 where [token_consts]:
  "SIG_ERC20_APPROVE = 0x095EA7B3"

definition SIG_ERC20_MINT :: u32 where [token_consts]:
  "SIG_ERC20_MINT = 0x40C10F19"

definition SIG_ERC20_BURN :: u32 where [token_consts]:
  "SIG_ERC20_BURN = 0x9DC29FAC"

definition SIG_ERC20_PAUSE :: u32 where [token_consts]:
  "SIG_ERC20_PAUSE = 0x8456CB59"

definition SIG_ERC20_UNPAUSE :: u32 where [token_consts]:
  "SIG_ERC20_UNPAUSE = 0x3F4BA83A"

definition SIG_ERC20_DEPOSIT :: u32 where [token_consts]:
  "SIG_ERC20_DEPOSIT = 0xD0E30DB0"

definition SIG_ERC20_WITHDRAW :: u32 where [token_consts]:
  "SIG_ERC20_WITHDRAW = 0x2E1A7D4D"

definition SIG_ERC20_PERMIT :: u32 where [token_consts]:
  "SIG_ERC20_PERMIT = 0xD505ACCF"

definition SIG_ERC20_NONCES :: u32 where [token_consts]:
  "SIG_ERC20_NONCES = 0x7ECEBE00"

definition SIG_ERC20_DOMAIN_SEPARATOR :: u32 where [token_consts]:
  "SIG_ERC20_DOMAIN_SEPARATOR = 0x3644E515"

definition SIG_TOKEN2022 :: u32 where [token_consts]:
  "SIG_TOKEN2022 = 0xF9733472"

subsection \<open>Type hashes of EIP-712 and EIP-2612\<close>

definition EIP712_DOMAIN_TYPEHASH :: "byte list" where
  "EIP712_DOMAIN_TYPEHASH =
     [0x8B, 0x73, 0xC3, 0xC6, 0x9B, 0xB8, 0xFE, 0x3D, 0x51, 0x2E, 0xCC, 0x4C, 0xF7, 0x59, 0xCC, 0x79,
      0x23, 0x9F, 0x7B, 0x17, 0x9B, 0x0F, 0xFA, 0xCA, 0xA9, 0xA7, 0x5D, 0x52, 0x2B, 0x39, 0x40, 0x0F]"

definition EIP2612_PERMIT_TYPEHASH :: "byte list" where
  "EIP2612_PERMIT_TYPEHASH =
     [0x6E, 0x71, 0xED, 0xAE, 0x12, 0xB1, 0xB9, 0x7F, 0x4D, 0x1F, 0x60, 0x37, 0x0F, 0xEF, 0x10, 0x10,
      0x5F, 0xA2, 0xFA, 0xAE, 0x01, 0x26, 0x11, 0x4A, 0x16, 0x9C, 0x64, 0x84, 0x5D, 0x61, 0x26, 0xC9]"

definition EIP2612_VERSION_HASH :: "byte list" where
  "EIP2612_VERSION_HASH =
     [0xC8, 0x9E, 0xFD, 0xAA, 0x54, 0xC0, 0xF2, 0x0C, 0x7A, 0xDF, 0x61, 0x28, 0x82, 0xDF, 0x09, 0x50,
      0xF5, 0xA9, 0x51, 0x63, 0x7E, 0x03, 0x07, 0xCD, 0xCB, 0x4C, 0x67, 0x2F, 0x29, 0x8B, 0x8B, 0xC6]"

subsection \<open>Storage slots\<close>

definition TOTAL_SUPPLY_STORAGE_SLOT :: u256 where [token_consts]:
  "TOTAL_SUPPLY_STORAGE_SLOT =
     0x6BDE277F190E7804FE37CCDADB60BADD656E93EDEAAA88BEAC9C782346D86900"

definition MINTER_STORAGE_SLOT :: u256 where [token_consts]:
  "MINTER_STORAGE_SLOT =
     0x4E8D8E98D29CA93D7783A0F1AB44F7708AC11CB4CFEEF5AE35E36F315EF1FD00"

definition PAUSER_STORAGE_SLOT :: u256 where [token_consts]:
  "PAUSER_STORAGE_SLOT =
     0xEA3842D68741C42B88F017187299E1419A3ADAB8B5E3E15F97E1C44F480E1300"

definition CONTRACT_FROZEN_STORAGE_SLOT :: u256 where [token_consts]:
  "CONTRACT_FROZEN_STORAGE_SLOT =
     0x474748FDE97F8CF2B98F0D5D4B6CF474F7EBFE9A1C30B2F52AAB4F9882FFBA00"

definition SYMBOL_STORAGE_SLOT :: u256 where [token_consts]:
  "SYMBOL_STORAGE_SLOT =
     0x6F35CF0FDC5172410248157A5C9761F4DE9615C64D808481AD84FE799953EA00"

definition NAME_STORAGE_SLOT :: u256 where [token_consts]:
  "NAME_STORAGE_SLOT =
     0xC088BC7AC1D7BF810142F321832509AA837F2507209A60E761DE6C1F8BECFC00"

definition DECIMALS_STORAGE_SLOT :: u256 where [token_consts]:
  "DECIMALS_STORAGE_SLOT =
     0x9BBD224CC0A1AD9871762CF807ACDB457085586C1BAF654DE7C1C5980C022D00"

definition ALLOWANCE_STORAGE_SLOT :: u256 where [token_consts]:
  "ALLOWANCE_STORAGE_SLOT =
     0x62955C5C333F9F4073E6B303DC779C6C9D3202F40C8B07E9E2CC961AD7938A00"

definition NONCES_STORAGE_SLOT :: u256 where [token_consts]:
  "NONCES_STORAGE_SLOT =
     0x826E3D3E7E1038F84D352625CF14974931C92B2FD098C49760192CE85D57E200"

definition BALANCE_STORAGE_SLOT :: u256 where [token_consts]:
  "BALANCE_STORAGE_SLOT =
     0xC88B75671E92B1D7E2AAEBEBC4753363B7CB86241A269F329376678C094D1000"

definition WRAPPED_STORAGE_SLOT :: u256 where [token_consts]:
  "WRAPPED_STORAGE_SLOT =
     0x27363F342D208D61633EEA889657814388831FC115D48427B2AC49F40125B400"

section \<open>command.rs\<close>

text \<open>
  An implementation of \<open>UniversalTokenCommand\<close> is its signature and its encoder; the trait's two
  methods are functions of them. \<open>DepositCommand\<close> has no fields.
\<close>

definition encode_for_send :: "u32 \<Rightarrow> 'a encoder \<Rightarrow> 'a \<Rightarrow> byte list \<Rightarrow> (exit_code, byte list) outcome" where
  "encode_for_send signature E self buffer =
     oc_bind (oc_unwrap (encode E self [] 0)) (\<lambda>bytes. Ok (buffer @ to_be_bytes signature @ bytes))"

definition try_decode :: "'a encoder \<Rightarrow> byte list \<Rightarrow> (exit_code, 'a) outcome" where
  "try_decode E buf = oc_map_err (\<lambda>_. MalformedBuiltinParams) (decode E buf 0)"

record transfer_command =
  transfer_to :: address
  transfer_amount :: u256

definition transfer_fields :: "transfer_command field_info list" where
  "transfer_fields =
     [field (address_sol_encoder SolidityABI) transfer_to (\<lambda>v s. s\<lparr>transfer_to := v\<rparr>),
      field (uint_sol_encoder SolidityABI) transfer_amount (\<lambda>v s. s\<lparr>transfer_amount := v\<rparr>)]"

definition transfer_encoder :: "transfer_command encoder" where
  "transfer_encoder = struct_encoder SolidityABI True transfer_fields
     \<lparr>transfer_to = 0, transfer_amount = 0\<rparr>"

record transfer_from_command =
  transfer_from_from :: address
  transfer_from_to :: address
  transfer_from_amount :: u256

definition transfer_from_fields :: "transfer_from_command field_info list" where
  "transfer_from_fields =
     [field (address_sol_encoder SolidityABI) transfer_from_from (\<lambda>v s. s\<lparr>transfer_from_from := v\<rparr>),
      field (address_sol_encoder SolidityABI) transfer_from_to (\<lambda>v s. s\<lparr>transfer_from_to := v\<rparr>),
      field (uint_sol_encoder SolidityABI) transfer_from_amount (\<lambda>v s. s\<lparr>transfer_from_amount := v\<rparr>)]"

definition transfer_from_encoder :: "transfer_from_command encoder" where
  "transfer_from_encoder = struct_encoder SolidityABI True transfer_from_fields
     \<lparr>transfer_from_from = 0, transfer_from_to = 0, transfer_from_amount = 0\<rparr>"

record approve_command =
  approve_spender :: address
  approve_amount :: u256

definition approve_fields :: "approve_command field_info list" where
  "approve_fields =
     [field (address_sol_encoder SolidityABI) approve_spender (\<lambda>v s. s\<lparr>approve_spender := v\<rparr>),
      field (uint_sol_encoder SolidityABI) approve_amount (\<lambda>v s. s\<lparr>approve_amount := v\<rparr>)]"

definition approve_encoder :: "approve_command encoder" where
  "approve_encoder = struct_encoder SolidityABI True approve_fields
     \<lparr>approve_spender = 0, approve_amount = 0\<rparr>"

record allowance_command =
  allowance_owner :: address
  allowance_spender :: address

definition allowance_fields :: "allowance_command field_info list" where
  "allowance_fields =
     [field (address_sol_encoder SolidityABI) allowance_owner (\<lambda>v s. s\<lparr>allowance_owner := v\<rparr>),
      field (address_sol_encoder SolidityABI) allowance_spender (\<lambda>v s. s\<lparr>allowance_spender := v\<rparr>)]"

definition allowance_encoder :: "allowance_command encoder" where
  "allowance_encoder = struct_encoder SolidityABI True allowance_fields
     \<lparr>allowance_owner = 0, allowance_spender = 0\<rparr>"

record balance_of_command =
  balance_of_owner :: address

definition balance_of_fields :: "balance_of_command field_info list" where
  "balance_of_fields =
     [field (address_sol_encoder SolidityABI) balance_of_owner (\<lambda>v s. s\<lparr>balance_of_owner := v\<rparr>)]"

definition balance_of_encoder :: "balance_of_command encoder" where
  "balance_of_encoder = struct_encoder SolidityABI True balance_of_fields
     \<lparr>balance_of_owner = 0\<rparr>"

record nonces_command =
  nonces_owner :: address

definition nonces_fields :: "nonces_command field_info list" where
  "nonces_fields =
     [field (address_sol_encoder SolidityABI) nonces_owner (\<lambda>v s. s\<lparr>nonces_owner := v\<rparr>)]"

definition nonces_encoder :: "nonces_command encoder" where
  "nonces_encoder = struct_encoder SolidityABI True nonces_fields
     \<lparr>nonces_owner = 0\<rparr>"

record mint_command =
  mint_to :: address
  mint_amount :: u256

definition mint_fields :: "mint_command field_info list" where
  "mint_fields =
     [field (address_sol_encoder SolidityABI) mint_to (\<lambda>v s. s\<lparr>mint_to := v\<rparr>),
      field (uint_sol_encoder SolidityABI) mint_amount (\<lambda>v s. s\<lparr>mint_amount := v\<rparr>)]"

definition mint_encoder :: "mint_command encoder" where
  "mint_encoder = struct_encoder SolidityABI True mint_fields
     \<lparr>mint_to = 0, mint_amount = 0\<rparr>"

record burn_command =
  burn_from :: address
  burn_amount :: u256

definition burn_fields :: "burn_command field_info list" where
  "burn_fields =
     [field (address_sol_encoder SolidityABI) burn_from (\<lambda>v s. s\<lparr>burn_from := v\<rparr>),
      field (uint_sol_encoder SolidityABI) burn_amount (\<lambda>v s. s\<lparr>burn_amount := v\<rparr>)]"

definition burn_encoder :: "burn_command encoder" where
  "burn_encoder = struct_encoder SolidityABI True burn_fields
     \<lparr>burn_from = 0, burn_amount = 0\<rparr>"

record permit_command =
  permit_owner :: address
  permit_spender :: address
  permit_value :: u256
  permit_deadline :: u256
  permit_v :: u8
  permit_r :: u256
  permit_s :: u256

definition permit_fields :: "permit_command field_info list" where
  "permit_fields =
     [field (address_sol_encoder SolidityABI) permit_owner (\<lambda>v s. s\<lparr>permit_owner := v\<rparr>),
      field (address_sol_encoder SolidityABI) permit_spender (\<lambda>v s. s\<lparr>permit_spender := v\<rparr>),
      field (uint_sol_encoder SolidityABI) permit_value (\<lambda>v s. s\<lparr>permit_value := v\<rparr>),
      field (uint_sol_encoder SolidityABI) permit_deadline (\<lambda>v s. s\<lparr>permit_deadline := v\<rparr>),
      field (u8_encoder SolidityABI) permit_v (\<lambda>v s. s\<lparr>permit_v := v\<rparr>),
      field (uint_sol_encoder SolidityABI) permit_r (\<lambda>v s. s\<lparr>permit_r := v\<rparr>),
      field (uint_sol_encoder SolidityABI) permit_s (\<lambda>v s. s\<lparr>permit_s := v\<rparr>)]"

definition permit_encoder :: "permit_command encoder" where
  "permit_encoder = struct_encoder SolidityABI True permit_fields
     \<lparr>permit_owner = 0, permit_spender = 0, permit_value = 0, permit_deadline = 0, permit_v = 0, permit_r = 0, permit_s = 0\<rparr>"

record withdraw_command =
  withdraw_amount :: u256

definition withdraw_fields :: "withdraw_command field_info list" where
  "withdraw_fields =
     [field (uint_sol_encoder SolidityABI) withdraw_amount (\<lambda>v s. s\<lparr>withdraw_amount := v\<rparr>)]"

definition withdraw_encoder :: "withdraw_command encoder" where
  "withdraw_encoder = struct_encoder SolidityABI True withdraw_fields
     \<lparr>withdraw_amount = 0\<rparr>"

definition deposit_encoder :: "unit encoder" where
  "deposit_encoder = struct_encoder SolidityABI True [] ()"

section \<open>Lawfulness of the derived encoders\<close>

text \<open>A struct of static word-sized fields: \<open>n\<close> fields take \<open>32 n\<close> bytes and no tail.\<close>

definition word_fields :: "('s \<Rightarrow> bool) \<Rightarrow> 's field_info list \<Rightarrow> nat \<Rightarrow> ('s \<Rightarrow> 's \<Rightarrow> 's) \<Rightarrow> bool" where
  "word_fields valid fs Hs Up =
     (lawful_fields SolidityABI True valid fs Hs (\<lambda>_. 0) Up \<and> \<not> struct_is_dynamic fs)"

lemma word_fields_Nil: "word_fields valid [] 0 (\<lambda>_ acc. acc)"
  by (simp add: word_fields_def lawful_fields.intros struct_is_dynamic_def)

lemma fold_dynamic: "fold (\<lambda>f acc. acc \<or> f_dynamic f) fs acc = (acc \<or> (\<exists>f\<in>set fs. f_dynamic f))"
  by (induction fs arbitrary: acc) auto

lemma word_fields_Cons:
  assumes "lawful_codec SolidityABI T hs (\<lambda>_. 0) validT" "al_up SolidityABI (HEADER_SIZE T) = hs" "32 dvd hs"
    "\<not> IS_DYNAMIC T" "\<And>s. valid s \<Longrightarrow> validT (get s)" "word_fields valid fs Hs Up"
  shows "word_fields valid (field T get put # fs) (hs + Hs) (\<lambda>s acc. Up s (put (get s) acc))"
proof -
  have "lawful_field SolidityABI hs (\<lambda>_. 0) valid (\<lambda>s. put (get s)) (field T get put)"
    using lawful_fieldI [OF assms(1), of valid get put] assms(5) by simp
  then have "lawful_fields SolidityABI True valid (field T get put # fs) (hs + Hs)
      (\<lambda>s. (\<lambda>_. 0) s + (\<lambda>_. 0) s) (\<lambda>s acc. Up s ((\<lambda>s. put (get s)) s acc))"
    using assms by (intro lawful_Cons) (simp_all add: field_def word_fields_def)
  then show ?thesis
    using assms by (simp add: word_fields_def struct_is_dynamic_def fold_dynamic field_def)
qed

lemma word_fields_lawful:
  assumes "word_fields valid fs Hs Up" "Hs \<le> max_buf" "\<And>s acc. valid s \<Longrightarrow> Up s acc = s"
  shows "lawful_codec SolidityABI (struct_encoder SolidityABI True fs s0) Hs (\<lambda>_. 0) valid"
  using assms by (intro struct_sol_static_lawful [where Up = Up]) (simp_all add: word_fields_def)

lemma word_fields_eq:
  "word_fields valid fs Hs Up \<Longrightarrow> Hs = Hs' \<Longrightarrow> Up = Up' \<Longrightarrow> word_fields valid fs Hs' Up'"
  by simp

lemma sol_word_lawful:
  "lawful_codec SolidityABI (address_sol_encoder SolidityABI) 32 (\<lambda>_. 0) (\<lambda>_. True)"
  "lawful_codec SolidityABI (uint_sol_encoder SolidityABI :: u256 encoder) 32 (\<lambda>_. 0) (\<lambda>_. True)"
  "lawful_codec SolidityABI (u8_encoder SolidityABI) 32 (\<lambda>_. 0) (\<lambda>_. True)"
  "lawful_codec SolidityABI (bool_encoder SolidityABI) 32 (\<lambda>_. 0) (\<lambda>_. True)"
  "lawful_codec SolidityABI (fixed_bytes_sol_encoder SolidityABI 32) 32 (\<lambda>_. 0) (\<lambda>v. length v = 32)"
  using sol_address.general.lawful_codec_axioms sol_u256.general.lawful_codec_axioms
    sol_u8.general.lawful_codec_axioms sol_bool.general.lawful_codec_axioms sol_b256.general.lawful_codec_axioms
  by (simp_all add: address_sol_encoder_def uint_sol_encoder_def u8_encoder_def bool_encoder_def
    fixed_bytes_sol_encoder_def)

lemma sol_word_shape:
  "al_up SolidityABI (HEADER_SIZE (address_sol_encoder SolidityABI)) = 32"
  "al_up SolidityABI (HEADER_SIZE (uint_sol_encoder SolidityABI :: u256 encoder)) = 32"
  "al_up SolidityABI (HEADER_SIZE (u8_encoder SolidityABI)) = 32"
  "al_up SolidityABI (HEADER_SIZE (bool_encoder SolidityABI)) = 32"
  "al_up SolidityABI (HEADER_SIZE (fixed_bytes_sol_encoder SolidityABI 32)) = 32"
  "\<not> IS_DYNAMIC (address_sol_encoder SolidityABI)"
  "\<not> IS_DYNAMIC (uint_sol_encoder SolidityABI :: u256 encoder)"
  "\<not> IS_DYNAMIC (u8_encoder SolidityABI)"
  "\<not> IS_DYNAMIC (bool_encoder SolidityABI)"
  "\<not> IS_DYNAMIC (fixed_bytes_sol_encoder SolidityABI 32)"
  by (simp_all add: address_sol_encoder_def uint_sol_encoder_def u8_encoder_def bool_encoder_def
    fixed_bytes_sol_encoder_def)

lemmas word_fields_intros =
  word_fields_Nil
  word_fields_Cons [OF sol_word_lawful(1) sol_word_shape(1) dvd_refl sol_word_shape(6)]
  word_fields_Cons [OF sol_word_lawful(2) sol_word_shape(2) dvd_refl sol_word_shape(7)]
  word_fields_Cons [OF sol_word_lawful(3) sol_word_shape(3) dvd_refl sol_word_shape(8)]
  word_fields_Cons [OF sol_word_lawful(4) sol_word_shape(4) dvd_refl sol_word_shape(9)]
  word_fields_Cons [OF sol_word_lawful(5) sol_word_shape(5) dvd_refl sol_word_shape(10)]

lemma transfer_lawful: "lawful_codec SolidityABI transfer_encoder 64 (\<lambda>_. 0) (\<lambda>_. True)"
  unfolding transfer_encoder_def
proof (rule word_fields_lawful)
  show "word_fields (\<lambda>_. True) transfer_fields 64 (\<lambda>s _. s)"
    unfolding transfer_fields_def by (rule word_fields_eq, (rule word_fields_intros TrueI)+, simp, intro ext transfer_command.equality, simp_all)
qed simp_all

lemma transfer_from_lawful: "lawful_codec SolidityABI transfer_from_encoder 96 (\<lambda>_. 0) (\<lambda>_. True)"
  unfolding transfer_from_encoder_def
proof (rule word_fields_lawful)
  show "word_fields (\<lambda>_. True) transfer_from_fields 96 (\<lambda>s _. s)"
    unfolding transfer_from_fields_def by (rule word_fields_eq, (rule word_fields_intros TrueI)+, simp, intro ext transfer_from_command.equality, simp_all)
qed simp_all

lemma approve_lawful: "lawful_codec SolidityABI approve_encoder 64 (\<lambda>_. 0) (\<lambda>_. True)"
  unfolding approve_encoder_def
proof (rule word_fields_lawful)
  show "word_fields (\<lambda>_. True) approve_fields 64 (\<lambda>s _. s)"
    unfolding approve_fields_def by (rule word_fields_eq, (rule word_fields_intros TrueI)+, simp, intro ext approve_command.equality, simp_all)
qed simp_all

lemma allowance_lawful: "lawful_codec SolidityABI allowance_encoder 64 (\<lambda>_. 0) (\<lambda>_. True)"
  unfolding allowance_encoder_def
proof (rule word_fields_lawful)
  show "word_fields (\<lambda>_. True) allowance_fields 64 (\<lambda>s _. s)"
    unfolding allowance_fields_def by (rule word_fields_eq, (rule word_fields_intros TrueI)+, simp, intro ext allowance_command.equality, simp_all)
qed simp_all

lemma balance_of_lawful: "lawful_codec SolidityABI balance_of_encoder 32 (\<lambda>_. 0) (\<lambda>_. True)"
  unfolding balance_of_encoder_def
proof (rule word_fields_lawful)
  show "word_fields (\<lambda>_. True) balance_of_fields 32 (\<lambda>s _. s)"
    unfolding balance_of_fields_def by (rule word_fields_eq, (rule word_fields_intros TrueI)+, simp, intro ext balance_of_command.equality, simp_all)
qed simp_all

lemma nonces_lawful: "lawful_codec SolidityABI nonces_encoder 32 (\<lambda>_. 0) (\<lambda>_. True)"
  unfolding nonces_encoder_def
proof (rule word_fields_lawful)
  show "word_fields (\<lambda>_. True) nonces_fields 32 (\<lambda>s _. s)"
    unfolding nonces_fields_def by (rule word_fields_eq, (rule word_fields_intros TrueI)+, simp, intro ext nonces_command.equality, simp_all)
qed simp_all

lemma mint_lawful: "lawful_codec SolidityABI mint_encoder 64 (\<lambda>_. 0) (\<lambda>_. True)"
  unfolding mint_encoder_def
proof (rule word_fields_lawful)
  show "word_fields (\<lambda>_. True) mint_fields 64 (\<lambda>s _. s)"
    unfolding mint_fields_def by (rule word_fields_eq, (rule word_fields_intros TrueI)+, simp, intro ext mint_command.equality, simp_all)
qed simp_all

lemma burn_lawful: "lawful_codec SolidityABI burn_encoder 64 (\<lambda>_. 0) (\<lambda>_. True)"
  unfolding burn_encoder_def
proof (rule word_fields_lawful)
  show "word_fields (\<lambda>_. True) burn_fields 64 (\<lambda>s _. s)"
    unfolding burn_fields_def by (rule word_fields_eq, (rule word_fields_intros TrueI)+, simp, intro ext burn_command.equality, simp_all)
qed simp_all

lemma permit_lawful: "lawful_codec SolidityABI permit_encoder 224 (\<lambda>_. 0) (\<lambda>_. True)"
  unfolding permit_encoder_def
proof (rule word_fields_lawful)
  show "word_fields (\<lambda>_. True) permit_fields 224 (\<lambda>s _. s)"
    unfolding permit_fields_def by (rule word_fields_eq, (rule word_fields_intros TrueI)+, simp, intro ext permit_command.equality, simp_all)
qed simp_all

lemma withdraw_lawful: "lawful_codec SolidityABI withdraw_encoder 32 (\<lambda>_. 0) (\<lambda>_. True)"
  unfolding withdraw_encoder_def
proof (rule word_fields_lawful)
  show "word_fields (\<lambda>_. True) withdraw_fields 32 (\<lambda>s _. s)"
    unfolding withdraw_fields_def by (rule word_fields_eq, (rule word_fields_intros TrueI)+, simp, intro ext withdraw_command.equality, simp_all)
qed simp_all

section \<open>The contract of UniversalTokenCommand\<close>

text \<open>\<open>n\<close> is the size of the arguments; all implementations are structs of static words.\<close>

locale universal_token_command =
  fixes SIGNATURE :: u32 and E :: "'a encoder" and n :: nat
  assumes lawful: "lawful_codec SolidityABI E n (\<lambda>_. 0) (\<lambda>_. True)" and small: "n \<le> max_buf"
begin

lemma round_trip:
  "\<exists>args. length args = n \<and> encode_for_send SIGNATURE E c buffer = Ok (buffer @ to_be_bytes SIGNATURE @ args) \<and>
     try_decode E args = Ok c"
  using lawful_codec.top_round_trip [OF lawful, of c] small
  by (auto simp: encode_for_send_def try_decode_def)

lemma no_panic: "length buf \<le> max_buf \<Longrightarrow> try_decode E buf \<noteq> Panic"
  using lawful_codec.no_panic [OF lawful, of buf 0] small
  by (cases "decode E buf 0") (simp_all add: try_decode_def)

end

interpretation transfer: universal_token_command SIG_ERC20_TRANSFER transfer_encoder 64
  by (rule universal_token_command.intro) (rule transfer_lawful, simp)

interpretation transfer_from: universal_token_command SIG_ERC20_TRANSFER_FROM transfer_from_encoder 96
  by (rule universal_token_command.intro) (rule transfer_from_lawful, simp)

interpretation approve: universal_token_command SIG_ERC20_APPROVE approve_encoder 64
  by (rule universal_token_command.intro) (rule approve_lawful, simp)

interpretation allowance: universal_token_command SIG_ERC20_ALLOWANCE allowance_encoder 64
  by (rule universal_token_command.intro) (rule allowance_lawful, simp)

interpretation balance_of: universal_token_command SIG_ERC20_BALANCE_OF balance_of_encoder 32
  by (rule universal_token_command.intro) (rule balance_of_lawful, simp)

interpretation nonces: universal_token_command SIG_ERC20_NONCES nonces_encoder 32
  by (rule universal_token_command.intro) (rule nonces_lawful, simp)

interpretation mint: universal_token_command SIG_ERC20_MINT mint_encoder 64
  by (rule universal_token_command.intro) (rule mint_lawful, simp)

interpretation burn: universal_token_command SIG_ERC20_BURN burn_encoder 64
  by (rule universal_token_command.intro) (rule burn_lawful, simp)

interpretation permit: universal_token_command SIG_ERC20_PERMIT permit_encoder 224
  by (rule universal_token_command.intro) (rule permit_lawful, simp)

interpretation withdraw: universal_token_command SIG_ERC20_WITHDRAW withdraw_encoder 32
  by (rule universal_token_command.intro) (rule withdraw_lawful, simp)

lemmas command_no_panic = transfer.no_panic
  transfer_from.no_panic
  approve.no_panic
  allowance.no_panic
  balance_of.no_panic
  nonces.no_panic
  mint.no_panic
  burn.no_panic
  permit.no_panic
  withdraw.no_panic

section \<open>Properties\<close>


end
