(* ===== verification/Token_Settings.thy ===== *)
theory Token_Settings
  imports Token_Command
begin

text \<open>
  The creation payload of a universal token (\<open>crates/sdk/src/universal_token/storage.rs\<close>, first
  half): 32-byte token names and symbols, and the initial settings in their three wire forms (V1, V2
  and legacy), told apart by their exact length behind the magic prefix.
\<close>

section \<open>Token names and symbols\<close>

record token_name_or_symbol =
  tns_bytes :: "byte list"

definition token_name_fields :: "token_name_or_symbol field_info list" where
  "token_name_fields = [field (fixed_bytes_sol_encoder SolidityABI 32) tns_bytes (\<lambda>v s. s\<lparr>tns_bytes := v\<rparr>)]"

definition token_name_encoder :: "token_name_or_symbol encoder" where
  "token_name_encoder = struct_encoder SolidityABI True token_name_fields \<lparr>tns_bytes = []\<rparr>"

definition from_word :: "byte list \<Rightarrow> token_name_or_symbol" where
  "from_word bytes = \<lparr>tns_bytes = bytes\<rparr>"

definition try_from_str :: "byte list \<Rightarrow> token_name_or_symbol option" where
  "try_from_str value =
     (if length value > 32 then None else Some \<lparr>tns_bytes = blit (replicate 32 0) 0 value\<rparr>)"

text \<open>\<open>str::is_char_boundary\<close> on the UTF-8 bytes: both ends, and every byte that does not continue a character.\<close>

definition is_char_boundary :: "byte list \<Rightarrow> nat \<Rightarrow> bool" where
  "is_char_boundary s i = (i = 0 \<or> i = length s \<or> (i < length s \<and> \<not> utf8_cont (s ! i)))"

fun boundary_len :: "byte list \<Rightarrow> nat \<Rightarrow> nat" where
  "boundary_len s 0 = 0"
| "boundary_len s (Suc n) = (if is_char_boundary s (Suc n) then Suc n else boundary_len s n)"

definition from_str :: "byte list \<Rightarrow> token_name_or_symbol" where
  "from_str value =
     (let len = boundary_len value (min 32 (length value))
      in \<lparr>tns_bytes = blit (replicate 32 0) 0 (take len value)\<rparr>)"

definition as_str :: "token_name_or_symbol \<Rightarrow> byte list option" where
  "as_str self =
     (let bytes = takeWhile (\<lambda>c. c \<noteq> 0) (tns_bytes self)
      in if valid_utf8 bytes then Some bytes else None)"

section \<open>Initial settings\<close>

definition UNIVERSAL_TOKEN_MAGIC_BYTES :: "byte list" where
  "UNIVERSAL_TOKEN_MAGIC_BYTES = [0x45, 0x52, 0x43, 0x20]"

definition SIG_LEN_BYTES :: nat where
  "SIG_LEN_BYTES = 4"

definition INITIAL_SETTINGS_V1_SIZE :: nat where
  "INITIAL_SETTINGS_V1_SIZE = 4 + 6 * 32"

definition INITIAL_SETTINGS_V2_SIZE :: nat where
  "INITIAL_SETTINGS_V2_SIZE = 4 + 7 * 32"

definition INITIAL_SETTINGS_LEGACY_SIZE :: nat where
  "INITIAL_SETTINGS_LEGACY_SIZE = 4 + 68 * 32"

definition INITIAL_SETTINGS_MAX_SIZE :: nat where
  "INITIAL_SETTINGS_MAX_SIZE = INITIAL_SETTINGS_LEGACY_SIZE"

lemmas settings_sizes = INITIAL_SETTINGS_V1_SIZE_def INITIAL_SETTINGS_V2_SIZE_def INITIAL_SETTINGS_LEGACY_SIZE_def
  INITIAL_SETTINGS_MAX_SIZE_def

record legacy_initial_settings =
  legacy_token_name :: "byte list"
  legacy_token_symbol :: "byte list"
  legacy_decimals :: u8
  legacy_initial_supply :: u256
  legacy_minter :: address
  legacy_pauser :: address

definition legacy_settings_fields :: "legacy_initial_settings field_info list" where
  "legacy_settings_fields =
     [field (array_encoder SolidityABI (u8_encoder SolidityABI) 32) legacy_token_name (\<lambda>v s. s\<lparr>legacy_token_name := v\<rparr>),
      field (array_encoder SolidityABI (u8_encoder SolidityABI) 32) legacy_token_symbol (\<lambda>v s. s\<lparr>legacy_token_symbol := v\<rparr>),
      field (u8_encoder SolidityABI) legacy_decimals (\<lambda>v s. s\<lparr>legacy_decimals := v\<rparr>),
      field (uint_sol_encoder SolidityABI) legacy_initial_supply (\<lambda>v s. s\<lparr>legacy_initial_supply := v\<rparr>),
      field (address_sol_encoder SolidityABI) legacy_minter (\<lambda>v s. s\<lparr>legacy_minter := v\<rparr>),
      field (address_sol_encoder SolidityABI) legacy_pauser (\<lambda>v s. s\<lparr>legacy_pauser := v\<rparr>)]"

definition legacy_settings_encoder :: "legacy_initial_settings encoder" where
  "legacy_settings_encoder = struct_encoder SolidityABI True legacy_settings_fields
     \<lparr>legacy_token_name = [], legacy_token_symbol = [], legacy_decimals = 0, legacy_initial_supply = 0,
      legacy_minter = 0, legacy_pauser = 0\<rparr>"

text \<open>In the decoders \<open>Err ()\<close> is the \<open>None\<close> of the source.\<close>

definition legacy_decode_with_prefix :: "byte list \<Rightarrow> (unit, legacy_initial_settings) outcome" where
  "legacy_decode_with_prefix buf =
     (if length buf \<noteq> INITIAL_SETTINGS_LEGACY_SIZE then Err ()
      else if take 4 buf \<noteq> UNIVERSAL_TOKEN_MAGIC_BYTES then Err ()
      else oc_map_err (\<lambda>_. ()) (decode legacy_settings_encoder (drop 4 buf) 0))"

record initial_settings_v1 =
  v1_token_name :: token_name_or_symbol
  v1_token_symbol :: token_name_or_symbol
  v1_decimals :: u8
  v1_initial_supply :: u256
  v1_minter :: address
  v1_pauser :: address

definition settings_v1_fields :: "initial_settings_v1 field_info list" where
  "settings_v1_fields =
     [field token_name_encoder v1_token_name (\<lambda>v s. s\<lparr>v1_token_name := v\<rparr>),
      field token_name_encoder v1_token_symbol (\<lambda>v s. s\<lparr>v1_token_symbol := v\<rparr>),
      field (u8_encoder SolidityABI) v1_decimals (\<lambda>v s. s\<lparr>v1_decimals := v\<rparr>),
      field (uint_sol_encoder SolidityABI) v1_initial_supply (\<lambda>v s. s\<lparr>v1_initial_supply := v\<rparr>),
      field (address_sol_encoder SolidityABI) v1_minter (\<lambda>v s. s\<lparr>v1_minter := v\<rparr>),
      field (address_sol_encoder SolidityABI) v1_pauser (\<lambda>v s. s\<lparr>v1_pauser := v\<rparr>)]"

definition settings_v1_encoder :: "initial_settings_v1 encoder" where
  "settings_v1_encoder = struct_encoder SolidityABI True settings_v1_fields
     \<lparr>v1_token_name = \<lparr>tns_bytes = []\<rparr>, v1_token_symbol = \<lparr>tns_bytes = []\<rparr>, v1_decimals = 0,
      v1_initial_supply = 0, v1_minter = 0, v1_pauser = 0\<rparr>"

record initial_settings_v2 =
  v2_token_name :: token_name_or_symbol
  v2_token_symbol :: token_name_or_symbol
  v2_decimals :: u8
  v2_initial_supply :: u256
  v2_minter :: address
  v2_pauser :: address
  v2_wrapped :: bool

definition settings_v2_fields :: "initial_settings_v2 field_info list" where
  "settings_v2_fields =
     [field token_name_encoder v2_token_name (\<lambda>v s. s\<lparr>v2_token_name := v\<rparr>),
      field token_name_encoder v2_token_symbol (\<lambda>v s. s\<lparr>v2_token_symbol := v\<rparr>),
      field (u8_encoder SolidityABI) v2_decimals (\<lambda>v s. s\<lparr>v2_decimals := v\<rparr>),
      field (uint_sol_encoder SolidityABI) v2_initial_supply (\<lambda>v s. s\<lparr>v2_initial_supply := v\<rparr>),
      field (address_sol_encoder SolidityABI) v2_minter (\<lambda>v s. s\<lparr>v2_minter := v\<rparr>),
      field (address_sol_encoder SolidityABI) v2_pauser (\<lambda>v s. s\<lparr>v2_pauser := v\<rparr>),
      field (bool_encoder SolidityABI) v2_wrapped (\<lambda>v s. s\<lparr>v2_wrapped := v\<rparr>)]"

definition settings_v2_encoder :: "initial_settings_v2 encoder" where
  "settings_v2_encoder = struct_encoder SolidityABI True settings_v2_fields
     \<lparr>v2_token_name = \<lparr>tns_bytes = []\<rparr>, v2_token_symbol = \<lparr>tns_bytes = []\<rparr>, v2_decimals = 0,
      v2_initial_supply = 0, v2_minter = 0, v2_pauser = 0, v2_wrapped = False\<rparr>"

record initial_settings =
  token_name :: token_name_or_symbol
  token_symbol :: token_name_or_symbol
  token_decimals :: u8
  initial_supply :: u256
  token_minter :: address
  token_pauser :: address
  wrapped :: "bool option"

definition encode_with_prefix :: "initial_settings \<Rightarrow> (exit_code, byte list) outcome" where
  "encode_with_prefix self =
     oc_bind
       (case wrapped self of
          Some w \<Rightarrow> oc_unwrap (encode settings_v2_encoder
            \<lparr>v2_token_name = token_name self, v2_token_symbol = token_symbol self, v2_decimals = token_decimals self,
             v2_initial_supply = initial_supply self, v2_minter = token_minter self, v2_pauser = token_pauser self,
             v2_wrapped = w\<rparr> [] 0)
        | None \<Rightarrow> oc_unwrap (encode settings_v1_encoder
            \<lparr>v1_token_name = token_name self, v1_token_symbol = token_symbol self, v1_decimals = token_decimals self,
             v1_initial_supply = initial_supply self, v1_minter = token_minter self, v1_pauser = token_pauser self\<rparr> [] 0))
       (\<lambda>result. Ok (UNIVERSAL_TOKEN_MAGIC_BYTES @ result))"

definition decode_with_prefix :: "byte list \<Rightarrow> (unit, initial_settings) outcome" where
  "decode_with_prefix buf =
     (if length buf < 4 then Err ()
      else let sig = take 4 buf; payload = drop 4 buf
      in if sig \<noteq> UNIVERSAL_TOKEN_MAGIC_BYTES then Err ()
      else if length buf = INITIAL_SETTINGS_V1_SIZE
      then oc_bind (oc_map_err (\<lambda>_. ()) (decode settings_v1_encoder payload 0)) (\<lambda>settings.
           Ok \<lparr>token_name = v1_token_name settings, token_symbol = v1_token_symbol settings,
               token_decimals = v1_decimals settings, initial_supply = v1_initial_supply settings,
               token_minter = v1_minter settings, token_pauser = v1_pauser settings, wrapped = None\<rparr>)
      else if length buf = INITIAL_SETTINGS_V2_SIZE
      then oc_bind (oc_map_err (\<lambda>_. ()) (decode settings_v2_encoder payload 0)) (\<lambda>settings.
           Ok \<lparr>token_name = v2_token_name settings, token_symbol = v2_token_symbol settings,
               token_decimals = v2_decimals settings, initial_supply = v2_initial_supply settings,
               token_minter = v2_minter settings, token_pauser = v2_pauser settings,
               wrapped = Some (v2_wrapped settings)\<rparr>)
      else if length buf = INITIAL_SETTINGS_LEGACY_SIZE
      then oc_bind (legacy_decode_with_prefix buf) (\<lambda>settings.
           Ok \<lparr>token_name = \<lparr>tns_bytes = legacy_token_name settings\<rparr>,
               token_symbol = \<lparr>tns_bytes = legacy_token_symbol settings\<rparr>,
               token_decimals = legacy_decimals settings, initial_supply = legacy_initial_supply settings,
               token_minter = legacy_minter settings, token_pauser = legacy_pauser settings, wrapped = None\<rparr>)
      else Err ())"

section \<open>Lawfulness of the settings encoders\<close>

definition valid_name :: "token_name_or_symbol \<Rightarrow> bool" where
  "valid_name t = (length (tns_bytes t) = 32)"

lemma token_name_lawful: "lawful_codec SolidityABI token_name_encoder 32 (\<lambda>_. 0) valid_name"
  unfolding token_name_encoder_def
proof (rule word_fields_lawful)
  show "word_fields valid_name token_name_fields 32 (\<lambda>s _. s)"
    unfolding token_name_fields_def
    by (rule word_fields_eq, rule word_fields_intros, simp add: valid_name_def, rule word_fields_intros, simp,
        intro ext token_name_or_symbol.equality, simp_all)
qed simp_all

lemma token_name_shape:
  "al_up SolidityABI (HEADER_SIZE token_name_encoder) = 32" "\<not> IS_DYNAMIC token_name_encoder"
  by (simp_all add: token_name_encoder_def struct_encoder_def struct_header_size_def struct_is_dynamic_def
    token_name_fields_def field_def fixed_bytes_sol_encoder_def)

lemmas name_fields_intro = word_fields_Cons [OF token_name_lawful token_name_shape(1) dvd_refl token_name_shape(2)]

lemma settings_v1_lawful:
  "lawful_codec SolidityABI settings_v1_encoder 192 (\<lambda>_. 0) (\<lambda>s. valid_name (v1_token_name s) \<and> valid_name (v1_token_symbol s))"
  unfolding settings_v1_encoder_def
proof (rule word_fields_lawful)
  show "word_fields (\<lambda>s. valid_name (v1_token_name s) \<and> valid_name (v1_token_symbol s)) settings_v1_fields 192 (\<lambda>s _. s)"
    unfolding settings_v1_fields_def
    by (rule word_fields_eq, (rule name_fields_intro word_fields_intros, (simp; fail)?)+,
        intro ext initial_settings_v1.equality, simp_all)
qed simp_all

lemma settings_v2_lawful:
  "lawful_codec SolidityABI settings_v2_encoder 224 (\<lambda>_. 0) (\<lambda>s. valid_name (v2_token_name s) \<and> valid_name (v2_token_symbol s))"
  unfolding settings_v2_encoder_def
proof (rule word_fields_lawful)
  show "word_fields (\<lambda>s. valid_name (v2_token_name s) \<and> valid_name (v2_token_symbol s)) settings_v2_fields 224 (\<lambda>s _. s)"
    unfolding settings_v2_fields_def
    by (rule word_fields_eq, (rule name_fields_intro word_fields_intros, (simp; fail)?)+,
        intro ext initial_settings_v2.equality, simp_all)
qed simp_all

section \<open>Decoded names have 32 bytes\<close>

lemma sliced_length:
  assumes "slice b i (usize_add um i n) = Ok v" "n \<le> um"
  shows "length v = n"
proof -
  have le: "i \<le> usize_add um i n" "usize_add um i n \<le> length b" "v = take (usize_add um i n - i) (drop i b)"
    using assms(1) by (auto simp: slice_def split: if_splits)
  have "usize_add um i n = i + n"
  proof (cases "i + n < Suc um")
    case False
    have "i < Suc um" using le(1) mod_less_divisor [of "Suc um" "i + n"] unfolding usize_add_def by linarith
    then have "(i + n) mod Suc um = i + n - Suc um" using False assms(2) by (simp add: le_mod_geq)
    then show ?thesis using le(1) False assms(2) by (simp add: usize_add_def)
  qed (simp add: usize_add_def)
  with le show ?thesis by simp
qed

lemma decoded_name_valid:
  assumes "decode token_name_encoder b off = Ok t"
  shows "valid_name t"
proof -
  obtain b' off' v where v: "fixed_bytes_sol_decode SolidityABI 32 b' off' = Ok v" "t = \<lparr>tns_bytes = v\<rparr>"
    using assms by (auto simp: token_name_encoder_def struct_encoder_def struct_decode_def token_name_fields_def
      field_def fixed_bytes_sol_encoder_def oc_simps Let_def split: if_splits)
  from v(1) have "length v = 32"
    by (auto simp: fixed_bytes_sol_decode_def Let_def split: if_splits elim!: sliced_length)
  with v(2) show ?thesis by (simp add: valid_name_def)
qed

lemma decoded_array_length: "decode (array_encoder m T n) b off = Ok xs \<Longrightarrow> length xs = n"
proof -
  have "array_decode_items m T sz n i b off = Ok xs \<Longrightarrow> length xs = n" for sz i xs
    by (induction n arbitrary: i xs) (auto simp: oc_simps)
  then show "decode (array_encoder m T n) b off = Ok xs \<Longrightarrow> length xs = n"
    by (auto simp: array_encoder_def array_decode_def Let_def split: if_splits)
qed

lemma decode_fields_step:
  "struct_decode_fields m sol (field T g p # fs) s b off = Ok r \<Longrightarrow>
     \<exists>v off'. decode T b off = Ok v \<and> struct_decode_fields m sol fs (p v s) b off' = Ok r"
  by (auto simp: field_def oc_simps)

lemma struct_decode_fields_of:
  "decode (struct_encoder m sol fs s0) b off = Ok r \<Longrightarrow> \<exists>b' off'. struct_decode_fields m sol fs s0 b' off' = Ok r"
  by (auto simp: struct_encoder_def struct_decode_def Let_def oc_simps split: if_splits)

lemma decoded_settings_names:
  "decode settings_v1_encoder p 0 = Ok v \<Longrightarrow> valid_name (v1_token_name v) \<and> valid_name (v1_token_symbol v)"
  "decode settings_v2_encoder p 0 = Ok w \<Longrightarrow> valid_name (v2_token_name w) \<and> valid_name (v2_token_symbol w)"
  "decode legacy_settings_encoder p 0 = Ok l \<Longrightarrow> length (legacy_token_name l) = 32 \<and> length (legacy_token_symbol l) = 32"
  unfolding settings_v1_encoder_def settings_v1_fields_def settings_v2_encoder_def settings_v2_fields_def
    legacy_settings_encoder_def legacy_settings_fields_def
  by (auto dest!: struct_decode_fields_of decode_fields_step simp del: struct_decode_fields.simps(2))
    (rule decoded_name_valid decoded_array_length, assumption)+

lemma oc_map_err_Ok: "(oc_map_err f x = Ok y) = (x = Ok y)"
  by (cases x) simp_all

lemma decoded_settings_valid:
  assumes "decode_with_prefix b = Ok s"
  shows "valid_name (token_name s) \<and> valid_name (token_symbol s)"
  using assms
  by (auto simp: decode_with_prefix_def legacy_decode_with_prefix_def oc_simps oc_map_err_Ok valid_name_def Let_def
    dest: decoded_settings_names split: if_splits)

section \<open>UTF-8 cut at character boundaries\<close>

text \<open>A well-formed sequence starts with a character: a byte and the bytes that continue it.\<close>

lemma utf8_lengths:
  "a < 0x80 \<Longrightarrow> valid_utf8 (a # r) = valid_utf8 r"
  "\<not> a < 0x80 \<Longrightarrow> \<not> valid_utf8 [a]"
  "\<not> a < 0x80 \<Longrightarrow> 0xC2 \<le> a \<and> a \<le> 0xDF \<Longrightarrow> valid_utf8 (a # b # r) = (utf8_cont b \<and> valid_utf8 r)"
  "\<not> a < 0x80 \<Longrightarrow> \<not> (0xC2 \<le> a \<and> a \<le> 0xDF) \<Longrightarrow> \<not> valid_utf8 [a, b]"
  "\<not> a < 0x80 \<Longrightarrow> \<not> (0xC2 \<le> a \<and> a \<le> 0xDF) \<Longrightarrow> 0xE0 \<le> a \<and> a \<le> 0xEF \<Longrightarrow> valid_utf8 (a # b # c # r) =
     ((if a = 0xE0 then 0xA0 \<le> b \<and> b \<le> 0xBF else if a = 0xED then 0x80 \<le> b \<and> b \<le> 0x9F else utf8_cont b) \<and>
      utf8_cont c \<and> valid_utf8 r)"
  "\<not> a < 0x80 \<Longrightarrow> \<not> (0xC2 \<le> a \<and> a \<le> 0xDF) \<Longrightarrow> \<not> (0xE0 \<le> a \<and> a \<le> 0xEF) \<Longrightarrow> \<not> valid_utf8 [a, b, c]"
  "\<not> a < 0x80 \<Longrightarrow> \<not> (0xC2 \<le> a \<and> a \<le> 0xDF) \<Longrightarrow> \<not> (0xE0 \<le> a \<and> a \<le> 0xEF) \<Longrightarrow> valid_utf8 (a # b # c # d # r) =
     (0xF0 \<le> a \<and> a \<le> 0xF4 \<and>
      (if a = 0xF0 then 0x90 \<le> b \<and> b \<le> 0xBF else if a = 0xF4 then 0x80 \<le> b \<and> b \<le> 0x8F else utf8_cont b) \<and>
      utf8_cont c \<and> utf8_cont d \<and> valid_utf8 r)"
  by (subst valid_utf8.simps, simp only: if_True if_False list.case simp_thms)+

lemma utf8_character:
  assumes "valid_utf8 (a # r)"
  obtains c t where "r = c @ t" "list_all utf8_cont c" "length c \<le> 3" "valid_utf8 t"
    "\<And>t'. valid_utf8 t' \<Longrightarrow> valid_utf8 (a # c @ t')"
proof -
  have cont: "utf8_cont b" if "0xA0 \<le> b \<and> b \<le> 0xBF \<or> 0x80 \<le> b \<and> b \<le> 0x9F \<or> 0x90 \<le> b \<and> b \<le> 0xBF \<or> 0x80 \<le> b \<and> b \<le> 0x8F"
    for b :: byte
    using that by (auto simp: utf8_cont_def word_le_nat_alt)
  note [simp del] = valid_utf8.simps(2)
  show ?thesis
  proof (cases "a < 0x80")
    case True
    then show ?thesis using assms by (intro that [of "[]" r]) (simp_all add: utf8_lengths)
  next
    case ge: False
    then obtain b r2 where r: "r = b # r2" using assms utf8_lengths(2) [OF ge] by (cases r) blast+
    show ?thesis
    proof (cases "0xC2 \<le> a \<and> a \<le> 0xDF")
      case True
      note e = utf8_lengths(3) [OF ge True]
      show ?thesis using assms by (intro that [of "[b]" r2]) (simp_all add: r e)
    next
      case no2: False
      then obtain c r3 where r2: "r2 = c # r3" using assms utf8_lengths(4) [OF ge no2] r by (cases r2) blast+
      show ?thesis
      proof (cases "0xE0 \<le> a \<and> a \<le> 0xEF")
        case True
        note e = utf8_lengths(5) [OF ge no2 True]
        show ?thesis using assms cont [of b] by (intro that [of "[b, c]" r3]) (auto simp: r r2 e split: if_splits)
      next
        case no3: False
        then obtain d r4 where r3: "r3 = d # r4" using assms utf8_lengths(6) [OF ge no2 no3] r r2 by (cases r3) blast+
        note e = utf8_lengths(7) [OF ge no2 no3]
        show ?thesis using assms cont [of b] by (intro that [of "[b, c, d]" r4]) (auto simp: r r2 r3 e split: if_splits)
      qed
    qed
  qed
qed

lemma valid_utf8_take: "valid_utf8 s \<Longrightarrow> is_char_boundary s i \<Longrightarrow> valid_utf8 (take i s)"
proof (induction s arbitrary: i rule: length_induct)
  case (1 s)
  show ?case
  proof (cases "s = [] \<or> i = 0")
    case False
    then obtain a r n where s: "s = a # r" "i = Suc n" by (cases s; cases i) auto
    obtain c t where c: "r = c @ t" "list_all utf8_cont c" "valid_utf8 t" "\<And>t'. valid_utf8 t' \<Longrightarrow> valid_utf8 (a # c @ t')"
      using utf8_character 1(2) s(1) by blast
    have "length c \<le> n"
    proof (rule ccontr)
      assume "\<not> length c \<le> n"
      then have "utf8_cont (r ! n)" "n < length r" using c by (simp_all add: nth_append list_all_length)
      with 1(3) s show False by (simp add: is_char_boundary_def)
    qed
    moreover then have "is_char_boundary t (n - length c)"
      using 1(3) s c(1) by (auto simp: is_char_boundary_def nth_append)
    then have "valid_utf8 (take (n - length c) t)" using 1(1) s c(1,3) by simp
    from c(4) [OF this] show ?thesis using s c(1) \<open>length c \<le> n\<close> by simp
  qed auto
qed

lemma boundary_len_props: "boundary_len s n \<le> n" "is_char_boundary s (boundary_len s n)"
  by (induction n) (auto simp: is_char_boundary_def)

lemma boundary_len_max: "j \<le> n \<Longrightarrow> is_char_boundary s j \<Longrightarrow> j \<le> boundary_len s n"
  by (induction n) (auto simp: le_Suc_eq)

lemma utf8_head_not_cont: "valid_utf8 (a # r) \<Longrightarrow> \<not> utf8_cont a"
proof
  assume v: "valid_utf8 (a # r)" and c: "utf8_cont a"
  then have "\<not> a < 0x80" "\<not> (0xC2 \<le> a \<and> a \<le> 0xDF)" "\<not> (0xE0 \<le> a \<and> a \<le> 0xEF)" "\<not> (0xF0 \<le> a \<and> a \<le> 0xF4)"
    by (auto simp: utf8_cont_def word_le_nat_alt word_less_nat_alt)
  with v show False by (auto split: list.splits simp del: valid_utf8.simps(2) simp: valid_utf8.simps(2) [of a])
qed

lemma boundary_nearby:
  "valid_utf8 s \<Longrightarrow> i \<le> length s \<Longrightarrow> \<exists>j. is_char_boundary s j \<and> j \<le> i \<and> i < j + 4"
proof (induction s arbitrary: i rule: length_induct)
  case (1 s)
  show ?case
  proof (cases "s = []")
    case True
    then show ?thesis using 1(3) by (simp add: is_char_boundary_def)
  next
    case False
    then obtain a r where s: "s = a # r" by (cases s) auto
    obtain c t where c: "r = c @ t" "length c \<le> 3" "valid_utf8 t"
      using utf8_character 1(2) s by metis
    show ?thesis
    proof (cases "i \<le> length c")
      case True
      then show ?thesis using c(2) by (intro exI [of _ 0]) (simp add: is_char_boundary_def)
    next
      case False
      then obtain j where j: "is_char_boundary t j" "j \<le> i - Suc (length c)" "i - Suc (length c) < j + 4"
        using 1(1) [rule_format, of t "i - Suc (length c)"] 1(3) s c(1,3) by (auto simp: le_diff_conv)
      have "is_char_boundary s (Suc (length c) + j)"
        using j(1) c(1,3) utf8_head_not_cont s
        by (cases t) (auto simp: is_char_boundary_def nth_append)
      then show ?thesis using False j(2,3) by (intro exI [of _ "Suc (length c) + j"]) auto
    qed
  qed
qed

lemma takeWhile_padded:
  assumes "(0::byte) \<notin> set v" "length v \<le> 32"
  shows "takeWhile (\<lambda>c. c \<noteq> 0) (blit (replicate 32 0) 0 v) = v"
proof -
  have "blit (replicate 32 0) 0 v = v @ replicate (32 - length v) 0" using assms(2) by (simp add: blit_def)
  moreover have "takeWhile (\<lambda>c. c \<noteq> 0) (replicate (32 - length v) (0::byte)) = []" by (cases "32 - length v") simp_all
  ultimately show ?thesis using assms(1) by (subst \<open>_ = v @ _\<close>, subst takeWhile_append2) auto
qed

lemma settings_trip:
  assumes "valid_name (token_name s)" "valid_name (token_symbol s)"
  shows "\<exists>b. encode_with_prefix s = Ok b \<and> decode_with_prefix b = Ok s \<and>
     length b = (if wrapped s = None then INITIAL_SETTINGS_V1_SIZE else INITIAL_SETTINGS_V2_SIZE)"
proof (cases "wrapped s")
  case None
  let ?v = "\<lparr>v1_token_name = token_name s, v1_token_symbol = token_symbol s, v1_decimals = token_decimals s,
     v1_initial_supply = initial_supply s, v1_minter = token_minter s, v1_pauser = token_pauser s\<rparr>"
  obtain b where "encode settings_v1_encoder ?v [] 0 = Ok b" "decode settings_v1_encoder b 0 = Ok ?v" "length b = 192"
    using lawful_codec.top_round_trip [OF settings_v1_lawful, of ?v] assms by auto
  then show ?thesis using None
    by (intro exI [of _ "UNIVERSAL_TOKEN_MAGIC_BYTES @ b"])
       (simp add: encode_with_prefix_def decode_with_prefix_def settings_sizes UNIVERSAL_TOKEN_MAGIC_BYTES_def)
next
  case (Some w)
  let ?v = "\<lparr>v2_token_name = token_name s, v2_token_symbol = token_symbol s, v2_decimals = token_decimals s,
     v2_initial_supply = initial_supply s, v2_minter = token_minter s, v2_pauser = token_pauser s, v2_wrapped = w\<rparr>"
  obtain b where "encode settings_v2_encoder ?v [] 0 = Ok b" "decode settings_v2_encoder b 0 = Ok ?v" "length b = 224"
    using lawful_codec.top_round_trip [OF settings_v2_lawful, of ?v] assms by auto
  then show ?thesis using Some
    by (intro exI [of _ "UNIVERSAL_TOKEN_MAGIC_BYTES @ b"])
       (simp add: encode_with_prefix_def decode_with_prefix_def settings_sizes UNIVERSAL_TOKEN_MAGIC_BYTES_def)
qed

section \<open>Properties\<close>



text \<open>
  C33. Settings survive the trip through the creation payload: V1 without and V2 with the wrapped
  flag, each of exactly the size the decoder tells it apart by.
\<close>

theorem initial_settings_round_trip:
  assumes "valid_name (token_name s)" "valid_name (token_symbol s)"
  shows "\<exists>b. encode_with_prefix s = Ok b \<and> decode_with_prefix b = Ok s \<and>
     length b = (if wrapped s = None then INITIAL_SETTINGS_V1_SIZE else INITIAL_SETTINGS_V2_SIZE)"
  using assms by (rule settings_trip)

definition example_settings :: initial_settings where
  "example_settings = \<lparr>token_name = from_str [0x41, 0x42], token_symbol = from_str [0x41], token_decimals = 18,
     initial_supply = 1000, token_minter = 7, token_pauser = 8, wrapped = Some False\<rparr>"

theorem initial_settings_round_trip_witness:
  "\<exists>b. encode_with_prefix example_settings = Ok b \<and> decode_with_prefix b = Ok example_settings \<and> length b = 228"
proof -
  have "valid_name (token_name example_settings)" "valid_name (token_symbol example_settings)" by code_simp+
  from initial_settings_round_trip [OF this] show ?thesis by (auto simp: settings_sizes example_settings_def)
qed

lemma decoded_settings_size:
  assumes "decode_with_prefix b = Ok s"
  shows "(if wrapped s = None then INITIAL_SETTINGS_V1_SIZE else INITIAL_SETTINGS_V2_SIZE) \<le> length b"
  using assms
  by (auto simp: decode_with_prefix_def settings_sizes oc_simps Let_def split: if_splits)

text \<open>
  C34. Whatever payload the decoder accepts, legacy ones included, its re-encoding is a payload of the
  same settings that is no longer than the original and never exceeds the V2 size.
\<close>

theorem settings_reencoding:
  assumes "decode_with_prefix b = Ok s"
  shows "\<exists>b'. encode_with_prefix s = Ok b' \<and> decode_with_prefix b' = Ok s \<and> length b' \<le> length b \<and>
     length b' \<le> INITIAL_SETTINGS_V2_SIZE"
proof -
  obtain b' where "encode_with_prefix s = Ok b'" "decode_with_prefix b' = Ok s"
    "length b' = (if wrapped s = None then INITIAL_SETTINGS_V1_SIZE else INITIAL_SETTINGS_V2_SIZE)"
    using settings_trip decoded_settings_valid [OF assms] by metis
  with decoded_settings_size [OF assms] show ?thesis
    by (intro exI [of _ b']) (auto simp: settings_sizes split: if_splits)
qed

definition padded_payload :: "byte \<Rightarrow> byte list" where
  "padded_payload x = UNIVERSAL_TOKEN_MAGIC_BYTES @ replicate 128 0 @ [x] @ replicate 63 0"

definition zero_settings :: initial_settings where
  "zero_settings = \<lparr>token_name = \<lparr>tns_bytes = replicate 32 0\<rparr>, token_symbol = \<lparr>tns_bytes = replicate 32 0\<rparr>,
     token_decimals = 0, initial_supply = 0, token_minter = 0, token_pauser = 0, wrapped = None\<rparr>"

lemma decode_padded_payload: "decode_with_prefix (padded_payload x) = Ok zero_settings"
  by code_simp

theorem settings_reencoding_witness:
  "\<exists>b'. encode_with_prefix zero_settings = Ok b' \<and> decode_with_prefix b' = Ok zero_settings \<and> length b' \<le> 228"
  using settings_reencoding [OF decode_padded_payload] by (auto simp: settings_sizes)


end
