(* ===== verification/Token_Keys.thy ===== *)
theory Token_Keys
  imports Token_Settings
begin

text \<open>
  The storage keys of a token call (\<open>crates/sdk/src/universal_token/storage.rs\<close>, second half): before
  it runs the token, the host computes from the input and the caller which slots to load.
  \<open>keccak\<close> stands for the hash function, which is outside the repository.
\<close>

type_synonym hash = "byte list \<Rightarrow> byte list"

section \<open>Slots of addresses\<close>

definition address_key_word :: "address \<Rightarrow> byte list" where
  "address_key_word a = blit (replicate 32 0) 12 (to_be_bytes a)"

lemma address_key_word: "zero_extended_key address_packable a = Ok (address_key_word a)"
  by (simp add: zero_extended_key_def encode_key_at_def address_packable_def copy_from_slice_def slice_def
    write_slice_def address_key_word_def blit_def)

definition address_slot :: "hash \<Rightarrow> address \<Rightarrow> u256 \<Rightarrow> u256" where
  "address_slot keccak a base_slot = compute_slot keccak (address_key_word a) base_slot"

section \<open>Keys of a deployment\<close>

text \<open>As in the decoders, \<open>Err ()\<close> is the \<open>None\<close> of the source.\<close>

definition erc20_compute_deploy_storage_keys :: "hash \<Rightarrow> byte list \<Rightarrow> address \<Rightarrow> (unit, u256 list) outcome" where
  "erc20_compute_deploy_storage_keys keccak input caller =
     (if length input < SIG_LEN_BYTES then Err ()
      else oc_bind (decode_with_prefix input) (\<lambda>settings.
        Ok ([DECIMALS_STORAGE_SLOT, NAME_STORAGE_SLOT, SYMBOL_STORAGE_SLOT, TOTAL_SUPPLY_STORAGE_SLOT] @
            (if initial_supply settings \<noteq> 0 then [address_slot keccak caller BALANCE_STORAGE_SLOT] else []) @
            (if token_minter settings \<noteq> 0 then [MINTER_STORAGE_SLOT] else []) @
            (if token_pauser settings \<noteq> 0 then [PAUSER_STORAGE_SLOT] else []) @
            (if wrapped settings \<noteq> None then [WRAPPED_STORAGE_SLOT] else []))))"

section \<open>Keys of a call\<close>

definition decoded_keys :: "'a encoder \<Rightarrow> byte list \<Rightarrow> ('a \<Rightarrow> u256 list) \<Rightarrow> (unit, u256 list) outcome" where
  "decoded_keys E input keys = oc_bind (oc_map_err (\<lambda>_. ()) (try_decode E input)) (\<lambda>cmd. Ok (keys cmd))"

definition main_storage_keys_of :: "hash \<Rightarrow> u32 \<Rightarrow> byte list \<Rightarrow> address \<Rightarrow> (unit, u256 list) outcome" where
  "main_storage_keys_of keccak sig input caller =
     (let bal = (\<lambda>a. address_slot keccak a BALANCE_STORAGE_SLOT);
          allow = (\<lambda>owner spender. address_slot keccak spender (address_slot keccak owner ALLOWANCE_STORAGE_SLOT))
      in if sig = SIG_ERC20_TOTAL_SUPPLY then Ok [TOTAL_SUPPLY_STORAGE_SLOT]
      else if sig = SIG_ERC20_TRANSFER
      then decoded_keys transfer_encoder input
             (\<lambda>c. [CONTRACT_FROZEN_STORAGE_SLOT, bal caller, bal (transfer_to c)])
      else if sig = SIG_ERC20_TRANSFER_FROM
      then decoded_keys transfer_from_encoder input
             (\<lambda>c. [CONTRACT_FROZEN_STORAGE_SLOT, bal (transfer_from_from c), bal (transfer_from_to c),
                   allow (transfer_from_from c) caller])
      else if sig = SIG_ERC20_BALANCE then Ok [bal caller]
      else if sig = SIG_ERC20_BALANCE_OF
      then decoded_keys balance_of_encoder input (\<lambda>c. [bal (balance_of_owner c)])
      else if sig = SIG_ERC20_SYMBOL then Ok [SYMBOL_STORAGE_SLOT]
      else if sig = SIG_ERC20_NAME then Ok [NAME_STORAGE_SLOT]
      else if sig = SIG_ERC20_DECIMALS then Ok [DECIMALS_STORAGE_SLOT]
      else if sig = SIG_ERC20_ALLOWANCE
      then decoded_keys allowance_encoder input (\<lambda>c. [allow (allowance_owner c) (allowance_spender c)])
      else if sig = SIG_ERC20_APPROVE
      then decoded_keys approve_encoder input (\<lambda>c. [allow caller (approve_spender c)])
      else if sig = SIG_ERC20_PERMIT
      then decoded_keys permit_encoder input
             (\<lambda>c. [allow (permit_owner c) (permit_spender c), address_slot keccak (permit_owner c) NONCES_STORAGE_SLOT,
                   NAME_STORAGE_SLOT])
      else if sig = SIG_ERC20_NONCES
      then decoded_keys nonces_encoder input (\<lambda>c. [address_slot keccak (nonces_owner c) NONCES_STORAGE_SLOT])
      else if sig = SIG_ERC20_DOMAIN_SEPARATOR then Ok [NAME_STORAGE_SLOT]
      else if sig = SIG_ERC20_MINT
      then decoded_keys mint_encoder input
             (\<lambda>c. [CONTRACT_FROZEN_STORAGE_SLOT, bal (mint_to c), MINTER_STORAGE_SLOT, TOTAL_SUPPLY_STORAGE_SLOT])
      else if sig = SIG_ERC20_BURN
      then decoded_keys burn_encoder input
             (\<lambda>c. [CONTRACT_FROZEN_STORAGE_SLOT, bal (burn_from c), MINTER_STORAGE_SLOT, TOTAL_SUPPLY_STORAGE_SLOT])
      else if sig = SIG_ERC20_PAUSE then Ok [CONTRACT_FROZEN_STORAGE_SLOT, PAUSER_STORAGE_SLOT]
      else if sig = SIG_ERC20_UNPAUSE then Ok [CONTRACT_FROZEN_STORAGE_SLOT, PAUSER_STORAGE_SLOT]
      else if sig = SIG_ERC20_DEPOSIT
      then Ok [WRAPPED_STORAGE_SLOT, CONTRACT_FROZEN_STORAGE_SLOT, bal caller, TOTAL_SUPPLY_STORAGE_SLOT]
      else if sig = SIG_ERC20_WITHDRAW
      then decoded_keys withdraw_encoder input
             (\<lambda>c. [WRAPPED_STORAGE_SLOT, CONTRACT_FROZEN_STORAGE_SLOT, bal caller, TOTAL_SUPPLY_STORAGE_SLOT])
      else Ok [])"

definition erc20_compute_main_storage_keys :: "hash \<Rightarrow> byte list \<Rightarrow> address \<Rightarrow> (unit, u256 list) outcome" where
  "erc20_compute_main_storage_keys keccak input caller =
     (if length input < SIG_LEN_BYTES then Err ()
      else main_storage_keys_of keccak (from_be_bytes (take SIG_LEN_BYTES input)) (drop SIG_LEN_BYTES input) caller)"

definition erc20_compute_storage_keys :: "hash \<Rightarrow> byte list \<Rightarrow> address \<Rightarrow> bool \<Rightarrow> (unit, u256 list) outcome" where
  "erc20_compute_storage_keys keccak input caller is_create =
     (if is_create then erc20_compute_deploy_storage_keys keccak input caller
      else erc20_compute_main_storage_keys keccak input caller)"

section \<open>The constants are pairwise different\<close>

text \<open>
  The slots already differ in their low 16 bits. \<open>token_neqs\<close> collects the inequalities in both
  directions, for proofs that compare constants without looking at their values.
\<close>

named_theorems token_neqs

lemma slots_distinct:
  "distinct [TOTAL_SUPPLY_STORAGE_SLOT, MINTER_STORAGE_SLOT, PAUSER_STORAGE_SLOT, CONTRACT_FROZEN_STORAGE_SLOT,
     SYMBOL_STORAGE_SLOT, NAME_STORAGE_SLOT, DECIMALS_STORAGE_SLOT, WRAPPED_STORAGE_SLOT,
     ALLOWANCE_STORAGE_SLOT, NONCES_STORAGE_SLOT, BALANCE_STORAGE_SLOT]"
proof -
  let ?slots = "[TOTAL_SUPPLY_STORAGE_SLOT, MINTER_STORAGE_SLOT, PAUSER_STORAGE_SLOT, CONTRACT_FROZEN_STORAGE_SLOT,
     SYMBOL_STORAGE_SLOT, NAME_STORAGE_SLOT, DECIMALS_STORAGE_SLOT, WRAPPED_STORAGE_SLOT,
     ALLOWANCE_STORAGE_SLOT, NONCES_STORAGE_SLOT, BALANCE_STORAGE_SLOT]"
  have "map ucast ?slots =
      ([0x6900, 0xFD00, 0x1300, 0xBA00, 0xEA00, 0xFC00, 0x2D00, 0xB400, 0x8A00, 0xE200, 0x1000] :: 16 word list)"
    by (simp add: token_consts)
  then have "distinct (map ucast ?slots :: 16 word list)" by simp
  then show ?thesis by (simp only: distinct_map)
qed

lemma slots_distinct_rev:
  "distinct [BALANCE_STORAGE_SLOT, NONCES_STORAGE_SLOT, ALLOWANCE_STORAGE_SLOT, WRAPPED_STORAGE_SLOT,
     DECIMALS_STORAGE_SLOT, NAME_STORAGE_SLOT, SYMBOL_STORAGE_SLOT, CONTRACT_FROZEN_STORAGE_SLOT,
     PAUSER_STORAGE_SLOT, MINTER_STORAGE_SLOT, TOTAL_SUPPLY_STORAGE_SLOT]"
  using slots_distinct by (subst distinct_rev [symmetric]) (simp only: rev.simps append.simps)

lemma signatures_distinct:
  "distinct [SIG_ERC20_SYMBOL, SIG_ERC20_NAME, SIG_ERC20_DECIMALS, SIG_ERC20_TOTAL_SUPPLY, SIG_ERC20_BALANCE,
     SIG_ERC20_BALANCE_OF, SIG_ERC20_TRANSFER, SIG_ERC20_TRANSFER_FROM, SIG_ERC20_ALLOWANCE,
     SIG_ERC20_APPROVE, SIG_ERC20_MINT, SIG_ERC20_BURN, SIG_ERC20_PAUSE, SIG_ERC20_UNPAUSE,
     SIG_ERC20_DEPOSIT, SIG_ERC20_WITHDRAW, SIG_ERC20_PERMIT, SIG_ERC20_NONCES,
     SIG_ERC20_DOMAIN_SEPARATOR]"
  by (simp add: token_consts)

lemma signatures_distinct_rev:
  "distinct [SIG_ERC20_DOMAIN_SEPARATOR, SIG_ERC20_NONCES, SIG_ERC20_PERMIT, SIG_ERC20_WITHDRAW,
     SIG_ERC20_DEPOSIT, SIG_ERC20_UNPAUSE, SIG_ERC20_PAUSE, SIG_ERC20_BURN, SIG_ERC20_MINT,
     SIG_ERC20_APPROVE, SIG_ERC20_ALLOWANCE, SIG_ERC20_TRANSFER_FROM, SIG_ERC20_TRANSFER,
     SIG_ERC20_BALANCE_OF, SIG_ERC20_BALANCE, SIG_ERC20_TOTAL_SUPPLY, SIG_ERC20_DECIMALS, SIG_ERC20_NAME,
     SIG_ERC20_SYMBOL]"
  using signatures_distinct by (subst distinct_rev [symmetric]) (simp only: rev.simps append.simps)

lemmas constants_differ [token_neqs] =
  slots_distinct [simplified] slots_distinct_rev [simplified] signatures_distinct [simplified] signatures_distinct_rev [simplified]

end
