(* ===== verification/Token.thy ===== *)
theory Token
  imports Codec_Topic Token_Keys
begin

text \<open>
  The universal token (\<open>contracts/universal-token/src/lib.rs\<close> and \<open>erc2612.rs\<close>): the guards, events
  and handlers, the constructor and the two entry points, as computations on the system context. A
  handler returns the EVM error code of the source, 0 for success; \<open>return Ok(code)\<close> in the middle of
  a handler is the branch that does not continue. \<open>keccak\<close> and \<open>ecrecover\<close> stand for the hash
  function and the signature recovery of \<open>revm_precompile\<close>, which are outside the repository.
\<close>

type_synonym recover = "byte list \<Rightarrow> u8 \<Rightarrow> byte list \<Rightarrow> byte list option"

section \<open>StorageUtils (crates/sdk/src/types/storage.rs)\<close>

definition sdk_storage :: "u256 \<Rightarrow> (system_context, u256) comp" where
  "sdk_storage slot = api_ok (storage sys_api slot)"

definition sdk_write_storage :: "u256 \<Rightarrow> u256 \<Rightarrow> (system_context, unit) comp" where
  "sdk_write_storage slot value = api_ok (write_storage sys_api slot value)"

definition storage_short_string :: "u256 \<Rightarrow> (system_context, byte list) comp" where
  "storage_short_string slot =
     cbind (sdk_storage slot) (\<lambda>word.
       let value = takeWhile (\<lambda>c. c \<noteq> 0) (to_be_bytes word)
       in if valid_utf8 value then ret value else throw MalformedBuiltinParams)"

definition write_storage_short_string :: "u256 \<Rightarrow> byte list \<Rightarrow> (system_context, unit) comp" where
  "write_storage_short_string slot value =
     (if length value > 32 then throw MalformedBuiltinParams
      else sdk_write_storage slot (from_be_bytes (blit (replicate 32 0) 0 value)))"

definition storage_address :: "u256 \<Rightarrow> (system_context, address) comp" where
  "storage_address slot = cbind (sdk_storage slot) (\<lambda>value. ret (from_be_bytes (drop 12 (to_be_bytes value))))"

definition write_storage_address :: "u256 \<Rightarrow> address \<Rightarrow> (system_context, unit) comp" where
  "write_storage_address slot value = sdk_write_storage slot (from_be_bytes (replicate 12 0 @ to_be_bytes value))"

section \<open>write_evm_exit_message (crates/sdk/src/types/evm.rs)\<close>

definition write_evm_exit_message :: "u32 \<Rightarrow> (system_context, unit) comp" where
  "write_evm_exit_message exit_code =
     sys_write (blit ([0x4e, 0x48, 0x7b, 0x71] @ replicate 32 0) 32 (to_be_bytes exit_code))"

section \<open>Events\<close>

text \<open>
  The \<open>emit\<close> that \<open>#[derive(Event)]\<close> generates (\<open>crates/sdk-derive/derive-core/src/event.rs\<close>): the hash
  of the event's signature and the indexed fields are the topics, the only other field is the data.
\<close>

definition Transfer_SELECTOR :: "byte list" where
  "Transfer_SELECTOR =
     [0xDD, 0xF2, 0x52, 0xAD, 0x1B, 0xE2, 0xC8, 0x9B, 0x69, 0xC2, 0xB0, 0x68, 0xFC, 0x37, 0x8D, 0xAA,
      0x95, 0x2B, 0xA7, 0xF1, 0x63, 0xC4, 0xA1, 0x16, 0x28, 0xF5, 0x5A, 0x4D, 0xF5, 0x23, 0xB3, 0xEF]"

definition Approval_SELECTOR :: "byte list" where
  "Approval_SELECTOR =
     [0x8C, 0x5B, 0xE1, 0xE5, 0xEB, 0xEC, 0x7D, 0x5B, 0xD1, 0x4F, 0x71, 0x42, 0x7D, 0x1E, 0x84, 0xF3,
      0xDD, 0x03, 0x14, 0xC0, 0xF7, 0xB2, 0x29, 0x1E, 0x5B, 0x20, 0x0A, 0xC8, 0xC7, 0xC3, 0xB9, 0x25]"

definition Paused_SELECTOR :: "byte list" where
  "Paused_SELECTOR =
     [0x62, 0xE7, 0x8C, 0xEA, 0x01, 0xBE, 0xE3, 0x20, 0xCD, 0x4E, 0x42, 0x02, 0x70, 0xB5, 0xEA, 0x74,
      0x00, 0x0D, 0x11, 0xB0, 0xC9, 0xF7, 0x47, 0x54, 0xEB, 0xDB, 0xFC, 0x54, 0x4B, 0x05, 0xA2, 0x58]"

definition Unpaused_SELECTOR :: "byte list" where
  "Unpaused_SELECTOR =
     [0x5D, 0xB9, 0xEE, 0x0A, 0x49, 0x5B, 0xF2, 0xE6, 0xFF, 0x9C, 0x91, 0xA7, 0x83, 0x4C, 0x1B, 0xA4,
      0xFD, 0xD2, 0x44, 0xA5, 0xE8, 0xAA, 0x4E, 0x53, 0x7B, 0xD3, 0x8A, 0xEA, 0xE4, 0xB0, 0x73, 0xAA]"

definition Deposit_SELECTOR :: "byte list" where
  "Deposit_SELECTOR =
     [0xE1, 0xFF, 0xFC, 0xC4, 0x92, 0x3D, 0x04, 0xB5, 0x59, 0xF4, 0xD2, 0x9A, 0x8B, 0xFC, 0x6C, 0xDA,
      0x04, 0xEB, 0x5B, 0x0D, 0x3C, 0x46, 0x07, 0x51, 0xC2, 0x40, 0x2C, 0x5C, 0x5C, 0xC9, 0x10, 0x9C]"

definition Withdrawal_SELECTOR :: "byte list" where
  "Withdrawal_SELECTOR =
     [0x7F, 0xCF, 0x53, 0x2C, 0x15, 0xF0, 0xA6, 0xDB, 0x0B, 0xD6, 0xD0, 0xE0, 0x38, 0xBE, 0xA7, 0x1D,
      0x30, 0xD8, 0x08, 0xC7, 0xD9, 0x8C, 0xB3, 0xBF, 0x72, 0x68, 0xA9, 0x5B, 0xF5, 0x08, 0x1B, 0x65]"

definition event_topic_word :: "hash \<Rightarrow> 'a event_topic \<Rightarrow> 'a \<Rightarrow> (exit_code, byte list) outcome" where
  "event_topic_word keccak T value =
     oc_bind (oc_unwrap (encode_indexed_topic T value)) (\<lambda>topic.
       case topic of TopicWord word \<Rightarrow> Ok word | Preimage preimage \<Rightarrow> Ok (keccak preimage))"

definition event_data :: "'a encoder \<Rightarrow> 'a \<Rightarrow> (exit_code, byte list) outcome" where
  "event_data E value = oc_unwrap (encode_as_args SolidityABI (tuple1_encoder SolidityABI True E) value [])"

fun event_topics :: "hash \<Rightarrow> address list \<Rightarrow> (exit_code, byte list list) outcome" where
  "event_topics keccak [] = Ok []"
| "event_topics keccak (a # as) =
     oc_bind (event_topic_word keccak (value_topic (address_sol_encoder SolidityABI)) a)
       (\<lambda>t. oc_bind (event_topics keccak as) (\<lambda>ts. Ok (t # ts)))"

definition emit_event :: "hash \<Rightarrow> byte list \<Rightarrow> address list \<Rightarrow> 'a encoder \<Rightarrow> 'a \<Rightarrow> (system_context, unit) comp" where
  "emit_event keccak selector indexed E value =
     cbind (lift_oc (event_topics keccak indexed)) (\<lambda>topics.
     cbind (lift_oc (event_data E value)) (\<lambda>data. emit_log (selector # topics) data))"

definition emit_Transfer :: "hash \<Rightarrow> address \<Rightarrow> address \<Rightarrow> u256 \<Rightarrow> (system_context, unit) comp" where
  "emit_Transfer keccak from to amount =
     emit_event keccak Transfer_SELECTOR [from, to] (uint_sol_encoder SolidityABI) amount"

definition emit_Approval :: "hash \<Rightarrow> address \<Rightarrow> address \<Rightarrow> u256 \<Rightarrow> (system_context, unit) comp" where
  "emit_Approval keccak owner spender amount =
     emit_event keccak Approval_SELECTOR [owner, spender] (uint_sol_encoder SolidityABI) amount"

definition emit_Paused :: "hash \<Rightarrow> address \<Rightarrow> (system_context, unit) comp" where
  "emit_Paused keccak pauser = emit_event keccak Paused_SELECTOR [] (address_sol_encoder SolidityABI) pauser"

definition emit_Unpaused :: "hash \<Rightarrow> address \<Rightarrow> (system_context, unit) comp" where
  "emit_Unpaused keccak pauser = emit_event keccak Unpaused_SELECTOR [] (address_sol_encoder SolidityABI) pauser"

definition emit_Deposit :: "hash \<Rightarrow> address \<Rightarrow> u256 \<Rightarrow> (system_context, unit) comp" where
  "emit_Deposit keccak dst wad = emit_event keccak Deposit_SELECTOR [dst] (uint_sol_encoder SolidityABI) wad"

definition emit_Withdrawal :: "hash \<Rightarrow> address \<Rightarrow> u256 \<Rightarrow> (system_context, unit) comp" where
  "emit_Withdrawal keccak src wad = emit_event keccak Withdrawal_SELECTOR [src] (uint_sol_encoder SolidityABI) wad"

section \<open>Guards\<close>

type_synonym handler = "(system_context, u32) comp"

definition ctx_contract :: "system_context \<Rightarrow> contract_context" where
  "ctx_contract s = contract (sys_context s)"

definition when_non_payable :: "handler \<Rightarrow> handler" where
  "when_non_payable k =
     cbind (read_state (\<lambda>s. contract_value (ctx_contract s))) (\<lambda>v. if v \<noteq> 0 then throw ExitCode_Panic else k)"

definition when_non_static :: "handler \<Rightarrow> handler" where
  "when_non_static k =
     cbind (read_state (\<lambda>s. contract_is_static (ctx_contract s)))
       (\<lambda>b. if b then throw StateChangeDuringStaticCall else k)"

definition when_wrapped_enabled :: "handler \<Rightarrow> handler" where
  "when_wrapped_enabled k =
     cbind (sdk_storage WRAPPED_STORAGE_SLOT) (\<lambda>is_wrapped. if is_wrapped = 0 then ret ERR_UST_NOT_WRAPPED else k)"

definition when_pausable_enabled :: "(address \<Rightarrow> handler) \<Rightarrow> handler" where
  "when_pausable_enabled k =
     cbind (storage_address PAUSER_STORAGE_SLOT) (\<lambda>contract_pauser.
       if contract_pauser = 0 then ret ERR_UST_NOT_PAUSABLE else k contract_pauser)"

definition when_non_frozen :: "handler \<Rightarrow> handler" where
  "when_non_frozen k =
     cbind (sdk_storage CONTRACT_FROZEN_STORAGE_SLOT) (\<lambda>is_contract_frozen.
       if is_contract_frozen \<noteq> 0 then ret ERR_PAUSABLE_ENFORCED_PAUSE else k)"

section \<open>Accessors\<close>

definition checked_add :: "'a::len word \<Rightarrow> 'a word \<Rightarrow> 'a word option" where
  "checked_add a b = (if unat a + unat b < 2 ^ LENGTH('a) then Some (a + b) else None)"

definition checked_sub :: "'a::len word \<Rightarrow> 'a word \<Rightarrow> 'a word option" where
  "checked_sub a b = (if b \<le> a then Some (a - b) else None)"

text \<open>\<open>let Some(x) = e else { return Ok(code) }\<close> and \<open>e.ok_or(code)?\<close>.\<close>

definition some_or_return :: "'a option \<Rightarrow> u32 \<Rightarrow> ('a \<Rightarrow> handler) \<Rightarrow> handler" where
  "some_or_return x code k = (case x of Some a \<Rightarrow> k a | None \<Rightarrow> ret code)"

definition some_or_throw :: "'a option \<Rightarrow> exit_code \<Rightarrow> ('a \<Rightarrow> handler) \<Rightarrow> handler" where
  "some_or_throw x e k = (case x of Some a \<Rightarrow> k a | None \<Rightarrow> throw e)"

definition u256_layout :: layout where
  "u256_layout = primitive_layout (uint_packable :: u256 packable_codec)"

definition balance_entry :: "hash \<Rightarrow> address \<Rightarrow> location" where
  "balance_entry keccak a = map_entry keccak u256_layout BALANCE_STORAGE_SLOT (address_key_word a)"

definition allowance_entry :: "hash \<Rightarrow> address \<Rightarrow> address \<Rightarrow> location" where
  "allowance_entry keccak owner spender =
     map_entry keccak u256_layout (fst (map_entry keccak map_layout ALLOWANCE_STORAGE_SLOT (address_key_word owner)))
       (address_key_word spender)"

definition nonce_entry :: "hash \<Rightarrow> address \<Rightarrow> location" where
  "nonce_entry keccak owner = map_entry keccak u256_layout NONCES_STORAGE_SLOT (address_key_word owner)"

definition u256_get :: "location \<Rightarrow> (system_context, u256) comp" where
  "u256_get loc = get_checked sys_api uint_packable loc"

definition u256_set :: "location \<Rightarrow> u256 \<Rightarrow> (system_context, unit) comp" where
  "u256_set loc v = set_checked sys_api uint_packable loc v"

definition write_word :: "u256 \<Rightarrow> handler" where
  "write_word v = cbind (sys_write (to_be_bytes v)) (\<lambda>_. ret 0)"

section \<open>erc2612.rs\<close>

definition SECP256K1N_HALF :: u256 where
  "SECP256K1N_HALF = 0x7fffffffffffffffffffffffffffffff5d576e7357a4501ddfe92f46681b20a0"

definition nonce_get :: "hash \<Rightarrow> address \<Rightarrow> (system_context, u256) comp" where
  "nonce_get keccak owner = get_value sys_api uint_packable (nonce_entry keccak owner)"

definition nonce_set :: "hash \<Rightarrow> address \<Rightarrow> u256 \<Rightarrow> (system_context, unit) comp" where
  "nonce_set keccak owner nonce = u256_set (nonce_entry keccak owner) nonce"

definition domain_separator_value :: "hash \<Rightarrow> (system_context, byte list) comp" where
  "domain_separator_value keccak =
     cbind (storage_short_string NAME_STORAGE_SLOT) (\<lambda>token_name.
     cbind (read_state sys_context) (\<lambda>ctx.
       ret (keccak (EIP712_DOMAIN_TYPEHASH @ keccak token_name @ EIP2612_VERSION_HASH @
         to_be_bytes (ucast (chain_id (block ctx)) :: u256) @
         replicate 12 0 @ to_be_bytes (contract_address (contract ctx))))))"

definition permit_digest ::
  "hash \<Rightarrow> address \<Rightarrow> address \<Rightarrow> u256 \<Rightarrow> u256 \<Rightarrow> u256 \<Rightarrow> (system_context, byte list) comp" where
  "permit_digest keccak owner spender value nonce deadline =
     (let permit_hash = keccak (EIP2612_PERMIT_TYPEHASH @ replicate 12 0 @ to_be_bytes owner @
            replicate 12 0 @ to_be_bytes spender @ to_be_bytes value @ to_be_bytes nonce @ to_be_bytes deadline)
      in cbind (domain_separator_value keccak) (\<lambda>domain_separator.
         ret (keccak ([0x19, 0x01] @ domain_separator @ permit_hash))))"

definition ecrecover_address :: "recover \<Rightarrow> byte list \<Rightarrow> u8 \<Rightarrow> u256 \<Rightarrow> u256 \<Rightarrow> address option" where
  "ecrecover_address ecrecover digest v r s =
     (if s > SECP256K1N_HALF then None
      else case (if v = 27 \<or> v = 28 then Some (v - 27) else if v = 0 \<or> v = 1 then Some v else None) of
        None \<Rightarrow> None
      | Some rec_id \<Rightarrow>
          (case ecrecover (to_be_bytes r @ to_be_bytes s) rec_id digest of
             None \<Rightarrow> None
           | Some recovered \<Rightarrow>
               (let recovered_addr = from_be_bytes (window recovered 12 20)
                in if recovered_addr = 0 then None else Some recovered_addr)))"

section \<open>Handlers\<close>

definition erc20_string_handler :: "u256 \<Rightarrow> handler" where
  "erc20_string_handler slot =
     when_non_payable (
     cbind (storage_short_string slot) (\<lambda>value.
     cbind (lift_oc (oc_unwrap (encode (string_sol_encoder SolidityABI) value [] 0))) (\<lambda>result.
     cbind (sys_write result) (\<lambda>_. ret 0))))"

definition erc20_symbol_handler :: "byte list \<Rightarrow> handler" where
  "erc20_symbol_handler input = erc20_string_handler SYMBOL_STORAGE_SLOT"

definition erc20_name_handler :: "byte list \<Rightarrow> handler" where
  "erc20_name_handler input = erc20_string_handler NAME_STORAGE_SLOT"

definition erc20_decimals_handler :: "byte list \<Rightarrow> handler" where
  "erc20_decimals_handler input = when_non_payable (cbind (sdk_storage DECIMALS_STORAGE_SLOT) write_word)"

definition erc20_transfer_handler :: "hash \<Rightarrow> byte list \<Rightarrow> handler" where
  "erc20_transfer_handler keccak input =
     when_non_payable (when_non_static (when_non_frozen (
     cbind (read_state (\<lambda>s. contract_caller (ctx_contract s))) (\<lambda>from.
     cbind (lift_oc (try_decode transfer_encoder input)) (\<lambda>cmd.
     let to = transfer_to cmd; amount = transfer_amount cmd in
     if to = 0 then ret ERR_ERC20_INVALID_RECEIVER else
     let sender_accessor = balance_entry keccak from in
     cbind (u256_get sender_accessor) (\<lambda>sender_balance.
     some_or_return (checked_sub sender_balance amount) ERR_ERC20_INSUFFICIENT_BALANCE (\<lambda>new_sender_balance.
     cbind (u256_set sender_accessor new_sender_balance) (\<lambda>_.
     let recipient_accessor = balance_entry keccak to in
     cbind (u256_get recipient_accessor) (\<lambda>recipient_balance.
     some_or_throw (checked_add recipient_balance amount) IntegerOverflow (\<lambda>new_recipient_balance.
     cbind (u256_set recipient_accessor new_recipient_balance) (\<lambda>_.
     cbind (emit_Transfer keccak from to amount) (\<lambda>_.
     write_word 1))))))))))))"

definition erc20_transfer_from_handler :: "hash \<Rightarrow> byte list \<Rightarrow> handler" where
  "erc20_transfer_from_handler keccak input =
     when_non_payable (when_non_static (when_non_frozen (
     cbind (read_state (\<lambda>s. contract_caller (ctx_contract s))) (\<lambda>spender.
     cbind (lift_oc (try_decode transfer_from_encoder input)) (\<lambda>cmd.
     let from = transfer_from_from cmd; to = transfer_from_to cmd; amount = transfer_from_amount cmd in
     if to = 0 then ret ERR_ERC20_INVALID_RECEIVER else
     let allowance_accessor = allowance_entry keccak from spender in
     cbind (u256_get allowance_accessor) (\<lambda>allowance.
     (\<lambda>k. if allowance < - 1
          then some_or_return (checked_sub allowance amount) ERR_ERC20_INSUFFICIENT_ALLOWANCE (\<lambda>new_allowance.
               cbind (u256_set allowance_accessor new_allowance) (\<lambda>_. k))
          else k)
     (let sender_accessor = balance_entry keccak from in
     cbind (u256_get sender_accessor) (\<lambda>sender_balance.
     some_or_return (checked_sub sender_balance amount) ERR_ERC20_INSUFFICIENT_BALANCE (\<lambda>new_sender_balance.
     cbind (u256_set sender_accessor new_sender_balance) (\<lambda>_.
     let recipient_accessor = balance_entry keccak to in
     cbind (u256_get recipient_accessor) (\<lambda>recipient_balance.
     some_or_throw (checked_add recipient_balance amount) IntegerOverflow (\<lambda>new_recipient_balance.
     cbind (u256_set recipient_accessor new_recipient_balance) (\<lambda>_.
     cbind (emit_Transfer keccak from to amount) (\<lambda>_.
     write_word 1))))))))))))))"

definition erc20_approve_handler :: "hash \<Rightarrow> byte list \<Rightarrow> handler" where
  "erc20_approve_handler keccak input =
     when_non_payable (when_non_static (
     cbind (read_state (\<lambda>s. contract_caller (ctx_contract s))) (\<lambda>caller.
     cbind (lift_oc (try_decode approve_encoder input)) (\<lambda>cmd.
     let spender = approve_spender cmd; amount = approve_amount cmd in
     cbind (u256_set (allowance_entry keccak caller spender) amount) (\<lambda>_.
     cbind (emit_Approval keccak caller spender amount) (\<lambda>_.
     write_word 1))))))"

definition erc20_allowance_handler :: "hash \<Rightarrow> byte list \<Rightarrow> handler" where
  "erc20_allowance_handler keccak input =
     when_non_payable (
     cbind (lift_oc (try_decode allowance_encoder input)) (\<lambda>cmd.
     cbind (u256_get (allowance_entry keccak (allowance_owner cmd) (allowance_spender cmd))) write_word))"

definition erc20_domain_separator_handler :: "hash \<Rightarrow> byte list \<Rightarrow> handler" where
  "erc20_domain_separator_handler keccak input =
     when_non_payable (
     cbind (domain_separator_value keccak) (\<lambda>domain_separator.
     cbind (sys_write domain_separator) (\<lambda>_. ret 0)))"

definition erc20_nonces_handler :: "hash \<Rightarrow> byte list \<Rightarrow> handler" where
  "erc20_nonces_handler keccak input =
     when_non_payable (
     cbind (lift_oc (try_decode nonces_encoder input)) (\<lambda>cmd.
     cbind (nonce_get keccak (nonces_owner cmd)) write_word))"

definition erc20_permit_handler :: "hash \<Rightarrow> recover \<Rightarrow> byte list \<Rightarrow> handler" where
  "erc20_permit_handler keccak ecrecover input =
     when_non_payable (when_non_static (
     cbind (lift_oc (try_decode permit_encoder input)) (\<lambda>cmd.
     let owner = permit_owner cmd; spender = permit_spender cmd; value = permit_value cmd;
         deadline = permit_deadline cmd in
     cbind (read_state (\<lambda>s. ucast (timestamp (block (sys_context s))) :: u256)) (\<lambda>now.
     if deadline < now then ret ERR_UST_EXPIRED_DEADLINE else
     cbind (nonce_get keccak owner) (\<lambda>nonce.
     cbind (permit_digest keccak owner spender value nonce deadline) (\<lambda>digest.
     some_or_return (ecrecover_address ecrecover digest (permit_v cmd) (permit_r cmd) (permit_s cmd))
       ERR_UST_INVALID_SIGNATURE (\<lambda>recovered.
     if recovered \<noteq> owner then ret ERR_UST_INVALID_SIGNATURE else
     cbind (u256_set (allowance_entry keccak owner spender) value) (\<lambda>_.
     some_or_throw (checked_add nonce 1) IntegerOverflow (\<lambda>next_nonce.
     cbind (nonce_set keccak owner next_nonce) (\<lambda>_.
     cbind (emit_Approval keccak owner spender value) (\<lambda>_.
     ret 0)))))))))))"

definition erc20_total_supply_handler :: "byte list \<Rightarrow> handler" where
  "erc20_total_supply_handler input = when_non_payable (cbind (sdk_storage TOTAL_SUPPLY_STORAGE_SLOT) write_word)"

definition erc20_balance_handler :: "hash \<Rightarrow> byte list \<Rightarrow> handler" where
  "erc20_balance_handler keccak input =
     when_non_payable (
     cbind (read_state (\<lambda>s. contract_caller (ctx_contract s))) (\<lambda>caller.
     cbind (u256_get (balance_entry keccak caller)) write_word))"

definition erc20_balance_of_handler :: "hash \<Rightarrow> byte list \<Rightarrow> handler" where
  "erc20_balance_of_handler keccak input =
     when_non_payable (
     cbind (lift_oc (try_decode balance_of_encoder input)) (\<lambda>cmd.
     cbind (u256_get (balance_entry keccak (balance_of_owner cmd))) write_word))"

definition erc20_mint_handler :: "hash \<Rightarrow> byte list \<Rightarrow> handler" where
  "erc20_mint_handler keccak input =
     when_non_payable (when_non_static (
     cbind (storage_address MINTER_STORAGE_SLOT) (\<lambda>contract_minter.
     if contract_minter = 0 then ret ERR_UST_NOT_MINTABLE else
     cbind (read_state (\<lambda>s. contract_caller (ctx_contract s))) (\<lambda>caller.
     if caller \<noteq> contract_minter then ret ERR_UST_MINTER_MISMATCH else
     cbind (sdk_storage CONTRACT_FROZEN_STORAGE_SLOT) (\<lambda>is_contract_frozen.
     if is_contract_frozen \<noteq> 0 then ret ERR_PAUSABLE_ENFORCED_PAUSE else
     cbind (lift_oc (try_decode mint_encoder input)) (\<lambda>cmd.
     let to = mint_to cmd; amount = mint_amount cmd in
     if to = 0 then ret ERR_ERC20_INVALID_RECEIVER else
     cbind (sdk_storage TOTAL_SUPPLY_STORAGE_SLOT) (\<lambda>total_supply.
     some_or_throw (checked_add total_supply amount) IntegerOverflow (\<lambda>new_total_supply.
     let recipient_accessor = balance_entry keccak to in
     cbind (u256_get recipient_accessor) (\<lambda>recipient_balance.
     some_or_throw (checked_add recipient_balance amount) IntegerOverflow (\<lambda>new_recipient_balance.
     cbind (sdk_write_storage TOTAL_SUPPLY_STORAGE_SLOT new_total_supply) (\<lambda>_.
     cbind (u256_set recipient_accessor new_recipient_balance) (\<lambda>_.
     cbind (emit_Transfer keccak 0 to amount) (\<lambda>_.
     write_word 1)))))))))))))"

definition erc20_burn_handler :: "hash \<Rightarrow> byte list \<Rightarrow> handler" where
  "erc20_burn_handler keccak input =
     when_non_payable (when_non_static (
     cbind (sdk_storage CONTRACT_FROZEN_STORAGE_SLOT) (\<lambda>is_contract_frozen.
     if is_contract_frozen \<noteq> 0 then ret ERR_PAUSABLE_ENFORCED_PAUSE else
     cbind (storage_address MINTER_STORAGE_SLOT) (\<lambda>contract_minter.
     if contract_minter = 0 then ret ERR_UST_NOT_MINTABLE else
     cbind (lift_oc (try_decode burn_encoder input)) (\<lambda>cmd.
     let from = burn_from cmd; amount = burn_amount cmd in
     if from = 0 then ret ERR_ERC20_INVALID_SENDER else
     cbind (read_state (\<lambda>s. contract_caller (ctx_contract s))) (\<lambda>caller.
     if caller \<noteq> contract_minter then ret ERR_UST_MINTER_MISMATCH else
     cbind (sdk_storage TOTAL_SUPPLY_STORAGE_SLOT) (\<lambda>total_supply.
     some_or_return (checked_sub total_supply amount) ERR_ERC20_INSUFFICIENT_BALANCE (\<lambda>new_total_supply.
     let sender_accessor = balance_entry keccak from in
     cbind (u256_get sender_accessor) (\<lambda>sender_balance.
     some_or_return (checked_sub sender_balance amount) ERR_ERC20_INSUFFICIENT_BALANCE (\<lambda>new_sender_balance.
     cbind (sdk_write_storage TOTAL_SUPPLY_STORAGE_SLOT new_total_supply) (\<lambda>_.
     cbind (u256_set sender_accessor new_sender_balance) (\<lambda>_.
     cbind (emit_Transfer keccak from 0 amount) (\<lambda>_.
     write_word 1)))))))))))))"

definition erc20_pause_handler :: "hash \<Rightarrow> byte list \<Rightarrow> handler" where
  "erc20_pause_handler keccak input =
     when_non_payable (when_non_static (
     when_pausable_enabled (\<lambda>contract_pauser.
     cbind (sdk_storage CONTRACT_FROZEN_STORAGE_SLOT) (\<lambda>is_contract_frozen.
     if is_contract_frozen \<noteq> 0 then ret ERR_PAUSABLE_ENFORCED_PAUSE else
     cbind (read_state (\<lambda>s. contract_caller (ctx_contract s))) (\<lambda>caller.
     if caller \<noteq> contract_pauser then ret ERR_UST_PAUSER_MISMATCH else
     cbind (sdk_write_storage CONTRACT_FROZEN_STORAGE_SLOT 1) (\<lambda>_.
     cbind (emit_Paused keccak caller) (\<lambda>_.
     write_word 1)))))))"

definition erc20_unpause_handler :: "hash \<Rightarrow> byte list \<Rightarrow> handler" where
  "erc20_unpause_handler keccak input =
     when_non_payable (when_non_static (
     when_pausable_enabled (\<lambda>contract_pauser.
     cbind (sdk_storage CONTRACT_FROZEN_STORAGE_SLOT) (\<lambda>is_contract_frozen.
     if is_contract_frozen = 0 then ret ERR_PAUSABLE_EXPECTED_PAUSE else
     cbind (read_state (\<lambda>s. contract_caller (ctx_contract s))) (\<lambda>caller.
     if caller \<noteq> contract_pauser then ret ERR_UST_PAUSER_MISMATCH else
     cbind (sdk_write_storage CONTRACT_FROZEN_STORAGE_SLOT 0) (\<lambda>_.
     cbind (emit_Unpaused keccak caller) (\<lambda>_.
     write_word 1)))))))"

definition erc20_deposit_handler :: "hash \<Rightarrow> byte list \<Rightarrow> handler" where
  "erc20_deposit_handler keccak input =
     when_non_static (when_wrapped_enabled (when_non_frozen (
     cbind (read_state (\<lambda>s. contract_caller (ctx_contract s))) (\<lambda>caller.
     if caller = 0 then ret ERR_ERC20_INVALID_SENDER else
     cbind (read_state (\<lambda>s. contract_value (ctx_contract s))) (\<lambda>wad.
     let balance_accessor = balance_entry keccak caller in
     cbind (u256_get balance_accessor) (\<lambda>balance.
     some_or_throw (checked_add balance wad) IntegerOverflow (\<lambda>new_balance.
     cbind (sdk_storage TOTAL_SUPPLY_STORAGE_SLOT) (\<lambda>total_supply.
     some_or_throw (checked_add total_supply wad) IntegerOverflow (\<lambda>new_total_supply.
     cbind (u256_set balance_accessor new_balance) (\<lambda>_.
     cbind (sdk_write_storage TOTAL_SUPPLY_STORAGE_SLOT new_total_supply) (\<lambda>_.
     cbind (emit_Deposit keccak caller wad) (\<lambda>_.
     cbind (emit_Transfer keccak 0 caller wad) (\<lambda>_.
     ret 0)))))))))))))"

definition erc20_withdraw_handler :: "hash \<Rightarrow> byte list \<Rightarrow> handler" where
  "erc20_withdraw_handler keccak input =
     when_non_payable (when_non_static (when_wrapped_enabled (when_non_frozen (
     cbind (read_state (\<lambda>s. contract_caller (ctx_contract s))) (\<lambda>caller.
     cbind (lift_oc (try_decode withdraw_encoder input)) (\<lambda>cmd.
     let amount = withdraw_amount cmd; balance_accessor = balance_entry keccak caller in
     cbind (u256_get balance_accessor) (\<lambda>balance.
     some_or_return (checked_sub balance amount) ERR_ERC20_INSUFFICIENT_BALANCE (\<lambda>new_balance.
     cbind (sdk_storage TOTAL_SUPPLY_STORAGE_SLOT) (\<lambda>total_supply.
     some_or_return (checked_sub total_supply amount) ERR_ERC20_INSUFFICIENT_BALANCE (\<lambda>new_total_supply.
     cbind (u256_set balance_accessor new_balance) (\<lambda>_.
     cbind (sdk_write_storage TOTAL_SUPPLY_STORAGE_SLOT new_total_supply) (\<lambda>_.
     cbind (transfer_value_to caller amount) (\<lambda>_.
     cbind (emit_Withdrawal keccak caller amount) (\<lambda>_.
     cbind (emit_Transfer keccak caller 0 amount) (\<lambda>_.
     ret 0)))))))))))))))"

definition erc20_unknown_method :: "byte list \<Rightarrow> handler" where
  "erc20_unknown_method input = ret ERR_UST_UNKNOWN_METHOD"

section \<open>Deployment\<close>

definition CODE_DEPOSIT_GAS_PER_BYTE :: u64 where
  "CODE_DEPOSIT_GAS_PER_BYTE = 200"

definition sdk_charge_fuel :: "u64 \<Rightarrow> (system_context, unit) comp" where
  "sdk_charge_fuel amount = modify (\<lambda>s. s\<lparr>native_fuel := native_fuel s - amount\<rparr>)"

definition erc20_constructor_handler :: "hash \<Rightarrow> byte list \<Rightarrow> handler" where
  "erc20_constructor_handler keccak input =
     when_non_payable (when_non_static (
     cbind (lift_oc (oc_map_err (\<lambda>_. MalformedBuiltinParams) (decode_with_prefix input))) (\<lambda>settings.
     cbind (lift_oc (encode_with_prefix settings)) (\<lambda>metadata.
     if length metadata > INITIAL_SETTINGS_V2_SIZE then throw CreateContractSizeLimit else
     some_or_throw (as_str (token_name settings)) MalformedBuiltinParams (\<lambda>name.
     some_or_throw (as_str (token_symbol settings)) MalformedBuiltinParams (\<lambda>symbol.
     cbind (write_storage_short_string NAME_STORAGE_SLOT name) (\<lambda>_.
     cbind (write_storage_short_string SYMBOL_STORAGE_SLOT symbol) (\<lambda>_.
     cbind (sdk_write_storage DECIMALS_STORAGE_SLOT (ucast (token_decimals settings))) (\<lambda>_.
     cbind (read_state (\<lambda>s. contract_caller (ctx_contract s))) (\<lambda>caller.
     if wrapped settings = Some True \<and> initial_supply settings \<noteq> 0 then ret ERR_UST_NOT_MINTABLE else
     cbind (u256_set (balance_entry keccak caller) (initial_supply settings)) (\<lambda>_.
     cbind (sdk_write_storage TOTAL_SUPPLY_STORAGE_SLOT (initial_supply settings)) (\<lambda>_.
     cbind (if initial_supply settings > 0 then emit_Transfer keccak 0 caller (initial_supply settings) else ret ()) (\<lambda>_.
     cbind (write_storage_address MINTER_STORAGE_SLOT (token_minter settings)) (\<lambda>_.
     cbind (write_storage_address PAUSER_STORAGE_SLOT (token_pauser settings)) (\<lambda>_.
     (\<lambda>k. case wrapped settings of
            Some w \<Rightarrow> if token_minter settings \<noteq> 0 then ret ERR_UST_NOT_MINTABLE
                      else cbind (sdk_write_storage WRAPPED_STORAGE_SLOT (if w then 1 else 0)) (\<lambda>_. k)
          | None \<Rightarrow> k)
     (let fuel_for_metadata =
            saturating_mul (saturating_mul (word_of_nat (length metadata)) CODE_DEPOSIT_GAS_PER_BYTE) FUEL_DENOM_RATE in
     cbind (read_state native_fuel) (\<lambda>fuel.
     if fuel < fuel_for_metadata then throw OutOfFuel else
     cbind (sdk_charge_fuel fuel_for_metadata) (\<lambda>_.
     cbind (write_contract_metadata metadata) (\<lambda>_.
     ret 0)))))))))))))))))))"

text \<open>The end of both entry points: an EVM error code becomes the output of a failed call.\<close>

definition exit_with :: "u32 \<Rightarrow> (system_context, unit) comp" where
  "exit_with evm_exit_code =
     (if evm_exit_code \<noteq> 0
      then cbind (write_evm_exit_message evm_exit_code) (\<lambda>_. throw ExitCode_Panic)
      else ret ())"

definition deploy_entry :: "hash \<Rightarrow> (system_context, unit) comp" where
  "deploy_entry keccak =
     cbind (read_state input_size) (\<lambda>size.
     if size < word_of_nat SIG_LEN_BYTES \<or> unat size > INITIAL_SETTINGS_MAX_SIZE then throw MalformedBuiltinParams else
     cbind (read_state bytes_input) (\<lambda>input.
     cbind (erc20_constructor_handler keccak input) exit_with))"

section \<open>Calls\<close>

definition dispatch :: "hash \<Rightarrow> recover \<Rightarrow> nat \<Rightarrow> u32 \<Rightarrow> byte list \<Rightarrow> handler" where
  "dispatch keccak ecrecover metadata_len sig input =
     (if sig = SIG_ERC20_SYMBOL then erc20_symbol_handler input
      else if sig = SIG_ERC20_NAME then erc20_name_handler input
      else if sig = SIG_ERC20_TRANSFER then erc20_transfer_handler keccak input
      else if sig = SIG_ERC20_TRANSFER_FROM then erc20_transfer_from_handler keccak input
      else if sig = SIG_ERC20_APPROVE then erc20_approve_handler keccak input
      else if sig = SIG_ERC20_DECIMALS then erc20_decimals_handler input
      else if sig = SIG_ERC20_ALLOWANCE then erc20_allowance_handler keccak input
      else if sig = SIG_ERC20_TOTAL_SUPPLY then erc20_total_supply_handler input
      else if sig = SIG_ERC20_BALANCE then erc20_balance_handler keccak input
      else if sig = SIG_ERC20_BALANCE_OF then erc20_balance_of_handler keccak input
      else if sig = SIG_ERC20_MINT then erc20_mint_handler keccak input
      else if sig = SIG_ERC20_BURN then erc20_burn_handler keccak input
      else if sig = SIG_ERC20_PAUSE then erc20_pause_handler keccak input
      else if sig = SIG_ERC20_UNPAUSE then erc20_unpause_handler keccak input
      else if sig = SIG_ERC20_PERMIT then erc20_permit_handler keccak ecrecover input
      else if sig = SIG_ERC20_NONCES then erc20_nonces_handler keccak input
      else if sig = SIG_ERC20_DOMAIN_SEPARATOR then erc20_domain_separator_handler keccak input
      else if sig = SIG_ERC20_DEPOSIT \<and> metadata_len \<ge> INITIAL_SETTINGS_V2_SIZE then erc20_deposit_handler keccak input
      else if sig = SIG_ERC20_WITHDRAW \<and> metadata_len \<ge> INITIAL_SETTINGS_V2_SIZE then erc20_withdraw_handler keccak input
      else erc20_unknown_method input)"

definition main_entry :: "hash \<Rightarrow> recover \<Rightarrow> (system_context, unit) comp" where
  "main_entry keccak ecrecover =
     cbind (read_state input_size) (\<lambda>size.
     if size < word_of_nat SIG_LEN_BYTES then throw MalformedBuiltinParams else
     cbind (read_state bytes_input) (\<lambda>input.
     cbind (lift_oc (oc_assert (SIG_LEN_BYTES \<le> length input))) (\<lambda>_.
     let sig = from_be_bytes (take SIG_LEN_BYTES input); args = drop SIG_LEN_BYTES input in
     cbind (read_state contract_metadata) (\<lambda>metadata.
     cbind (dispatch keccak ecrecover (length metadata) sig args) exit_with))))"

end
