(* ===== verification/Token_Run.thy ===== *)
theory Token_Run
  imports Token
begin

text \<open>
  Symbolic execution of the token handlers. Reading, writing and logging are rewritten to three
  state transformers whose effect on the readable slots is known, so that the simplifier runs a
  handler whose slots are loaded. \<open>outcome_is C m R s\<close> says what a run of a handler comes to: it
  succeeds exactly when \<open>C\<close> holds, and then the readable slots are \<open>m\<close> and the output, the events and
  the payments are \<open>R\<close>; it never panics and never misses a slot.
\<close>

section \<open>State transformers\<close>

definition touched :: "u256 \<Rightarrow> system_context \<Rightarrow> system_context" where
  "touched k s = s\<lparr>sys_storage := snd (journal_read k (sys_storage s))\<rparr>"

definition stored :: "u256 \<Rightarrow> u256 \<Rightarrow> system_context \<Rightarrow> system_context" where
  "stored k v s = s\<lparr>sys_storage := journal_write k v (sys_storage s)\<rparr>"

definition logged :: "byte list list \<Rightarrow> byte list \<Rightarrow> system_context \<Rightarrow> system_context" where
  "logged ts d s = s\<lparr>sys_storage := journal_emit_log ts d (sys_storage s)\<rparr>"

abbreviation snap :: "system_context \<Rightarrow> u256 \<rightharpoonup> u256" where
  "snap s \<equiv> snapshot (sys_storage s)"

lemma transformers_lookup [simp]:
  "sys_lookup (touched k s) = sys_lookup s"
  "sys_lookup (stored k v s) = (sys_lookup s)(k \<mapsto> v)"
  "sys_lookup (logged ts d s) = sys_lookup s"
  "sys_lookup (s\<lparr>sys_output := out\<rparr>) = sys_lookup s"
  "sys_lookup (s\<lparr>transfers := tr\<rparr>) = sys_lookup s"
  "sys_lookup (s\<lparr>native_fuel := f\<rparr>) = sys_lookup s"
  "sys_lookup (s\<lparr>new_metadata := md\<rparr>) = sys_lookup s"
  by (simp_all add: touched_def stored_def logged_def sys_lookup_def journal_simps)

lemma transformers_frame [simp]:
  "snap (touched k s) = snap s" "snap (stored k v s) = snap s" "snap (logged ts d s) = snap s"
  "sys_context (touched k s) = sys_context s" "sys_context (stored k v s) = sys_context s"
  "sys_context (logged ts d s) = sys_context s"
  "native_fuel (touched k s) = native_fuel s" "native_fuel (stored k v s) = native_fuel s"
  "native_fuel (logged ts d s) = native_fuel s"
  "sys_output (touched k s) = sys_output s" "sys_output (stored k v s) = sys_output s"
  "sys_output (logged ts d s) = sys_output s"
  "transfers (touched k s) = transfers s" "transfers (stored k v s) = transfers s" "transfers (logged ts d s) = transfers s"
  "events (sys_storage (touched k s)) = events (sys_storage s)" "events (sys_storage (stored k v s)) = events (sys_storage s)"
  "events (sys_storage (logged ts d s)) = events (sys_storage s) @ [\<lparr>topics = ts, log_data = d\<rparr>]"
  by (simp_all add: touched_def stored_def logged_def journal_simps)

section \<open>Primitives\<close>

lemma sdk_storage_hit [simp]: "sys_lookup s k = Some v \<Longrightarrow> sdk_storage k s = (Ok v, touched k s)"
  by (simp add: sdk_storage_def api_ok_def sys_api_def sys_storage_read_eq touched_def)

lemma sdk_storage_miss [simp]: "sys_lookup s k = None \<Longrightarrow> sdk_storage k s = (Err MissingStorageSlot, touched k s)"
  by (simp add: sdk_storage_def api_ok_def sys_api_def sys_storage_read_eq touched_def)

lemma sdk_write_storage_eq [simp]: "sdk_write_storage k v s = (Ok (), stored k v s)"
  by (simp add: sdk_write_storage_def api_ok_def sys_api_def sys_write_storage_def stored_def)

lemma storage_address_hit [simp]:
  "sys_lookup s k = Some v \<Longrightarrow> storage_address k s = (Ok (from_be_bytes (drop 12 (to_be_bytes v))), touched k s)"
  by (simp add: storage_address_def)

lemma storage_address_miss [simp]:
  "sys_lookup s k = None \<Longrightarrow> storage_address k s = (Err MissingStorageSlot, touched k s)"
  by (simp add: storage_address_def)

lemma write_storage_address_eq [simp]:
  "write_storage_address k a s = (Ok (), stored k (from_be_bytes (replicate 12 0 @ to_be_bytes a)) s)"
  by (simp add: write_storage_address_def)

lemma touch_touched: "touch sys_api k s = touched k s"
  by (simp add: touch_def sys_api_def sys_storage_read_eq touched_def)

lemma put_stored: "put_slot sys_api k v s = stored k v s"
  by (simp add: put_slot_def sys_api_def sys_write_storage_def stored_def)

interpretation u256_slots: packed_storage sys_api sys_lookup sys_rest "uint_packable :: u256 packable_codec"
    to_be_bytes "\<lambda>_. True"
  by (simp add: packed_storage_def sys.storage_spec_axioms u256_codec.packable_axioms)

lemma u256_size [simp]: "ENCODED_SIZE (uint_packable :: u256 packable_codec) = 32"
  by (simp add: uint_packable_def)

lemma u256_decode [simp]: "pdecode (uint_packable :: u256 packable_codec) (to_be_bytes v) = Ok v"
  by (simp add: uint_packable_def)

lemma u256_get_hit [simp]: "sys_lookup s k = Some v \<Longrightarrow> u256_get (k, 0) s = (Ok v, touched k s)"
  using sys.read_at_hit [of s k v 0 "uint_packable :: u256 packable_codec"]
  by (simp add: u256_get_def get_checked_def touch_touched window_def)

lemma u256_set_eq [simp]: "u256_set (k, 0) v s = (Ok (), stored k v s)"
  using u256_slots.write_at_full [of k v s] by (simp add: u256_set_def set_checked_def put_stored)

lemma sys_write_eq [simp]: "sys_write out s = (Ok (), s\<lparr>sys_output := sys_output s @ out\<rparr>)"
  by (simp add: sys_write_def)

lemma write_word_eq [simp]: "write_word v s = (Ok 0, s\<lparr>sys_output := sys_output s @ to_be_bytes v\<rparr>)"
  by (simp add: write_word_def)

section \<open>Entries of the maps\<close>

abbreviation bal_slot :: "hash \<Rightarrow> address \<Rightarrow> u256" where
  "bal_slot keccak a \<equiv> address_slot keccak a BALANCE_STORAGE_SLOT"

abbreviation allow_slot :: "hash \<Rightarrow> address \<Rightarrow> address \<Rightarrow> u256" where
  "allow_slot keccak owner spender \<equiv> address_slot keccak spender (address_slot keccak owner ALLOWANCE_STORAGE_SLOT)"

abbreviation nonce_slot :: "hash \<Rightarrow> address \<Rightarrow> u256" where
  "nonce_slot keccak a \<equiv> address_slot keccak a NONCES_STORAGE_SLOT"

lemma entries [simp]:
  "balance_entry keccak a = (bal_slot keccak a, 0)"
  "allowance_entry keccak owner spender = (allow_slot keccak owner spender, 0)"
  "nonce_entry keccak a = (nonce_slot keccak a, 0)"
  by (simp_all add: balance_entry_def allowance_entry_def nonce_entry_def map_entry_def u256_layout_def
    primitive_layout_def address_slot_def)

lemma nonce_get_hit [simp]:
  "sys_lookup s (nonce_slot keccak a) = Some v \<Longrightarrow> nonce_get keccak a s = (Ok v, touched (nonce_slot keccak a) s)"
  using u256_get_hit [of s "nonce_slot keccak a" v]
  by (simp add: nonce_get_def get_value_def comp_unwrap_def u256_get_def get_checked_def)

lemma nonce_set_eq [simp]: "nonce_set keccak a v s = (Ok (), stored (nonce_slot keccak a) v s)"
  by (simp add: nonce_set_def)

section \<open>Events\<close>

definition address_word :: "address \<Rightarrow> byte list" where
  "address_word a = replicate 12 0 @ to_be_bytes a"

lemma event_topics_eq: "event_topics keccak as = Ok (map address_word as)"
  by (induction as) (simp_all add: event_topic_word_def address_word_def)

lemma event_data_eq:
  "event_data (uint_sol_encoder SolidityABI) (v :: u256) = Ok (to_be_bytes v)"
  "event_data (address_sol_encoder SolidityABI) a = Ok (address_word a)"
  by (simp_all add: event_data_def encode_as_args_def tuple1_encoder_def tuple1_encode_def address_word_def
    uint_sol_encoder_def address_sol_encoder_def sol_words_encoded [unfolded uint_sol_encoder_def address_sol_encoder_def, simplified] Let_def)

lemma emit_events [simp]:
  "emit_Transfer keccak a b v s = (Ok (), logged [Transfer_SELECTOR, address_word a, address_word b] (to_be_bytes v) s)"
  "emit_Approval keccak a b v s = (Ok (), logged [Approval_SELECTOR, address_word a, address_word b] (to_be_bytes v) s)"
  "emit_Paused keccak a s = (Ok (), logged [Paused_SELECTOR] (address_word a) s)"
  "emit_Unpaused keccak a s = (Ok (), logged [Unpaused_SELECTOR] (address_word a) s)"
  "emit_Deposit keccak a v s = (Ok (), logged [Deposit_SELECTOR, address_word a] (to_be_bytes v) s)"
  "emit_Withdrawal keccak a v s = (Ok (), logged [Withdrawal_SELECTOR, address_word a] (to_be_bytes v) s)"
  by (simp_all add: emit_Transfer_def emit_Approval_def emit_Paused_def emit_Unpaused_def emit_Deposit_def
    emit_Withdrawal_def emit_event_def event_topics_eq event_data_eq emit_log_def logged_def)

section \<open>Outcomes of handlers\<close>

text \<open>The logs of the events.\<close>

definition Transfer_log :: "address \<Rightarrow> address \<Rightarrow> u256 \<Rightarrow> journal_log" where
  "Transfer_log a b v = \<lparr>topics = [Transfer_SELECTOR, address_word a, address_word b], log_data = to_be_bytes v\<rparr>"

definition Approval_log :: "address \<Rightarrow> address \<Rightarrow> u256 \<Rightarrow> journal_log" where
  "Approval_log a b v = \<lparr>topics = [Approval_SELECTOR, address_word a, address_word b], log_data = to_be_bytes v\<rparr>"

definition Paused_log :: "address \<Rightarrow> journal_log" where
  "Paused_log a = \<lparr>topics = [Paused_SELECTOR], log_data = address_word a\<rparr>"

definition Unpaused_log :: "address \<Rightarrow> journal_log" where
  "Unpaused_log a = \<lparr>topics = [Unpaused_SELECTOR], log_data = address_word a\<rparr>"

definition Deposit_log :: "address \<Rightarrow> u256 \<Rightarrow> journal_log" where
  "Deposit_log a v = \<lparr>topics = [Deposit_SELECTOR, address_word a], log_data = to_be_bytes v\<rparr>"

definition Withdrawal_log :: "address \<Rightarrow> u256 \<Rightarrow> journal_log" where
  "Withdrawal_log a v = \<lparr>topics = [Withdrawal_SELECTOR, address_word a], log_data = to_be_bytes v\<rparr>"

lemmas log_defs = Transfer_log_def Approval_log_def Paused_log_def Unpaused_log_def Deposit_log_def Withdrawal_log_def

text \<open>What a call shows to the outside: its output, its events and the payments it asks for.\<close>

type_synonym reply = "byte list \<times> journal_log list \<times> (address \<times> u256) list"

definition paid :: "system_context \<Rightarrow> (address \<times> u256) list" where
  "paid s = (case transfers s of Some l \<Rightarrow> l | None \<Rightarrow> [])"

lemma paid_frame [simp]:
  "paid (touched k s) = paid s" "paid (stored k v s) = paid s" "paid (logged ts d s) = paid s"
  "paid (s\<lparr>sys_output := out\<rparr>) = paid s" "paid (s\<lparr>transfers := Some l\<rparr>) = l"
  by (simp_all add: paid_def)

definition replies :: "reply \<Rightarrow> system_context \<Rightarrow> system_context \<Rightarrow> bool" where
  "replies R s s' = (case R of (out, evs, pays) \<Rightarrow>
     sys_output s' = sys_output s @ out \<and> events (sys_storage s') = events (sys_storage s) @ evs \<and> paid s' = paid s @ pays)"

lemma replies_simps [simp]:
  "replies (out, evs, pays) s s' =
     (sys_output s' = sys_output s @ out \<and> events (sys_storage s') = events (sys_storage s) @ evs \<and> paid s' = paid s @ pays)"
  by (simp add: replies_def)

definition outcome_is ::
  "bool \<Rightarrow> (u256 \<rightharpoonup> u256) \<Rightarrow> reply \<Rightarrow> system_context \<Rightarrow> (exit_code, u32) outcome \<times> system_context \<Rightarrow> bool" where
  "outcome_is C m R s p =
     (snap (snd p) = snap s \<and>
      (case fst p of
         Ok c \<Rightarrow> if c = 0 then C \<and> sys_lookup (snd p) = m \<and> replies R s (snd p) else \<not> C
       | Err e \<Rightarrow> \<not> C \<and> e \<noteq> MissingStorageSlot
       | Panic \<Rightarrow> False))"

lemma outcome_is_simps [simp]:
  "outcome_is C m R s (Ok c, s') = (snap s' = snap s \<and> (if c = 0 then C \<and> sys_lookup s' = m \<and> replies R s s' else \<not> C))"
  "outcome_is C m R s (Err e, s') = (snap s' = snap s \<and> \<not> C \<and> e \<noteq> MissingStorageSlot)"
  "outcome_is C m R s (Panic, s') = False"
  by (simp_all add: outcome_is_def)

lemma error_codes [simp]:
  "ERR_UST_UNKNOWN_METHOD \<noteq> 0" "ERR_UST_NOT_PAUSABLE \<noteq> 0" "ERR_UST_PAUSER_MISMATCH \<noteq> 0"
  "ERR_UST_NOT_MINTABLE \<noteq> 0" "ERR_UST_MINTER_MISMATCH \<noteq> 0" "ERR_UST_NOT_WRAPPED \<noteq> 0"
  "ERR_UST_EXPIRED_DEADLINE \<noteq> 0" "ERR_UST_INVALID_SIGNATURE \<noteq> 0" "ERR_ERC20_INSUFFICIENT_BALANCE \<noteq> 0"
  "ERR_ERC20_INVALID_SENDER \<noteq> 0" "ERR_ERC20_INVALID_RECEIVER \<noteq> 0" "ERR_ERC20_INSUFFICIENT_ALLOWANCE \<noteq> 0"
  "ERR_PAUSABLE_ENFORCED_PAUSE \<noteq> 0" "ERR_PAUSABLE_EXPECTED_PAUSE \<noteq> 0"
  by (simp_all add: token_consts)

lemma guards:
  "when_non_payable k s = (if contract_value (ctx_contract s) \<noteq> 0 then (Err ExitCode_Panic, s) else k s)"
  "when_non_static k s = (if contract_is_static (ctx_contract s) then (Err StateChangeDuringStaticCall, s) else k s)"
  by (simp_all add: when_non_payable_def when_non_static_def)

lemma storage_guards:
  "sys_lookup s WRAPPED_STORAGE_SLOT = Some w \<Longrightarrow> when_wrapped_enabled k s =
     (if w = 0 then (Ok ERR_UST_NOT_WRAPPED, touched WRAPPED_STORAGE_SLOT s) else k (touched WRAPPED_STORAGE_SLOT s))"
  "sys_lookup s CONTRACT_FROZEN_STORAGE_SLOT = Some f \<Longrightarrow> when_non_frozen k s =
     (if f \<noteq> 0 then (Ok ERR_PAUSABLE_ENFORCED_PAUSE, touched CONTRACT_FROZEN_STORAGE_SLOT s)
      else k (touched CONTRACT_FROZEN_STORAGE_SLOT s))"
  "sys_lookup s PAUSER_STORAGE_SLOT = Some p \<Longrightarrow> when_pausable_enabled g s =
     (let a = from_be_bytes (drop 12 (to_be_bytes p)) in
      if a = 0 then (Ok ERR_UST_NOT_PAUSABLE, touched PAUSER_STORAGE_SLOT s) else g a (touched PAUSER_STORAGE_SLOT s))"
  by (simp_all add: when_wrapped_enabled_def when_non_frozen_def when_pausable_enabled_def Let_def)

lemma ctx_contract_frame [simp]:
  "ctx_contract (touched k s) = ctx_contract s" "ctx_contract (stored k v s) = ctx_contract s"
  "ctx_contract (logged ts d s) = ctx_contract s"
  by (simp_all add: ctx_contract_def)

lemma checked_options:
  "checked_add a b = (if unat a + unat b < 2 ^ LENGTH('a) then Some (a + b) else None)"
  "checked_sub a b = (if b \<le> a then Some (a - b) else None)" for a b :: "'a::len word"
  by (simp_all add: checked_add_def checked_sub_def)

lemma some_or [simp]:
  "some_or_return (Some a) c k = k a" "some_or_return None c k s = (Ok c, s)"
  "some_or_throw (Some a) e k = k a" "some_or_throw None e k s = (Err e, s)"
  by (simp_all add: some_or_return_def some_or_throw_def)

lemma comp_if_s: "(if b then f else g) s = (if b then f s else g s)" for f :: "('s, 'a) comp"
  by simp

lemmas run_simps = guards storage_guards Let_def comp_if_s

text \<open>No overflow of a balance: the check of \<open>checked_add\<close>.\<close>

abbreviation fits256 :: "u256 \<Rightarrow> u256 \<Rightarrow> bool" where
  "fits256 a b \<equiv> unat a + unat b < 2 ^ 256"

text \<open>\<open>holds G s k\<close>: slot \<open>k\<close> is loaded and has the value the account's storage \<open>G\<close> has.\<close>

abbreviation holds :: "(u256 \<Rightarrow> u256) \<Rightarrow> system_context \<Rightarrow> u256 \<Rightarrow> bool" where
  "holds G s k \<equiv> sys_lookup s k = Some (G k)"

abbreviation caller_of :: "system_context \<Rightarrow> address" where
  "caller_of s \<equiv> contract_caller (ctx_contract s)"

abbreviation not_payable :: "system_context \<Rightarrow> bool" where
  "not_payable s \<equiv> contract_value (ctx_contract s) = 0"

abbreviation not_static :: "system_context \<Rightarrow> bool" where
  "not_static s \<equiv> \<not> contract_is_static (ctx_contract s)"

definition slot_address :: "u256 \<Rightarrow> address" where
  "slot_address v = from_be_bytes (drop 12 (to_be_bytes v))"

section \<open>Handlers that move tokens\<close>

lemma transfer_run:
  assumes "try_decode transfer_encoder input = Ok c" "holds G s CONTRACT_FROZEN_STORAGE_SLOT"
    "holds G s (bal_slot keccak (caller_of s))" "holds G s (bal_slot keccak (transfer_to c))"
    and "f = bal_slot keccak (caller_of s)" "t = bal_slot keccak (transfer_to c)" "v = transfer_amount c"
    "G1 = G(f := G f - v)"
  shows "outcome_is (not_payable s \<and> not_static s \<and> G CONTRACT_FROZEN_STORAGE_SLOT = 0 \<and> transfer_to c \<noteq> 0 \<and>
       v \<le> G f \<and> fits256 (G1 t) v)
     ((sys_lookup s)(f \<mapsto> G f - v, t \<mapsto> G1 t + v)) (to_be_bytes (1 :: u256), [Transfer_log (caller_of s) (transfer_to c) v], []) s (erc20_transfer_handler keccak input s)"
  using assms by (simp add: erc20_transfer_handler_def run_simps checked_options log_defs)

lemma transfer_from_run:
  assumes "try_decode transfer_from_encoder input = Ok c" "holds G s CONTRACT_FROZEN_STORAGE_SLOT"
    "holds G s (bal_slot keccak (transfer_from_from c))" "holds G s (bal_slot keccak (transfer_from_to c))"
    "holds G s (allow_slot keccak (transfer_from_from c) (caller_of s))"
    and "f = bal_slot keccak (transfer_from_from c)" "t = bal_slot keccak (transfer_from_to c)"
    "a = allow_slot keccak (transfer_from_from c) (caller_of s)" "v = transfer_from_amount c"
    and "G1 = G(a := (if G a < - 1 then G a - v else G a))" "G2 = G1(f := G1 f - v)"
  shows "outcome_is (not_payable s \<and> not_static s \<and> G CONTRACT_FROZEN_STORAGE_SLOT = 0 \<and> transfer_from_to c \<noteq> 0 \<and>
       (G a < - 1 \<longrightarrow> v \<le> G a) \<and> v \<le> G1 f \<and> fits256 (G2 t) v)
     ((if G a < - 1 then (sys_lookup s)(a \<mapsto> G a - v) else sys_lookup s)(f \<mapsto> G1 f - v, t \<mapsto> G2 t + v))
     (to_be_bytes (1 :: u256), [Transfer_log (transfer_from_from c) (transfer_from_to c) v], []) s
     (erc20_transfer_from_handler keccak input s)"
  using assms by (simp add: erc20_transfer_from_handler_def run_simps checked_options log_defs)

lemma approve_run:
  assumes "try_decode approve_encoder input = Ok c"
  shows "outcome_is (not_payable s \<and> not_static s)
     ((sys_lookup s)(allow_slot keccak (caller_of s) (approve_spender c) \<mapsto> approve_amount c))
     (to_be_bytes (1 :: u256), [Approval_log (caller_of s) (approve_spender c) (approve_amount c)], []) s
     (erc20_approve_handler keccak input s)"
  using assms by (simp add: erc20_approve_handler_def run_simps log_defs)

lemma mint_run:
  assumes "try_decode mint_encoder input = Ok c" "holds G s CONTRACT_FROZEN_STORAGE_SLOT" "holds G s MINTER_STORAGE_SLOT"
    "holds G s TOTAL_SUPPLY_STORAGE_SLOT" "holds G s (bal_slot keccak (mint_to c))"
    and "T = TOTAL_SUPPLY_STORAGE_SLOT" "t = bal_slot keccak (mint_to c)" "v = mint_amount c"
    "M = slot_address (G MINTER_STORAGE_SLOT)"
  shows "outcome_is (not_payable s \<and> not_static s \<and> M \<noteq> 0 \<and> caller_of s = M \<and> G CONTRACT_FROZEN_STORAGE_SLOT = 0 \<and>
       mint_to c \<noteq> 0 \<and> fits256 (G T) v \<and> fits256 (G t) v)
     ((sys_lookup s)(T \<mapsto> G T + v, t \<mapsto> G t + v)) (to_be_bytes (1 :: u256), [Transfer_log 0 (mint_to c) v], []) s (erc20_mint_handler keccak input s)"
  using assms by (simp add: erc20_mint_handler_def run_simps checked_options log_defs slot_address_def)

lemma burn_run:
  assumes "try_decode burn_encoder input = Ok c" "holds G s CONTRACT_FROZEN_STORAGE_SLOT" "holds G s MINTER_STORAGE_SLOT"
    "holds G s TOTAL_SUPPLY_STORAGE_SLOT" "holds G s (bal_slot keccak (burn_from c))"
    and "T = TOTAL_SUPPLY_STORAGE_SLOT" "f = bal_slot keccak (burn_from c)" "v = burn_amount c"
    "M = slot_address (G MINTER_STORAGE_SLOT)"
  shows "outcome_is (not_payable s \<and> not_static s \<and> G CONTRACT_FROZEN_STORAGE_SLOT = 0 \<and> M \<noteq> 0 \<and> burn_from c \<noteq> 0 \<and>
       caller_of s = M \<and> v \<le> G T \<and> v \<le> G f)
     ((sys_lookup s)(T \<mapsto> G T - v, f \<mapsto> G f - v)) (to_be_bytes (1 :: u256), [Transfer_log (burn_from c) 0 v], []) s (erc20_burn_handler keccak input s)"
  using assms by (simp add: erc20_burn_handler_def run_simps checked_options log_defs slot_address_def)

lemma deposit_run:
  assumes "holds G s WRAPPED_STORAGE_SLOT" "holds G s CONTRACT_FROZEN_STORAGE_SLOT"
    "holds G s TOTAL_SUPPLY_STORAGE_SLOT" "holds G s (bal_slot keccak (caller_of s))"
    and "T = TOTAL_SUPPLY_STORAGE_SLOT" "t = bal_slot keccak (caller_of s)" "v = contract_value (ctx_contract s)"
  shows "outcome_is (not_static s \<and> G WRAPPED_STORAGE_SLOT \<noteq> 0 \<and> G CONTRACT_FROZEN_STORAGE_SLOT = 0 \<and>
       caller_of s \<noteq> 0 \<and> fits256 (G t) v \<and> fits256 (G T) v)
     ((sys_lookup s)(t \<mapsto> G t + v, T \<mapsto> G T + v)) ([], [Deposit_log (caller_of s) v, Transfer_log 0 (caller_of s) v], []) s (erc20_deposit_handler keccak input s)"
  using assms by (simp add: erc20_deposit_handler_def run_simps checked_options log_defs)

lemma transfer_value_to_eq [simp]:
  "not_static s \<Longrightarrow> transfer_value_to a v s = (Ok (), s\<lparr>transfers := Some (paid s @ [(a, v)])\<rparr>)"
  by (simp add: transfer_value_to_def ctx_contract_def paid_def)

lemma ctx_contract_update [simp]: "ctx_contract (s\<lparr>transfers := tr\<rparr>) = ctx_contract s"
  by (simp add: ctx_contract_def)

lemma withdraw_run:
  assumes "try_decode withdraw_encoder input = Ok c" "holds G s WRAPPED_STORAGE_SLOT" "holds G s CONTRACT_FROZEN_STORAGE_SLOT"
    "holds G s TOTAL_SUPPLY_STORAGE_SLOT" "holds G s (bal_slot keccak (caller_of s))"
    and "T = TOTAL_SUPPLY_STORAGE_SLOT" "f = bal_slot keccak (caller_of s)" "v = withdraw_amount c"
  shows "outcome_is (not_payable s \<and> not_static s \<and> G WRAPPED_STORAGE_SLOT \<noteq> 0 \<and> G CONTRACT_FROZEN_STORAGE_SLOT = 0 \<and>
       v \<le> G f \<and> v \<le> G T)
     ((sys_lookup s)(f \<mapsto> G f - v, T \<mapsto> G T - v)) ([], [Withdrawal_log (caller_of s) v, Transfer_log (caller_of s) 0 v], [(caller_of s, v)]) s (erc20_withdraw_handler keccak input s)"
  using assms by (simp add: erc20_withdraw_handler_def run_simps checked_options log_defs)

section \<open>Pausing\<close>

lemma pause_run:
  assumes "holds G s CONTRACT_FROZEN_STORAGE_SLOT" "holds G s PAUSER_STORAGE_SLOT"
    and "P = slot_address (G PAUSER_STORAGE_SLOT)"
  shows "outcome_is (not_payable s \<and> not_static s \<and> P \<noteq> 0 \<and> G CONTRACT_FROZEN_STORAGE_SLOT = 0 \<and> caller_of s = P)
     ((sys_lookup s)(CONTRACT_FROZEN_STORAGE_SLOT \<mapsto> 1)) (to_be_bytes (1 :: u256), [Paused_log (caller_of s)], []) s (erc20_pause_handler keccak input s)"
  using assms by (simp add: erc20_pause_handler_def run_simps log_defs slot_address_def)

lemma unpause_run:
  assumes "holds G s CONTRACT_FROZEN_STORAGE_SLOT" "holds G s PAUSER_STORAGE_SLOT"
    and "P = slot_address (G PAUSER_STORAGE_SLOT)"
  shows "outcome_is (not_payable s \<and> not_static s \<and> P \<noteq> 0 \<and> G CONTRACT_FROZEN_STORAGE_SLOT \<noteq> 0 \<and> caller_of s = P)
     ((sys_lookup s)(CONTRACT_FROZEN_STORAGE_SLOT \<mapsto> 0)) (to_be_bytes (1 :: u256), [Unpaused_log (caller_of s)], []) s (erc20_unpause_handler keccak input s)"
  using assms by (simp add: erc20_unpause_handler_def run_simps log_defs slot_address_def)

section \<open>Permits\<close>

definition short_string :: "u256 \<Rightarrow> byte list" where
  "short_string w = takeWhile (\<lambda>c. c \<noteq> 0) (to_be_bytes w)"

lemma storage_short_string_hit [simp]:
  "sys_lookup s k = Some w \<Longrightarrow> storage_short_string k s =
     (if valid_utf8 (short_string w) then (Ok (short_string w), touched k s) else (Err MalformedBuiltinParams, touched k s))"
  by (simp add: storage_short_string_def short_string_def Let_def)

text \<open>The digest a permit signs, as a function of the context, the name word and the arguments.\<close>

definition domain_of :: "hash \<Rightarrow> shared_context \<Rightarrow> u256 \<Rightarrow> byte list" where
  "domain_of keccak ctx name =
     keccak (EIP712_DOMAIN_TYPEHASH @ keccak (short_string name) @ EIP2612_VERSION_HASH @
       to_be_bytes (ucast (chain_id (block ctx)) :: u256) @ address_word (contract_address (contract ctx)))"

definition digest_of :: "hash \<Rightarrow> shared_context \<Rightarrow> u256 \<Rightarrow> permit_command \<Rightarrow> u256 \<Rightarrow> byte list" where
  "digest_of keccak ctx name c nonce =
     keccak ([0x19, 0x01] @ domain_of keccak ctx name @
       keccak (EIP2612_PERMIT_TYPEHASH @ address_word (permit_owner c) @ address_word (permit_spender c) @
         to_be_bytes (permit_value c) @ to_be_bytes nonce @ to_be_bytes (permit_deadline c)))"

lemma domain_separator_hit [simp]:
  "sys_lookup s NAME_STORAGE_SLOT = Some w \<Longrightarrow> domain_separator_value keccak s =
     (if valid_utf8 (short_string w) then (Ok (domain_of keccak (sys_context s) w), touched NAME_STORAGE_SLOT s)
      else (Err MalformedBuiltinParams, touched NAME_STORAGE_SLOT s))"
  by (cases "valid_utf8 (short_string w)") (simp_all add: domain_separator_value_def domain_of_def address_word_def)

lemma permit_digest_hit [simp]:
  "sys_lookup s NAME_STORAGE_SLOT = Some w \<Longrightarrow>
   permit_digest keccak (permit_owner c) (permit_spender c) (permit_value c) nonce (permit_deadline c) s =
     (if valid_utf8 (short_string w) then (Ok (digest_of keccak (sys_context s) w c nonce), touched NAME_STORAGE_SLOT s)
      else (Err MalformedBuiltinParams, touched NAME_STORAGE_SLOT s))"
  by (cases "valid_utf8 (short_string w)") (simp_all add: permit_digest_def Let_def digest_of_def address_word_def)

definition permit_signed :: "hash \<Rightarrow> recover \<Rightarrow> shared_context \<Rightarrow> u256 \<Rightarrow> permit_command \<Rightarrow> u256 \<Rightarrow> bool" where
  "permit_signed keccak ecrecover ctx name c nonce =
     (ecrecover_address ecrecover (digest_of keccak ctx name c nonce) (permit_v c) (permit_r c) (permit_s c) =
      Some (permit_owner c))"

lemma permit_run:
  assumes "try_decode permit_encoder input = Ok c" "holds G s NAME_STORAGE_SLOT"
    "holds G s (nonce_slot keccak (permit_owner c))"
    and "n = nonce_slot keccak (permit_owner c)" "a = allow_slot keccak (permit_owner c) (permit_spender c)"
    "now = (ucast (timestamp (block (sys_context s))) :: u256)"
  shows "outcome_is (not_payable s \<and> not_static s \<and> now \<le> permit_deadline c \<and> valid_utf8 (short_string (G NAME_STORAGE_SLOT)) \<and>
       permit_signed keccak ecrecover (sys_context s) (G NAME_STORAGE_SLOT) c (G n) \<and> fits256 (G n) 1)
     ((sys_lookup s)(a \<mapsto> permit_value c, n \<mapsto> G n + 1)) ([], [Approval_log (permit_owner c) (permit_spender c) (permit_value c)], []) s (erc20_permit_handler keccak ecrecover input s)"
proof -
  let ?r = "ecrecover_address ecrecover (digest_of keccak (sys_context s) (G NAME_STORAGE_SLOT) c (G n))
    (permit_v c) (permit_r c) (permit_s c)"
  show ?thesis using assms
    by (cases ?r; cases "valid_utf8 (short_string (G NAME_STORAGE_SLOT))")
      (simp_all add: erc20_permit_handler_def run_simps checked_options log_defs permit_signed_def linorder_not_less [symmetric])
qed

section \<open>Queries\<close>

definition abi_string :: "byte list \<Rightarrow> byte list" where
  "abi_string v = (case encode (string_sol_encoder SolidityABI) v [] 0 of Ok b \<Rightarrow> b | _ \<Rightarrow> [])"

lemma string_encoded: "valid_utf8 v \<Longrightarrow> length v \<le> 32 \<Longrightarrow> \<exists>b. encode (string_sol_encoder SolidityABI) v [] 0 = Ok b"
  using sol_string.top_round_trip [of v] by auto

lemma string_run:
  assumes "holds G s k"
  shows "outcome_is (not_payable s \<and> valid_utf8 (short_string (G k))) (sys_lookup s) (abi_string (short_string (G k)), [], []) s
       (erc20_string_handler k s)"
proof -
  have "length (short_string (G k)) \<le> 32"
    using length_takeWhile_le [of "\<lambda>c. c \<noteq> 0" "to_be_bytes (G k)"] by (simp add: short_string_def)
  then show ?thesis using assms string_encoded [of "short_string (G k)"]
    by (cases "valid_utf8 (short_string (G k))") (auto simp: erc20_string_handler_def run_simps abi_string_def)
qed

lemma word_queries_run:
  "holds G s DECIMALS_STORAGE_SLOT \<Longrightarrow> outcome_is (not_payable s) (sys_lookup s) (to_be_bytes (G DECIMALS_STORAGE_SLOT), [], []) s
       (erc20_decimals_handler input s)"
  "holds G s TOTAL_SUPPLY_STORAGE_SLOT \<Longrightarrow> outcome_is (not_payable s) (sys_lookup s) (to_be_bytes (G TOTAL_SUPPLY_STORAGE_SLOT), [], []) s
       (erc20_total_supply_handler input s)"
  "holds G s (bal_slot keccak (caller_of s)) \<Longrightarrow> outcome_is (not_payable s) (sys_lookup s) (to_be_bytes (G (bal_slot keccak (caller_of s))), [], []) s
       (erc20_balance_handler keccak input s)"
  by (simp_all add: erc20_decimals_handler_def erc20_total_supply_handler_def erc20_balance_handler_def run_simps)

lemma entry_queries_run:
  "try_decode balance_of_encoder input = Ok c1 \<Longrightarrow> holds G s (bal_slot keccak (balance_of_owner c1)) \<Longrightarrow>
     outcome_is (not_payable s) (sys_lookup s) (to_be_bytes (G (bal_slot keccak (balance_of_owner c1))), [], []) s
       (erc20_balance_of_handler keccak input s)"
  "try_decode allowance_encoder input = Ok c2 \<Longrightarrow> holds G s (allow_slot keccak (allowance_owner c2) (allowance_spender c2)) \<Longrightarrow>
     outcome_is (not_payable s) (sys_lookup s) (to_be_bytes (G (allow_slot keccak (allowance_owner c2) (allowance_spender c2))), [], []) s
       (erc20_allowance_handler keccak input s)"
  "try_decode nonces_encoder input = Ok c3 \<Longrightarrow> holds G s (nonce_slot keccak (nonces_owner c3)) \<Longrightarrow>
     outcome_is (not_payable s) (sys_lookup s) (to_be_bytes (G (nonce_slot keccak (nonces_owner c3))), [], []) s
       (erc20_nonces_handler keccak input s)"
  by (simp_all add: erc20_balance_of_handler_def erc20_allowance_handler_def erc20_nonces_handler_def run_simps)

lemma domain_separator_run:
  "holds G s NAME_STORAGE_SLOT \<Longrightarrow>
     outcome_is (not_payable s \<and> valid_utf8 (short_string (G NAME_STORAGE_SLOT))) (sys_lookup s)
       (domain_of keccak (sys_context s) (G NAME_STORAGE_SLOT), [], []) s
       (erc20_domain_separator_handler keccak input s)"
  by (cases "valid_utf8 (short_string (G NAME_STORAGE_SLOT))") (simp_all add: erc20_domain_separator_handler_def run_simps)

end
