(* ===== verification/Token_Spec.thy ===== *)
theory Token_Spec
  imports Token_Run
begin

text \<open>
  The abstract specification of the universal token: a ledger with balances, allowances, nonces and
  roles, and for every call the ledger it leads to, or nothing when it is rejected (\<open>token_spec\<close>), and
  what it answers (\<open>token_reply\<close>). \<open>ledger_of\<close> reads the
  ledger of the accounts in a set \<open>A\<close> off the storage of the token's account; the hash is assumed to
  keep the slots of these accounts apart (\<open>collision_free\<close>). The token implements the
  specification on every call whose slots the host has loaded.
\<close>

section \<open>Ledgers\<close>

record ledger =
  l_balance :: "address \<Rightarrow> u256"
  l_allowance :: "address \<Rightarrow> address \<Rightarrow> u256"
  l_nonce :: "address \<Rightarrow> u256"
  l_supply :: u256
  l_minter :: address
  l_pauser :: address
  l_frozen :: bool
  l_wrapped :: bool
  l_name :: u256
  l_symbol :: u256
  l_decimals :: u256

definition debit :: "address \<Rightarrow> u256 \<Rightarrow> ledger \<Rightarrow> ledger option" where
  "debit a v L =
     (if v \<le> l_balance L a then Some (L\<lparr>l_balance := (l_balance L)(a := l_balance L a - v)\<rparr>) else None)"

definition credit :: "address \<Rightarrow> u256 \<Rightarrow> ledger \<Rightarrow> ledger option" where
  "credit a v L =
     (if fits256 (l_balance L a) v then Some (L\<lparr>l_balance := (l_balance L)(a := l_balance L a + v)\<rparr>) else None)"

definition issue :: "u256 \<Rightarrow> ledger \<Rightarrow> ledger option" where
  "issue v L = (if fits256 (l_supply L) v then Some (L\<lparr>l_supply := l_supply L + v\<rparr>) else None)"

definition redeem :: "u256 \<Rightarrow> ledger \<Rightarrow> ledger option" where
  "redeem v L = (if v \<le> l_supply L then Some (L\<lparr>l_supply := l_supply L - v\<rparr>) else None)"

definition set_allowance :: "address \<Rightarrow> address \<Rightarrow> u256 \<Rightarrow> ledger \<Rightarrow> ledger" where
  "set_allowance owner spender v L =
     L\<lparr>l_allowance := (l_allowance L)(owner := (l_allowance L owner)(spender := v))\<rparr>"

text \<open>An allowance of \<open>2^256 - 1\<close> is unlimited and not used up.\<close>

definition spend :: "address \<Rightarrow> address \<Rightarrow> u256 \<Rightarrow> ledger \<Rightarrow> ledger option" where
  "spend owner spender v L =
     (let a = l_allowance L owner spender
      in if a = - 1 then Some L else if v \<le> a then Some (set_allowance owner spender (a - v) L) else None)"

section \<open>Calls\<close>

datatype token_call =
    Symbol | Name | Decimals | Total_supply | Balance | Domain_separator
  | Balance_of balance_of_command
  | Allowance allowance_command
  | Nonces nonces_command
  | Transfer transfer_command
  | Transfer_from transfer_from_command
  | Approve approve_command
  | Permit permit_command
  | Mint mint_command
  | Burn burn_command
  | Pause | Unpause
  | Deposit
  | Withdraw withdraw_command
  | Unknown

text \<open>The accounts a call reads or changes.\<close>

fun call_accounts :: "address \<Rightarrow> token_call \<Rightarrow> address set" where
  "call_accounts caller (Transfer c) = {caller, transfer_to c}"
| "call_accounts caller (Transfer_from c) = {caller, transfer_from_from c, transfer_from_to c}"
| "call_accounts caller (Approve c) = {caller, approve_spender c}"
| "call_accounts caller (Permit c) = {permit_owner c, permit_spender c}"
| "call_accounts caller (Mint c) = {mint_to c}"
| "call_accounts caller (Burn c) = {burn_from c}"
| "call_accounts caller Deposit = {caller}"
| "call_accounts caller (Withdraw c) = {caller}"
| "call_accounts caller Balance = {caller}"
| "call_accounts caller (Balance_of c) = {balance_of_owner c}"
| "call_accounts caller (Allowance c) = {allowance_owner c, allowance_spender c}"
| "call_accounts caller (Nonces c) = {nonces_owner c}"
| "call_accounts caller _ = {}"

definition guarded :: "bool \<Rightarrow> 'a option \<Rightarrow> 'a option" where
  "guarded b x = (if b then x else None)"

fun token_spec :: "hash \<Rightarrow> recover \<Rightarrow> shared_context \<Rightarrow> token_call \<Rightarrow> ledger \<Rightarrow> ledger option" where
  "token_spec keccak ecrecover ctx (Transfer c) L =
     guarded (contract_value (contract ctx) = 0 \<and> \<not> contract_is_static (contract ctx) \<and> \<not> l_frozen L \<and> transfer_to c \<noteq> 0)
       (Option.bind (debit (contract_caller (contract ctx)) (transfer_amount c) L) (credit (transfer_to c) (transfer_amount c)))"
| "token_spec keccak ecrecover ctx (Transfer_from c) L =
     guarded (contract_value (contract ctx) = 0 \<and> \<not> contract_is_static (contract ctx) \<and> \<not> l_frozen L \<and> transfer_from_to c \<noteq> 0)
       (Option.bind (spend (transfer_from_from c) (contract_caller (contract ctx)) (transfer_from_amount c) L) (\<lambda>L1.
        Option.bind (debit (transfer_from_from c) (transfer_from_amount c) L1)
          (credit (transfer_from_to c) (transfer_from_amount c))))"
| "token_spec keccak ecrecover ctx (Approve c) L =
     guarded (contract_value (contract ctx) = 0 \<and> \<not> contract_is_static (contract ctx))
       (Some (set_allowance (contract_caller (contract ctx)) (approve_spender c) (approve_amount c) L))"
| "token_spec keccak ecrecover ctx (Permit c) L =
     guarded (contract_value (contract ctx) = 0 \<and> \<not> contract_is_static (contract ctx) \<and>
          ucast (timestamp (block ctx)) \<le> permit_deadline c \<and> valid_utf8 (short_string (l_name L)) \<and>
          permit_signed keccak ecrecover ctx (l_name L) c (l_nonce L (permit_owner c)) \<and>
          fits256 (l_nonce L (permit_owner c)) 1)
       (Some ((set_allowance (permit_owner c) (permit_spender c) (permit_value c) L)
          \<lparr>l_nonce := (l_nonce L)(permit_owner c := l_nonce L (permit_owner c) + 1)\<rparr>))"
| "token_spec keccak ecrecover ctx (Mint c) L =
     guarded (contract_value (contract ctx) = 0 \<and> \<not> contract_is_static (contract ctx) \<and> l_minter L \<noteq> 0 \<and>
          contract_caller (contract ctx) = l_minter L \<and> \<not> l_frozen L \<and> mint_to c \<noteq> 0)
       (Option.bind (issue (mint_amount c) L) (credit (mint_to c) (mint_amount c)))"
| "token_spec keccak ecrecover ctx (Burn c) L =
     guarded (contract_value (contract ctx) = 0 \<and> \<not> contract_is_static (contract ctx) \<and> \<not> l_frozen L \<and> l_minter L \<noteq> 0 \<and>
          burn_from c \<noteq> 0 \<and> contract_caller (contract ctx) = l_minter L)
       (Option.bind (redeem (burn_amount c) L) (debit (burn_from c) (burn_amount c)))"
| "token_spec keccak ecrecover ctx Pause L =
     guarded (contract_value (contract ctx) = 0 \<and> \<not> contract_is_static (contract ctx) \<and> l_pauser L \<noteq> 0 \<and> \<not> l_frozen L \<and>
          contract_caller (contract ctx) = l_pauser L)
       (Some (L\<lparr>l_frozen := True\<rparr>))"
| "token_spec keccak ecrecover ctx Unpause L =
     guarded (contract_value (contract ctx) = 0 \<and> \<not> contract_is_static (contract ctx) \<and> l_pauser L \<noteq> 0 \<and> l_frozen L \<and>
          contract_caller (contract ctx) = l_pauser L)
       (Some (L\<lparr>l_frozen := False\<rparr>))"
| "token_spec keccak ecrecover ctx Deposit L =
     guarded (\<not> contract_is_static (contract ctx) \<and> l_wrapped L \<and> \<not> l_frozen L \<and> contract_caller (contract ctx) \<noteq> 0)
       (Option.bind (credit (contract_caller (contract ctx)) (contract_value (contract ctx)) L)
          (issue (contract_value (contract ctx))))"
| "token_spec keccak ecrecover ctx (Withdraw c) L =
     guarded (contract_value (contract ctx) = 0 \<and> \<not> contract_is_static (contract ctx) \<and> l_wrapped L \<and> \<not> l_frozen L)
       (Option.bind (debit (contract_caller (contract ctx)) (withdraw_amount c) L) (redeem (withdraw_amount c)))"
| "token_spec keccak ecrecover ctx Symbol L =
     guarded (contract_value (contract ctx) = 0 \<and> valid_utf8 (short_string (l_symbol L))) (Some L)"
| "token_spec keccak ecrecover ctx Name L =
     guarded (contract_value (contract ctx) = 0 \<and> valid_utf8 (short_string (l_name L))) (Some L)"
| "token_spec keccak ecrecover ctx Domain_separator L =
     guarded (contract_value (contract ctx) = 0 \<and> valid_utf8 (short_string (l_name L))) (Some L)"
| "token_spec keccak ecrecover ctx Unknown L = None"
| "token_spec keccak ecrecover ctx _ L = guarded (contract_value (contract ctx) = 0) (Some L)"

text \<open>
  The answer to an accepted call: the output, the events, and the native value to be paid out. The
  calls that wrap and unwrap native value and \<open>permit\<close> answer nothing, the other commands \<open>true\<close>.
\<close>

abbreviation answer :: "u256 \<Rightarrow> journal_log list \<Rightarrow> reply" where
  "answer v evs \<equiv> (to_be_bytes v, evs, [])"

fun token_reply :: "hash \<Rightarrow> shared_context \<Rightarrow> token_call \<Rightarrow> ledger \<Rightarrow> reply" where
  "token_reply keccak ctx (Transfer c) L =
     answer 1 [Transfer_log (contract_caller (contract ctx)) (transfer_to c) (transfer_amount c)]"
| "token_reply keccak ctx (Transfer_from c) L =
     answer 1 [Transfer_log (transfer_from_from c) (transfer_from_to c) (transfer_from_amount c)]"
| "token_reply keccak ctx (Approve c) L =
     answer 1 [Approval_log (contract_caller (contract ctx)) (approve_spender c) (approve_amount c)]"
| "token_reply keccak ctx (Permit c) L = ([], [Approval_log (permit_owner c) (permit_spender c) (permit_value c)], [])"
| "token_reply keccak ctx (Mint c) L = answer 1 [Transfer_log 0 (mint_to c) (mint_amount c)]"
| "token_reply keccak ctx (Burn c) L = answer 1 [Transfer_log (burn_from c) 0 (burn_amount c)]"
| "token_reply keccak ctx Pause L = answer 1 [Paused_log (contract_caller (contract ctx))]"
| "token_reply keccak ctx Unpause L = answer 1 [Unpaused_log (contract_caller (contract ctx))]"
| "token_reply keccak ctx Deposit L =
     (let a = contract_caller (contract ctx); v = contract_value (contract ctx)
      in ([], [Deposit_log a v, Transfer_log 0 a v], []))"
| "token_reply keccak ctx (Withdraw c) L =
     (let a = contract_caller (contract ctx); v = withdraw_amount c
      in ([], [Withdrawal_log a v, Transfer_log a 0 v], [(a, v)]))"
| "token_reply keccak ctx Symbol L = (abi_string (short_string (l_symbol L)), [], [])"
| "token_reply keccak ctx Name L = (abi_string (short_string (l_name L)), [], [])"
| "token_reply keccak ctx Decimals L = answer (l_decimals L) []"
| "token_reply keccak ctx Total_supply L = answer (l_supply L) []"
| "token_reply keccak ctx Balance L = answer (l_balance L (contract_caller (contract ctx))) []"
| "token_reply keccak ctx (Balance_of c) L = answer (l_balance L (balance_of_owner c)) []"
| "token_reply keccak ctx (Allowance c) L = answer (l_allowance L (allowance_owner c) (allowance_spender c)) []"
| "token_reply keccak ctx (Nonces c) L = answer (l_nonce L (nonces_owner c)) []"
| "token_reply keccak ctx Domain_separator L = (domain_of keccak ctx (l_name L), [], [])"
| "token_reply keccak ctx Unknown L = ([], [], [])"

section \<open>The ledger in storage\<close>

datatype cell =
    Supply_cell | Minter_cell | Pauser_cell | Frozen_cell | Wrapped_cell | Name_cell | Symbol_cell | Decimals_cell
  | Balance_cell address | Allowance_cell address address | Nonce_cell address

fun cell_slot :: "hash \<Rightarrow> cell \<Rightarrow> u256" where
  "cell_slot keccak Supply_cell = TOTAL_SUPPLY_STORAGE_SLOT"
| "cell_slot keccak Minter_cell = MINTER_STORAGE_SLOT"
| "cell_slot keccak Pauser_cell = PAUSER_STORAGE_SLOT"
| "cell_slot keccak Frozen_cell = CONTRACT_FROZEN_STORAGE_SLOT"
| "cell_slot keccak Wrapped_cell = WRAPPED_STORAGE_SLOT"
| "cell_slot keccak Name_cell = NAME_STORAGE_SLOT"
| "cell_slot keccak Symbol_cell = SYMBOL_STORAGE_SLOT"
| "cell_slot keccak Decimals_cell = DECIMALS_STORAGE_SLOT"
| "cell_slot keccak (Balance_cell a) = bal_slot keccak a"
| "cell_slot keccak (Allowance_cell a b) = allow_slot keccak a b"
| "cell_slot keccak (Nonce_cell a) = nonce_slot keccak a"

fun cell_of :: "address set \<Rightarrow> cell \<Rightarrow> bool" where
  "cell_of A (Balance_cell a) = (a \<in> A)"
| "cell_of A (Allowance_cell a b) = (a \<in> A \<and> b \<in> A)"
| "cell_of A (Nonce_cell a) = (a \<in> A)"
| "cell_of A _ = True"

text \<open>
  No two cells of the accounts share a slot. For a set of all addresses this is impossible, since
  there are more pairs of addresses than slots; for the accounts that take part it is what the
  collision resistance of the hash stands for.
\<close>

definition collision_free :: "hash \<Rightarrow> address set \<Rightarrow> bool" where
  "collision_free keccak A = inj_on (cell_slot keccak) (Collect (cell_of A))"

definition ledger_of :: "hash \<Rightarrow> address set \<Rightarrow> (u256 \<Rightarrow> u256) \<Rightarrow> ledger" where
  "ledger_of keccak A G =
     \<lparr>l_balance = (\<lambda>a. if a \<in> A then G (bal_slot keccak a) else 0),
      l_allowance = (\<lambda>a b. if a \<in> A \<and> b \<in> A then G (allow_slot keccak a b) else 0),
      l_nonce = (\<lambda>a. if a \<in> A then G (nonce_slot keccak a) else 0),
      l_supply = G TOTAL_SUPPLY_STORAGE_SLOT,
      l_minter = slot_address (G MINTER_STORAGE_SLOT), l_pauser = slot_address (G PAUSER_STORAGE_SLOT),
      l_frozen = (G CONTRACT_FROZEN_STORAGE_SLOT \<noteq> 0), l_wrapped = (G WRAPPED_STORAGE_SLOT \<noteq> 0),
      l_name = G NAME_STORAGE_SLOT, l_symbol = G SYMBOL_STORAGE_SLOT,
      l_decimals = G DECIMALS_STORAGE_SLOT\<rparr>"

end
