(* ===== verification/Token_Refine.thy ===== *)
theory Token_Refine
  imports Token_Spec
begin

text \<open>
  The token refines its specification: the slots of different cells are apart, an update of a slot is
  an update of the ledger, and every handler, run on a frame whose slots are loaded, does to the
  storage what the specification does to the ledger.
\<close>

section \<open>Slots apart\<close>

definition fixed_slots :: "u256 list" where
  "fixed_slots = [TOTAL_SUPPLY_STORAGE_SLOT, MINTER_STORAGE_SLOT, PAUSER_STORAGE_SLOT, CONTRACT_FROZEN_STORAGE_SLOT,
     WRAPPED_STORAGE_SLOT, NAME_STORAGE_SLOT, SYMBOL_STORAGE_SLOT, DECIMALS_STORAGE_SLOT]"

lemma cell_eq:
  assumes "collision_free keccak A" "cell_of A c" "cell_of A d"
  shows "(cell_slot keccak c = cell_slot keccak d) = (c = d)"
  using assms by (auto simp: collision_free_def inj_on_def)

lemma map_slot_eqs:
  assumes cf: "collision_free keccak A"
  shows "a \<in> A \<Longrightarrow> b \<in> A \<Longrightarrow> (bal_slot keccak a = bal_slot keccak b) = (a = b)"
    "a \<in> A \<Longrightarrow> b \<in> A \<Longrightarrow> (nonce_slot keccak a = nonce_slot keccak b) = (a = b)"
    "a \<in> A \<Longrightarrow> b \<in> A \<Longrightarrow> c \<in> A \<Longrightarrow> d \<in> A \<Longrightarrow> (allow_slot keccak a b = allow_slot keccak c d) = (a = c \<and> b = d)"
    "a \<in> A \<Longrightarrow> b \<in> A \<Longrightarrow> bal_slot keccak a \<noteq> nonce_slot keccak b"
    "a \<in> A \<Longrightarrow> b \<in> A \<Longrightarrow> nonce_slot keccak b \<noteq> bal_slot keccak a"
    "a \<in> A \<Longrightarrow> c \<in> A \<Longrightarrow> d \<in> A \<Longrightarrow> bal_slot keccak a \<noteq> allow_slot keccak c d"
    "a \<in> A \<Longrightarrow> c \<in> A \<Longrightarrow> d \<in> A \<Longrightarrow> allow_slot keccak c d \<noteq> bal_slot keccak a"
    "a \<in> A \<Longrightarrow> c \<in> A \<Longrightarrow> d \<in> A \<Longrightarrow> nonce_slot keccak a \<noteq> allow_slot keccak c d"
    "a \<in> A \<Longrightarrow> c \<in> A \<Longrightarrow> d \<in> A \<Longrightarrow> allow_slot keccak c d \<noteq> nonce_slot keccak a"
  using cell_eq [OF cf, of "Balance_cell a" "Balance_cell b"] cell_eq [OF cf, of "Nonce_cell a" "Nonce_cell b"]
    cell_eq [OF cf, of "Allowance_cell a b" "Allowance_cell c d"] cell_eq [OF cf, of "Balance_cell a" "Nonce_cell b"]
    cell_eq [OF cf, of "Balance_cell a" "Allowance_cell c d"] cell_eq [OF cf, of "Nonce_cell a" "Allowance_cell c d"]
  by auto

lemma fixed_slot_eqs:
  assumes cf: "collision_free keccak A" and A: "a \<in> A" "b \<in> A" and k: "k \<in> set fixed_slots"
  shows "bal_slot keccak a \<noteq> k \<and> k \<noteq> bal_slot keccak a" "nonce_slot keccak a \<noteq> k \<and> k \<noteq> nonce_slot keccak a"
    "allow_slot keccak a b \<noteq> k \<and> k \<noteq> allow_slot keccak a b"
proof -
  have "k \<in> cell_slot keccak ` {Supply_cell, Minter_cell, Pauser_cell, Frozen_cell, Wrapped_cell, Name_cell, Symbol_cell, Decimals_cell}"
    using k by (auto simp: fixed_slots_def)
  then obtain c where c: "k = cell_slot keccak c"
    "c \<in> {Supply_cell, Minter_cell, Pauser_cell, Frozen_cell, Wrapped_cell, Name_cell, Symbol_cell, Decimals_cell}" by blast
  then have o: "cell_of A c" and n: "c \<noteq> Balance_cell a" "c \<noteq> Nonce_cell a" "c \<noteq> Allowance_cell a b" by auto
  show "bal_slot keccak a \<noteq> k \<and> k \<noteq> bal_slot keccak a"
    using cell_eq [OF cf o, of "Balance_cell a"] A n(1) c(1) by (simp add: eq_commute)
  show "nonce_slot keccak a \<noteq> k \<and> k \<noteq> nonce_slot keccak a"
    using cell_eq [OF cf o, of "Nonce_cell a"] A n(2) c(1) by (simp add: eq_commute)
  show "allow_slot keccak a b \<noteq> k \<and> k \<noteq> allow_slot keccak a b"
    using cell_eq [OF cf o, of "Allowance_cell a b"] A n(3) c(1) by (simp add: eq_commute)
qed

lemma fixed_distinct:
  "distinct fixed_slots"
  by (simp add: fixed_slots_def token_neqs)

section \<open>Updates of the ledger\<close>

lemmas ledger_sel [simp] = ledger_of_def [THEN arg_cong [where f = l_supply], simplified]
  ledger_of_def [THEN arg_cong [where f = l_minter], simplified]
  ledger_of_def [THEN arg_cong [where f = l_pauser], simplified]
  ledger_of_def [THEN arg_cong [where f = l_frozen], simplified]
  ledger_of_def [THEN arg_cong [where f = l_wrapped], simplified]
  ledger_of_def [THEN arg_cong [where f = l_name], simplified]
  ledger_of_def [THEN arg_cong [where f = l_symbol], simplified]
  ledger_of_def [THEN arg_cong [where f = l_decimals], simplified]

lemma ledger_maps [simp]:
  "a \<in> A \<Longrightarrow> l_balance (ledger_of keccak A G) a = G (bal_slot keccak a)"
  "a \<in> A \<Longrightarrow> l_nonce (ledger_of keccak A G) a = G (nonce_slot keccak a)"
  "a \<in> A \<Longrightarrow> b \<in> A \<Longrightarrow> l_allowance (ledger_of keccak A G) a b = G (allow_slot keccak a b)"
  by (simp_all add: ledger_of_def)

lemma ledger_update_balance:
  assumes "collision_free keccak A" "a \<in> A"
  shows "ledger_of keccak A (G(bal_slot keccak a := v)) =
    (ledger_of keccak A G)\<lparr>l_balance := (l_balance (ledger_of keccak A G))(a := v)\<rparr>"
  using assms map_slot_eqs [OF assms(1)] fixed_slot_eqs(1) [OF assms assms(2)]
  by (auto simp: ledger_of_def fun_eq_iff fixed_slots_def)

lemma ledger_update_nonce:
  assumes "collision_free keccak A" "a \<in> A"
  shows "ledger_of keccak A (G(nonce_slot keccak a := v)) =
    (ledger_of keccak A G)\<lparr>l_nonce := (l_nonce (ledger_of keccak A G))(a := v)\<rparr>"
  using assms map_slot_eqs [OF assms(1)] fixed_slot_eqs(2) [OF assms assms(2)]
  by (auto simp: ledger_of_def fun_eq_iff fixed_slots_def)

lemma ledger_update_allowance:
  assumes "collision_free keccak A" "a \<in> A" "b \<in> A"
  shows "ledger_of keccak A (G(allow_slot keccak a b := v)) = set_allowance a b v (ledger_of keccak A G)"
  using assms map_slot_eqs [OF assms(1)] fixed_slot_eqs(3) [OF assms]
  by (auto simp: ledger_of_def fun_eq_iff fixed_slots_def set_allowance_def)

lemma ledger_update_fixed:
  assumes "collision_free keccak A"
  shows "ledger_of keccak A (G(TOTAL_SUPPLY_STORAGE_SLOT := v)) = (ledger_of keccak A G)\<lparr>l_supply := v\<rparr>"
    "ledger_of keccak A (G(CONTRACT_FROZEN_STORAGE_SLOT := v)) = (ledger_of keccak A G)\<lparr>l_frozen := v \<noteq> 0\<rparr>"
  using fixed_slot_eqs(1) [OF assms] fixed_slot_eqs(2) [OF assms] fixed_slot_eqs(3) [OF assms] fixed_distinct
  by (auto simp: ledger_of_def fun_eq_iff fixed_slots_def)

lemmas ledger_updates = ledger_update_balance ledger_update_nonce ledger_update_allowance ledger_update_fixed

section \<open>Handlers\<close>

text \<open>What the account's storage becomes when the slots of a frame are written back.\<close>

definition commit :: "(u256 \<Rightarrow> u256) \<Rightarrow> (u256 \<rightharpoonup> u256) \<Rightarrow> u256 \<Rightarrow> u256" where
  "commit G m k = (case m k of Some v \<Rightarrow> v | None \<Rightarrow> G k)"

lemma commit_update [simp]: "commit G (m(k \<mapsto> v)) = (commit G m)(k := v)"
  by (simp add: commit_def fun_eq_iff)

abbreviation loaded_from :: "(u256 \<Rightarrow> u256) \<Rightarrow> system_context \<Rightarrow> bool" where
  "loaded_from G s \<equiv> \<forall>k v. sys_lookup s k = Some v \<longrightarrow> v = G k"

lemma commit_loaded: "loaded_from G s \<Longrightarrow> commit G (sys_lookup s) = G"
  by (auto simp: commit_def fun_eq_iff split: option.splits)

definition refines_call ::
  "hash \<Rightarrow> address set \<Rightarrow> (u256 \<Rightarrow> u256) \<Rightarrow> system_context \<Rightarrow> ledger option \<Rightarrow> reply \<Rightarrow>
   (exit_code, u32) outcome \<times> system_context \<Rightarrow> bool" where
  "refines_call keccak A G s L R p =
     (snap (snd p) = snap s \<and>
      (case fst p of
         Ok c \<Rightarrow> if c = 0 then L = Some (ledger_of keccak A (commit G (sys_lookup (snd p)))) \<and> replies R s (snd p) else L = None
       | Err e \<Rightarrow> L = None \<and> e \<noteq> MissingStorageSlot
       | Panic \<Rightarrow> False))"

lemma refines_callI:
  assumes "outcome_is C m R s p" "R = R'" "L = (if C then Some (ledger_of keccak A (commit G m)) else None)"
  shows "refines_call keccak A G s L R' p"
  using assms by (auto simp: refines_call_def outcome_is_def split: outcome.splits if_splits)

lemma not_max: "(a < - 1) = (a \<noteq> - 1)" for a :: "'a::len word"
  using word_order.not_eq_extremum by auto

lemmas spec_steps = guarded_def debit_def credit_def issue_def redeem_def spend_def Let_def ctx_contract_def

lemma transfer_refines:
  assumes "collision_free keccak A" "loaded_from G s" "try_decode transfer_encoder input = Ok c"
    "call_accounts (caller_of s) (Transfer c) \<subseteq> A"
    and "holds G s CONTRACT_FROZEN_STORAGE_SLOT" "holds G s (bal_slot keccak (caller_of s))"
    "holds G s (bal_slot keccak (transfer_to c))"
  shows "refines_call keccak A G s (token_spec keccak ecrecover (sys_context s) (Transfer c) (ledger_of keccak A G))
       (token_reply keccak (sys_context s) (Transfer c) (ledger_of keccak A G))
     (erc20_transfer_handler keccak input s)"
  by (rule refines_callI, rule transfer_run [where G = G, OF assms(3,5-7) refl refl refl refl], simp add: ctx_contract_def Let_def)
    (use assms(1,4) commit_loaded [OF assms(2)] in \<open>simp add: spec_steps ledger_updates map_slot_eqs\<close>)

lemma transfer_from_refines:
  assumes "collision_free keccak A" "loaded_from G s" "try_decode transfer_from_encoder input = Ok c"
    "call_accounts (caller_of s) (Transfer_from c) \<subseteq> A"
    and "holds G s CONTRACT_FROZEN_STORAGE_SLOT" "holds G s (bal_slot keccak (transfer_from_from c))"
    "holds G s (bal_slot keccak (transfer_from_to c))" "holds G s (allow_slot keccak (transfer_from_from c) (caller_of s))"
  shows "refines_call keccak A G s (token_spec keccak ecrecover (sys_context s) (Transfer_from c) (ledger_of keccak A G))
       (token_reply keccak (sys_context s) (Transfer_from c) (ledger_of keccak A G))
     (erc20_transfer_from_handler keccak input s)"
  by (rule refines_callI, rule transfer_from_run [where G = G, OF assms(3,5-8) refl refl refl refl refl refl], simp add: ctx_contract_def Let_def)
    (use assms(1,4) commit_loaded [OF assms(2)] in \<open>simp add: spec_steps ledger_updates map_slot_eqs not_max set_allowance_def\<close>)

lemma approve_refines:
  assumes "collision_free keccak A" "loaded_from G s" "try_decode approve_encoder input = Ok c"
    "call_accounts (caller_of s) (Approve c) \<subseteq> A"
  shows "refines_call keccak A G s (token_spec keccak ecrecover (sys_context s) (Approve c) (ledger_of keccak A G))
       (token_reply keccak (sys_context s) (Approve c) (ledger_of keccak A G))
     (erc20_approve_handler keccak input s)"
  by (rule refines_callI, rule approve_run [OF assms(3)], simp add: ctx_contract_def Let_def)
    (use assms(1,4) commit_loaded [OF assms(2)] in \<open>simp add: spec_steps ledger_updates\<close>)

lemma permit_refines:
  assumes "collision_free keccak A" "loaded_from G s" "try_decode permit_encoder input = Ok c"
    "call_accounts (caller_of s) (Permit c) \<subseteq> A"
    and "holds G s NAME_STORAGE_SLOT" "holds G s (nonce_slot keccak (permit_owner c))"
  shows "refines_call keccak A G s (token_spec keccak ecrecover (sys_context s) (Permit c) (ledger_of keccak A G))
       (token_reply keccak (sys_context s) (Permit c) (ledger_of keccak A G))
     (erc20_permit_handler keccak ecrecover input s)"
  by (rule refines_callI, rule permit_run [where G = G, OF assms(3,5,6) refl refl refl], simp add: ctx_contract_def Let_def)
    (use assms(1,4) commit_loaded [OF assms(2)] in \<open>simp add: spec_steps ledger_updates map_slot_eqs set_allowance_def\<close>)

lemma mint_refines:
  assumes "collision_free keccak A" "loaded_from G s" "try_decode mint_encoder input = Ok c"
    "call_accounts (caller_of s) (Mint c) \<subseteq> A"
    and "holds G s CONTRACT_FROZEN_STORAGE_SLOT" "holds G s MINTER_STORAGE_SLOT" "holds G s TOTAL_SUPPLY_STORAGE_SLOT"
    "holds G s (bal_slot keccak (mint_to c))"
  shows "refines_call keccak A G s (token_spec keccak ecrecover (sys_context s) (Mint c) (ledger_of keccak A G))
       (token_reply keccak (sys_context s) (Mint c) (ledger_of keccak A G))
     (erc20_mint_handler keccak input s)"
  by (rule refines_callI, rule mint_run [where G = G, OF assms(3,5-8) refl refl refl refl], simp add: ctx_contract_def Let_def)
    (use assms(1,4) commit_loaded [OF assms(2)] in \<open>simp add: spec_steps ledger_updates map_slot_eqs\<close>)

lemma burn_refines:
  assumes "collision_free keccak A" "loaded_from G s" "try_decode burn_encoder input = Ok c"
    "call_accounts (caller_of s) (Burn c) \<subseteq> A"
    and "holds G s CONTRACT_FROZEN_STORAGE_SLOT" "holds G s MINTER_STORAGE_SLOT" "holds G s TOTAL_SUPPLY_STORAGE_SLOT"
    "holds G s (bal_slot keccak (burn_from c))"
  shows "refines_call keccak A G s (token_spec keccak ecrecover (sys_context s) (Burn c) (ledger_of keccak A G))
       (token_reply keccak (sys_context s) (Burn c) (ledger_of keccak A G))
     (erc20_burn_handler keccak input s)"
  by (rule refines_callI, rule burn_run [where G = G, OF assms(3,5-8) refl refl refl refl], simp add: ctx_contract_def Let_def)
    (use assms(1,4) commit_loaded [OF assms(2)] in \<open>simp add: spec_steps ledger_updates map_slot_eqs\<close>)

lemma deposit_refines:
  assumes "collision_free keccak A" "loaded_from G s" "call_accounts (caller_of s) Deposit \<subseteq> A"
    and "holds G s WRAPPED_STORAGE_SLOT" "holds G s CONTRACT_FROZEN_STORAGE_SLOT" "holds G s TOTAL_SUPPLY_STORAGE_SLOT"
    "holds G s (bal_slot keccak (caller_of s))"
  shows "refines_call keccak A G s (token_spec keccak ecrecover (sys_context s) Deposit (ledger_of keccak A G))
       (token_reply keccak (sys_context s) Deposit (ledger_of keccak A G))
     (erc20_deposit_handler keccak input s)"
  by (rule refines_callI, rule deposit_run [where G = G, OF assms(4-7) refl refl refl], simp add: ctx_contract_def Let_def)
    (use assms(1,3) commit_loaded [OF assms(2)] in \<open>simp add: spec_steps ledger_updates map_slot_eqs\<close>)

lemma withdraw_refines:
  assumes "collision_free keccak A" "loaded_from G s" "try_decode withdraw_encoder input = Ok c"
    "call_accounts (caller_of s) (Withdraw c) \<subseteq> A"
    and "holds G s WRAPPED_STORAGE_SLOT" "holds G s CONTRACT_FROZEN_STORAGE_SLOT" "holds G s TOTAL_SUPPLY_STORAGE_SLOT"
    "holds G s (bal_slot keccak (caller_of s))"
  shows "refines_call keccak A G s (token_spec keccak ecrecover (sys_context s) (Withdraw c) (ledger_of keccak A G))
       (token_reply keccak (sys_context s) (Withdraw c) (ledger_of keccak A G))
     (erc20_withdraw_handler keccak input s)"
  by (rule refines_callI, rule withdraw_run [where G = G, OF assms(3,5-8) refl refl refl], simp add: ctx_contract_def Let_def)
    (use assms(1,4) commit_loaded [OF assms(2)] in \<open>simp add: spec_steps ledger_updates map_slot_eqs\<close>)

lemma pause_refines:
  assumes "collision_free keccak A" "loaded_from G s" "holds G s CONTRACT_FROZEN_STORAGE_SLOT" "holds G s PAUSER_STORAGE_SLOT"
  shows "refines_call keccak A G s (token_spec keccak ecrecover (sys_context s) Pause (ledger_of keccak A G))
       (token_reply keccak (sys_context s) Pause (ledger_of keccak A G))
       (erc20_pause_handler keccak input s)"
    "refines_call keccak A G s (token_spec keccak ecrecover (sys_context s) Unpause (ledger_of keccak A G))
       (token_reply keccak (sys_context s) Unpause (ledger_of keccak A G))
       (erc20_unpause_handler keccak input s)"
  by (rule refines_callI, rule pause_run [where G = G, OF assms(3,4) refl], simp add: ctx_contract_def, use assms(1) commit_loaded [OF assms(2)] in \<open>simp add: spec_steps ledger_updates\<close>,
      rule refines_callI, rule unpause_run [where G = G, OF assms(3,4) refl], simp add: ctx_contract_def, use assms(1) commit_loaded [OF assms(2)] in \<open>simp add: spec_steps ledger_updates\<close>)

section \<open>Dispatch\<close>

text \<open>The call an input stands for; \<open>None\<close> when its arguments are malformed.\<close>

definition parse_call :: "nat \<Rightarrow> u32 \<Rightarrow> byte list \<Rightarrow> token_call option" where
  "parse_call metadata_len sig input =
     (if sig = SIG_ERC20_SYMBOL then Some Symbol
      else if sig = SIG_ERC20_NAME then Some Name
      else if sig = SIG_ERC20_TRANSFER then map_option Transfer (oc_ok (try_decode transfer_encoder input))
      else if sig = SIG_ERC20_TRANSFER_FROM then map_option Transfer_from (oc_ok (try_decode transfer_from_encoder input))
      else if sig = SIG_ERC20_APPROVE then map_option Approve (oc_ok (try_decode approve_encoder input))
      else if sig = SIG_ERC20_DECIMALS then Some Decimals
      else if sig = SIG_ERC20_ALLOWANCE then map_option Allowance (oc_ok (try_decode allowance_encoder input))
      else if sig = SIG_ERC20_TOTAL_SUPPLY then Some Total_supply
      else if sig = SIG_ERC20_BALANCE then Some Balance
      else if sig = SIG_ERC20_BALANCE_OF then map_option Balance_of (oc_ok (try_decode balance_of_encoder input))
      else if sig = SIG_ERC20_MINT then map_option Mint (oc_ok (try_decode mint_encoder input))
      else if sig = SIG_ERC20_BURN then map_option Burn (oc_ok (try_decode burn_encoder input))
      else if sig = SIG_ERC20_PAUSE then Some Pause
      else if sig = SIG_ERC20_UNPAUSE then Some Unpause
      else if sig = SIG_ERC20_PERMIT then map_option Permit (oc_ok (try_decode permit_encoder input))
      else if sig = SIG_ERC20_NONCES then map_option Nonces (oc_ok (try_decode nonces_encoder input))
      else if sig = SIG_ERC20_DOMAIN_SEPARATOR then Some Domain_separator
      else if sig = SIG_ERC20_DEPOSIT \<and> metadata_len \<ge> INITIAL_SETTINGS_V2_SIZE then Some Deposit
      else if sig = SIG_ERC20_WITHDRAW \<and> metadata_len \<ge> INITIAL_SETTINGS_V2_SIZE
      then map_option Withdraw (oc_ok (try_decode withdraw_encoder input))
      else Some Unknown)"

lemma oc_ok_eq: "(oc_ok x = Some a) = (x = Ok a)"
  by (cases x) (simp_all add: oc_ok_def)

text \<open>The keys the host loads: \<open>unwrap_or_default\<close> of what the token computes.\<close>

definition loaded_keys :: "(unit, u256 list) outcome \<Rightarrow> u256 list" where
  "loaded_keys r = (case r of Ok K \<Rightarrow> K | _ \<Rightarrow> [])"

lemma loaded_keys_Ok [simp]: "loaded_keys (Ok K) = K"
  by (simp add: loaded_keys_def)

text \<open>
  \<open>call_refines\<close> relates a parsed call and the handler it is dispatched to; both functions branch on
  the selector in the same way, so they are related branch by branch.
\<close>

definition call_refines ::
  "hash \<Rightarrow> recover \<Rightarrow> address set \<Rightarrow> (u256 \<Rightarrow> u256) \<Rightarrow> system_context \<Rightarrow> token_call option \<Rightarrow> handler \<Rightarrow> bool" where
  "call_refines keccak ecrecover A G s call h =
     (\<forall>c. call = Some c \<longrightarrow> call_accounts (caller_of s) c \<subseteq> A \<longrightarrow>
        refines_call keccak A G s (token_spec keccak ecrecover (sys_context s) c (ledger_of keccak A G))
       (token_reply keccak (sys_context s) c (ledger_of keccak A G)) (h s))"

lemma call_refines_if:
  "(b \<Longrightarrow> call_refines keccak ecrecover A G s c h) \<Longrightarrow> (\<not> b \<Longrightarrow> call_refines keccak ecrecover A G s d k) \<Longrightarrow>
   call_refines keccak ecrecover A G s (if b then c else d) (if b then h else k)"
  by simp

lemma call_refines_Some:
  "(call_accounts (caller_of s) c \<subseteq> A \<Longrightarrow>
      refines_call keccak A G s (token_spec keccak ecrecover (sys_context s) c (ledger_of keccak A G))
       (token_reply keccak (sys_context s) c (ledger_of keccak A G)) (h s)) \<Longrightarrow>
   call_refines keccak ecrecover A G s (Some c) h"
  by (simp add: call_refines_def)

lemma call_refines_decode:
  "(\<And>c. r = Ok c \<Longrightarrow> call_accounts (caller_of s) (C c) \<subseteq> A \<Longrightarrow>
      refines_call keccak A G s (token_spec keccak ecrecover (sys_context s) (C c) (ledger_of keccak A G))
       (token_reply keccak (sys_context s) (C c) (ledger_of keccak A G)) (h s)) \<Longrightarrow>
   call_refines keccak ecrecover A G s (map_option C (oc_ok r)) h"
  by (cases r) (auto simp: call_refines_def oc_ok_def)

lemma query_refines:
  assumes "outcome_is C (sys_lookup s) R s p" "loaded_from G s"
    "R = token_reply keccak (sys_context s) c (ledger_of keccak A G)"
    "token_spec keccak ecrecover (sys_context s) c (ledger_of keccak A G) = guarded C (Some (ledger_of keccak A G))"
  shows "refines_call keccak A G s (token_spec keccak ecrecover (sys_context s) c (ledger_of keccak A G))
       (token_reply keccak (sys_context s) c (ledger_of keccak A G)) p"
  by (rule refines_callI [OF assms(1,3)]) (simp add: assms(4) guarded_def commit_loaded [OF assms(2)])

lemmas key_simps = main_storage_keys_of_def decoded_keys_def token_neqs Let_def

lemma word_query_branches:
  assumes cf: "collision_free keccak A" and G: "loaded_from G s"
    and K: "\<forall>k\<in>set (loaded_keys (main_storage_keys_of keccak sig input (caller_of s))). holds G s k"
  shows "sig = SIG_ERC20_SYMBOL \<Longrightarrow> call_refines keccak ecrecover A G s (Some Symbol) (erc20_symbol_handler input)"
    "sig = SIG_ERC20_NAME \<Longrightarrow> call_refines keccak ecrecover A G s (Some Name) (erc20_name_handler input)"
    "sig = SIG_ERC20_DECIMALS \<Longrightarrow> call_refines keccak ecrecover A G s (Some Decimals) (erc20_decimals_handler input)"
    "sig = SIG_ERC20_TOTAL_SUPPLY \<Longrightarrow> call_refines keccak ecrecover A G s (Some Total_supply) (erc20_total_supply_handler input)"
    "sig = SIG_ERC20_BALANCE \<Longrightarrow> call_refines keccak ecrecover A G s (Some Balance) (erc20_balance_handler keccak input)"
    "sig = SIG_ERC20_DOMAIN_SEPARATOR \<Longrightarrow>
       call_refines keccak ecrecover A G s (Some Domain_separator) (erc20_domain_separator_handler keccak input)"
proof -
  have held: "sig = SIG_ERC20_SYMBOL \<Longrightarrow> holds G s SYMBOL_STORAGE_SLOT" "sig = SIG_ERC20_NAME \<Longrightarrow> holds G s NAME_STORAGE_SLOT"
    "sig = SIG_ERC20_DECIMALS \<Longrightarrow> holds G s DECIMALS_STORAGE_SLOT"
    "sig = SIG_ERC20_TOTAL_SUPPLY \<Longrightarrow> holds G s TOTAL_SUPPLY_STORAGE_SLOT"
    "sig = SIG_ERC20_BALANCE \<Longrightarrow> holds G s (bal_slot keccak (caller_of s))"
    "sig = SIG_ERC20_DOMAIN_SEPARATOR \<Longrightarrow> holds G s NAME_STORAGE_SLOT"
    using K by (simp_all add: key_simps)
  note q = call_refines_Some [OF query_refines [OF _ G]]
  show "sig = SIG_ERC20_SYMBOL \<Longrightarrow> call_refines keccak ecrecover A G s (Some Symbol) (erc20_symbol_handler input)"
    "sig = SIG_ERC20_NAME \<Longrightarrow> call_refines keccak ecrecover A G s (Some Name) (erc20_name_handler input)"
    unfolding erc20_symbol_handler_def erc20_name_handler_def
    by (rule q, rule string_run [where G = G], rule held, assumption, simp add: ctx_contract_def, simp add: ctx_contract_def)+
  show "sig = SIG_ERC20_DECIMALS \<Longrightarrow> call_refines keccak ecrecover A G s (Some Decimals) (erc20_decimals_handler input)"
    "sig = SIG_ERC20_TOTAL_SUPPLY \<Longrightarrow> call_refines keccak ecrecover A G s (Some Total_supply) (erc20_total_supply_handler input)"
    "sig = SIG_ERC20_BALANCE \<Longrightarrow> call_refines keccak ecrecover A G s (Some Balance) (erc20_balance_handler keccak input)"
    by (rule q, rule word_queries_run [where G = G], rule held, assumption, simp add: ctx_contract_def, simp add: ctx_contract_def)+
  show "sig = SIG_ERC20_DOMAIN_SEPARATOR \<Longrightarrow>
      call_refines keccak ecrecover A G s (Some Domain_separator) (erc20_domain_separator_handler keccak input)"
    by (rule q, rule domain_separator_run [where G = G], rule held, assumption, simp add: ctx_contract_def, simp add: ctx_contract_def)
qed

lemma entry_query_branches:
  assumes cf: "collision_free keccak A" and G: "loaded_from G s"
    and K: "\<forall>k\<in>set (loaded_keys (main_storage_keys_of keccak sig input (caller_of s))). holds G s k"
  shows "sig = SIG_ERC20_BALANCE_OF \<Longrightarrow> call_refines keccak ecrecover A G s
       (map_option Balance_of (oc_ok (try_decode balance_of_encoder input))) (erc20_balance_of_handler keccak input)"
    "sig = SIG_ERC20_ALLOWANCE \<Longrightarrow> call_refines keccak ecrecover A G s
       (map_option Allowance (oc_ok (try_decode allowance_encoder input))) (erc20_allowance_handler keccak input)"
    "sig = SIG_ERC20_NONCES \<Longrightarrow> call_refines keccak ecrecover A G s
       (map_option Nonces (oc_ok (try_decode nonces_encoder input))) (erc20_nonces_handler keccak input)"
proof -
  have held: "sig = SIG_ERC20_BALANCE_OF \<Longrightarrow> try_decode balance_of_encoder input = Ok c1 \<Longrightarrow> holds G s (bal_slot keccak (balance_of_owner c1))"
    "sig = SIG_ERC20_ALLOWANCE \<Longrightarrow> try_decode allowance_encoder input = Ok c2 \<Longrightarrow>
       holds G s (allow_slot keccak (allowance_owner c2) (allowance_spender c2))"
    "sig = SIG_ERC20_NONCES \<Longrightarrow> try_decode nonces_encoder input = Ok c3 \<Longrightarrow> holds G s (nonce_slot keccak (nonces_owner c3))"
    for c1 c2 c3 using K by (simp_all add: key_simps)
  note q = call_refines_decode [OF query_refines [OF _ G]]
  show "sig = SIG_ERC20_BALANCE_OF \<Longrightarrow> call_refines keccak ecrecover A G s
       (map_option Balance_of (oc_ok (try_decode balance_of_encoder input))) (erc20_balance_of_handler keccak input)"
    "sig = SIG_ERC20_ALLOWANCE \<Longrightarrow> call_refines keccak ecrecover A G s
       (map_option Allowance (oc_ok (try_decode allowance_encoder input))) (erc20_allowance_handler keccak input)"
    "sig = SIG_ERC20_NONCES \<Longrightarrow> call_refines keccak ecrecover A G s
       (map_option Nonces (oc_ok (try_decode nonces_encoder input))) (erc20_nonces_handler keccak input)"
    by (rule q, rule entry_queries_run [where G = G], assumption, rule held, assumption, assumption, simp add: ctx_contract_def, simp add: ctx_contract_def)+
qed

lemma command_branches:
  assumes cf: "collision_free keccak A" and G: "loaded_from G s"
    and K: "\<forall>k\<in>set (loaded_keys (main_storage_keys_of keccak sig input (caller_of s))). holds G s k"
  shows "sig = SIG_ERC20_TRANSFER \<Longrightarrow> call_refines keccak ecrecover A G s
       (map_option Transfer (oc_ok (try_decode transfer_encoder input))) (erc20_transfer_handler keccak input)"
    "sig = SIG_ERC20_TRANSFER_FROM \<Longrightarrow> call_refines keccak ecrecover A G s
       (map_option Transfer_from (oc_ok (try_decode transfer_from_encoder input))) (erc20_transfer_from_handler keccak input)"
    "sig = SIG_ERC20_APPROVE \<Longrightarrow> call_refines keccak ecrecover A G s
       (map_option Approve (oc_ok (try_decode approve_encoder input))) (erc20_approve_handler keccak input)"
    "sig = SIG_ERC20_MINT \<Longrightarrow> call_refines keccak ecrecover A G s
       (map_option Mint (oc_ok (try_decode mint_encoder input))) (erc20_mint_handler keccak input)"
    "sig = SIG_ERC20_BURN \<Longrightarrow> call_refines keccak ecrecover A G s
       (map_option Burn (oc_ok (try_decode burn_encoder input))) (erc20_burn_handler keccak input)"
    "sig = SIG_ERC20_PAUSE \<Longrightarrow> call_refines keccak ecrecover A G s (Some Pause) (erc20_pause_handler keccak input)"
    "sig = SIG_ERC20_UNPAUSE \<Longrightarrow> call_refines keccak ecrecover A G s (Some Unpause) (erc20_unpause_handler keccak input)"
    "sig = SIG_ERC20_PERMIT \<Longrightarrow> call_refines keccak ecrecover A G s
       (map_option Permit (oc_ok (try_decode permit_encoder input))) (erc20_permit_handler keccak ecrecover input)"
    "sig = SIG_ERC20_DEPOSIT \<and> n \<ge> INITIAL_SETTINGS_V2_SIZE \<Longrightarrow>
       call_refines keccak ecrecover A G s (Some Deposit) (erc20_deposit_handler keccak input)"
    "sig = SIG_ERC20_WITHDRAW \<and> n \<ge> INITIAL_SETTINGS_V2_SIZE \<Longrightarrow> call_refines keccak ecrecover A G s
       (map_option Withdraw (oc_ok (try_decode withdraw_encoder input))) (erc20_withdraw_handler keccak input)"
  using K
  by (intro call_refines_decode call_refines_Some transfer_refines [OF cf G] transfer_from_refines [OF cf G]
      approve_refines [OF cf G] mint_refines [OF cf G] burn_refines [OF cf G] pause_refines [OF cf G]
      permit_refines [OF cf G] deposit_refines [OF cf G] withdraw_refines [OF cf G]; simp add: key_simps)+

lemma dispatch_refines:
  assumes cf: "collision_free keccak A" and G: "loaded_from G s"
    and K: "\<forall>k\<in>set (loaded_keys (main_storage_keys_of keccak sig input (caller_of s))). holds G s k"
  shows "call_refines keccak ecrecover A G s (parse_call n sig input) (dispatch keccak ecrecover n sig input)"
  unfolding parse_call_def dispatch_def
  by (intro call_refines_if)
    ((rule word_query_branches [OF assms] entry_query_branches [OF assms] command_branches [OF assms], assumption)+,
     simp add: call_refines_def refines_call_def erc20_unknown_method_def)

end
