(* ===== verification/Token_Ledger.thy ===== *)
theory Token_Ledger
  imports Token_Refine
begin

text \<open>
  A call of the token from the host's point of view: the frame with the preloaded slots, the run of
  \<open>main_entry\<close>, and the storage afterwards. Calls refine the specification, malformed calls are
  rejected, and the properties of the specification (conservation of the supply, roles, pausing,
  permits) carry over to the storage of the token's account.
\<close>

section \<open>Malformed arguments\<close>

definition rejects :: "system_context \<Rightarrow> token_call option \<Rightarrow> handler \<Rightarrow> bool" where
  "rejects s call h = (call = None \<longrightarrow> (\<exists>e. fst (h s) = Err e))"

lemma rejects_if:
  "(b \<Longrightarrow> rejects s c h) \<Longrightarrow> (\<not> b \<Longrightarrow> rejects s d k) \<Longrightarrow> rejects s (if b then c else d) (if b then h else k)"
  by simp

lemma rejects_Some: "rejects s (Some c) h"
  by (simp add: rejects_def)

lemma rejects_decode:
  assumes "r \<noteq> Panic" "\<And>e. r = Err e \<Longrightarrow> \<exists>e. fst (h s) = Err e"
  shows "rejects s (map_option C (oc_ok r)) h"
  using assms by (cases r) (auto simp: rejects_def oc_ok_def)

lemma guards_miss:
  "sys_lookup s WRAPPED_STORAGE_SLOT = None \<Longrightarrow> fst (when_wrapped_enabled k s) = Err MissingStorageSlot"
  "sys_lookup s CONTRACT_FROZEN_STORAGE_SLOT = None \<Longrightarrow> fst (when_non_frozen k s) = Err MissingStorageSlot"
  by (simp_all add: when_wrapped_enabled_def when_non_frozen_def)

lemma malformed_rejected:
  assumes "length input \<le> max_buf" "sys_lookup s = Map.empty"
  shows "rejects s (parse_call n sig input) (dispatch keccak ecrecover n sig input)"
  unfolding parse_call_def dispatch_def
  by (intro rejects_if rejects_Some rejects_decode command_no_panic [OF assms(1)])
    (auto simp: erc20_transfer_handler_def erc20_transfer_from_handler_def erc20_approve_handler_def
      erc20_allowance_handler_def erc20_balance_of_handler_def erc20_mint_handler_def erc20_burn_handler_def
      erc20_permit_handler_def erc20_nonces_handler_def erc20_withdraw_handler_def guards guards_miss assms(2))

lemma malformed_keys:
  assumes "parse_call n sig input = None"
  shows "loaded_keys (main_storage_keys_of keccak sig input caller) = []"
proof -
  have d: "loaded_keys (decoded_keys E input f) = []" if "oc_ok (try_decode E input) = None" for E :: "'a encoder" and f
    using that by (cases "try_decode E input") (simp_all add: decoded_keys_def loaded_keys_def oc_ok_def)
  show ?thesis using assms
    by (auto simp: parse_call_def main_storage_keys_of_def token_neqs Let_def d split: if_splits)
qed

section \<open>A call\<close>

text \<open>
  \<open>G\<close> is the storage of the token's account. The host hands over the slots the token asks for and
  writes the diff of a successful run back; on every other outcome the storage stays as it is.
\<close>

definition preload :: "(u256 \<Rightarrow> u256) \<Rightarrow> u256 list \<Rightarrow> u256 \<rightharpoonup> u256" where
  "preload G keys k = (if k \<in> set keys then Some (G k) else None)"

definition token_frame ::
  "hash \<Rightarrow> bool \<Rightarrow> (u256 \<Rightarrow> u256) \<Rightarrow> byte list \<Rightarrow> byte list \<Rightarrow> shared_context \<Rightarrow> u64 \<Rightarrow> system_context" where
  "token_frame keccak is_create G metadata input ctx fuel =
     recoverable_state_new
       \<lparr>frame_metadata = metadata, frame_input = input, frame_context = [],
        frame_storage = Some (preload G (loaded_keys
          (erc20_compute_storage_keys keccak input (contract_caller (contract ctx)) is_create)))\<rparr> ctx fuel"

record token_result =
  result_exit :: "(exit_code, unit) outcome"
  result_storage :: "u256 \<Rightarrow> u256"
  result_reply :: reply
  result_metadata :: "byte list option"

definition token_result_of :: "(u256 \<Rightarrow> u256) \<Rightarrow> (exit_code, unit) outcome \<times> system_context \<Rightarrow> token_result" where
  "token_result_of G p =
     (case p of
        (Ok u, s) \<Rightarrow>
          (let out = finalize None s
           in \<lparr>result_exit = Ok u,
               result_storage = (case outcome_storage out of Some diff \<Rightarrow> commit G diff | None \<Rightarrow> G),
               result_reply = (outcome_output out, outcome_logs out, case outcome_transfers out of Some l \<Rightarrow> l | None \<Rightarrow> []),
               result_metadata = outcome_new_metadata out\<rparr>)
      | (r, s) \<Rightarrow> \<lparr>result_exit = r, result_storage = G, result_reply = (sys_output s, [], []), result_metadata = None\<rparr>)"

definition call_token ::
  "hash \<Rightarrow> recover \<Rightarrow> (u256 \<Rightarrow> u256) \<Rightarrow> byte list \<Rightarrow> byte list \<Rightarrow> shared_context \<Rightarrow> u64 \<Rightarrow> token_result" where
  "call_token keccak ecrecover G metadata input ctx fuel =
     token_result_of G (main_entry keccak ecrecover (token_frame keccak False G metadata input ctx fuel))"

definition deploy_token ::
  "hash \<Rightarrow> (u256 \<Rightarrow> u256) \<Rightarrow> byte list \<Rightarrow> shared_context \<Rightarrow> u64 \<Rightarrow> token_result" where
  "deploy_token keccak G input ctx fuel =
     token_result_of G (deploy_entry keccak (token_frame keccak True G [] input ctx fuel))"

definition parse_input :: "byte list \<Rightarrow> byte list \<Rightarrow> token_call option" where
  "parse_input metadata input =
     (if length input < 4 then None
      else parse_call (length metadata) (from_be_bytes (take 4 input)) (drop 4 input))"

lemma frame_simps [simp]:
  "sys_lookup (token_frame keccak cr G md input ctx fuel) =
     preload G (loaded_keys (erc20_compute_storage_keys keccak input (contract_caller (contract ctx)) cr))"
  "snap (token_frame keccak cr G md input ctx fuel) =
     preload G (loaded_keys (erc20_compute_storage_keys keccak input (contract_caller (contract ctx)) cr))"
  "sys_input (token_frame keccak cr G md input ctx fuel) = input"
  "sys_context (token_frame keccak cr G md input ctx fuel) = ctx"
  "contract_metadata (token_frame keccak cr G md input ctx fuel) = md"
  "ctx_contract (token_frame keccak cr G md input ctx fuel) = contract ctx"
  "sys_output (token_frame keccak cr G md input ctx fuel) = []"
  "events (sys_storage (token_frame keccak cr G md input ctx fuel)) = []"
  "paid (token_frame keccak cr G md input ctx fuel) = []"
  "native_fuel (token_frame keccak cr G md input ctx fuel) = fuel"
  by (simp_all add: token_frame_def recoverable_state_new_def sys_lookup_def ctx_contract_def journal_new_def
    journal_lookup_def paid_def)

lemma result_Ok:
  assumes "snap s = preload G K"
  shows "token_result_of G (Ok u, s) =
     \<lparr>result_exit = Ok u, result_storage = commit G (sys_lookup s),
      result_reply = (sys_output s, events (sys_storage s), paid s), result_metadata = new_metadata s\<rparr>"
  using assms
  by (auto simp: token_result_of_def finalize_def into_diff_def Let_def commit_def sys_lookup_def journal_lookup_def
    map_add_def preload_def fun_eq_iff paid_def split: option.splits)

lemma result_other [simp]:
  "token_result_of G (Err e, s) =
     \<lparr>result_exit = Err e, result_storage = G, result_reply = (sys_output s, [], []), result_metadata = None\<rparr>"
  "token_result_of G (Panic, s) =
     \<lparr>result_exit = Panic, result_storage = G, result_reply = (sys_output s, [], []), result_metadata = None\<rparr>"
  by (simp_all add: token_result_of_def)

lemma exit_with_eq:
  "exit_with c s = (if c = 0 then (Ok (), s) else (Err ExitCode_Panic, snd (write_evm_exit_message c s)))"
  by (simp add: exit_with_def write_evm_exit_message_def)

lemma small_input_size:
  assumes "length input \<le> max_buf"
  shows "(word_of_nat (length input) < (word_of_nat SIG_LEN_BYTES :: u32)) = (length input < 4)"
proof -
  have "unat (word_of_nat (length input) :: u32) = length input"
    using assms by (simp add: unat_of_nat)
  then show ?thesis by (simp add: word_less_nat_alt SIG_LEN_BYTES_def)
qed

lemma main_entry_eq:
  assumes "length (sys_input s) \<le> max_buf"
  shows "main_entry keccak ecrecover s =
     (if length (sys_input s) < 4 then (Err MalformedBuiltinParams, s)
      else cbind (dispatch keccak ecrecover (length (contract_metadata s)) (from_be_bytes (take 4 (sys_input s)))
             (drop 4 (sys_input s))) exit_with s)"
  using small_input_size [OF assms]
  by (simp add: main_entry_def input_size_def bytes_input_def Let_def SIG_LEN_BYTES_def not_less)

text \<open>What a call must come to.\<close>

definition result_meets ::
  "hash \<Rightarrow> recover \<Rightarrow> address set \<Rightarrow> (u256 \<Rightarrow> u256) \<Rightarrow> shared_context \<Rightarrow> token_call option \<Rightarrow> token_result \<Rightarrow> bool" where
  "result_meets keccak ecrecover A G ctx call r =
     (let L = ledger_of keccak A G in
      case Option.bind call (\<lambda>c. token_spec keccak ecrecover ctx c L) of
        Some L' \<Rightarrow> result_exit r = Ok () \<and> ledger_of keccak A (result_storage r) = L' \<and>
          result_reply r = token_reply keccak ctx (the call) L
      | None \<Rightarrow> (\<exists>e. result_exit r = Err e \<and> (call \<noteq> None \<longrightarrow> e \<noteq> MissingStorageSlot)) \<and> result_storage r = G)"

lemma call_token_meets:
  assumes cf: "collision_free keccak A" and len: "length input \<le> max_buf"
    and acc: "\<And>c. parse_input md input = Some c \<Longrightarrow> call_accounts (contract_caller (contract ctx)) c \<subseteq> A"
  shows "result_meets keccak ecrecover A G ctx (parse_input md input) (call_token keccak ecrecover G md input ctx fuel)"
proof -
  let ?s = "token_frame keccak False G md input ctx fuel"
    and ?sig = "from_be_bytes (take 4 input) :: u32" and ?args = "drop 4 input"
  let ?p = "dispatch keccak ecrecover (length md) ?sig ?args ?s"
  have main: "main_entry keccak ecrecover ?s = (if length input < 4 then (Err MalformedBuiltinParams, ?s)
      else cbind (dispatch keccak ecrecover (length md) ?sig ?args) exit_with ?s)"
    using main_entry_eq [of ?s] len by simp
  have keys: "erc20_compute_storage_keys keccak input (contract_caller (contract ctx)) False =
      main_storage_keys_of keccak ?sig ?args (contract_caller (contract ctx))" if "\<not> length input < 4"
    using that by (simp add: erc20_compute_storage_keys_def erc20_compute_main_storage_keys_def SIG_LEN_BYTES_def)
  show ?thesis
  proof (cases "parse_input md input")
    case None
    have "\<exists>e. fst (main_entry keccak ecrecover ?s) = Err e"
    proof (cases "length input < 4")
      case False
      then have p: "parse_call (length md) ?sig ?args = None" using None by (simp add: parse_input_def)
      have "sys_lookup ?s = Map.empty"
        using keys [OF False] malformed_keys [OF p] by (simp add: preload_def fun_eq_iff)
      then obtain e where "fst ?p = Err e"
        using malformed_rejected [of ?args ?s "length md" ?sig keccak ecrecover] p len by (fastforce simp: rejects_def)
      then show ?thesis using main False by (cases ?p) (simp add: cbind_def)
    qed (simp add: main)
    then obtain e s' where "main_entry keccak ecrecover ?s = (Err e, s')" by (metis prod.collapse)
    then show ?thesis using None by (simp add: call_token_def result_meets_def)
  next
    case (Some c)
    then have four: "\<not> length input < 4" and p: "parse_call (length md) ?sig ?args = Some c"
      by (auto simp: parse_input_def split: if_splits)
    have "call_refines keccak ecrecover A G ?s (parse_call (length md) ?sig ?args)
        (dispatch keccak ecrecover (length md) ?sig ?args)"
      using keys [OF four] by (intro dispatch_refines [OF cf]) (auto simp: preload_def split: if_splits)
    then have ref: "refines_call keccak A G ?s (token_spec keccak ecrecover ctx c (ledger_of keccak A G))
        (token_reply keccak ctx c (ledger_of keccak A G)) ?p"
      using p acc [OF Some] by (simp add: call_refines_def)
    obtain o' s' where os: "?p = (o', s')" by (cases ?p)
    note ok = result_Ok [of s' G "loaded_keys (erc20_compute_storage_keys keccak input (contract_caller (contract ctx)) False)"]
    show ?thesis using ref main four os Some ok
      by (cases o'; cases "token_reply keccak ctx c (ledger_of keccak A G)")
        (auto simp: refines_call_def call_token_def exit_with_eq result_meets_def split: if_splits)
  qed
qed

section \<open>The refinement\<close>

text \<open>A hash for examples that keeps the slots of small addresses apart, and the calldata of a command.\<close>

definition toy_slot :: "u256 \<Rightarrow> u256 \<Rightarrow> u256" where
  "toy_slot a base =
     (if base = BALANCE_STORAGE_SLOT then 256 + a
      else if base = NONCES_STORAGE_SLOT then 512 + a
      else if base = ALLOWANCE_STORAGE_SLOT then 1024 + 16 * a
      else 2048 + base + a)"

definition toy_hash :: hash where
  "toy_hash bs = to_be_bytes (toy_slot (from_be_bytes (take 32 bs)) (from_be_bytes (drop 32 bs)))"

lemma le_nat_zeros: "le_nat (bs @ replicate n 0) = le_nat bs"
proof (induction bs)
  case Nil
  show ?case by (induction n) simp_all
qed simp

lemma address_word_value: "from_be_bytes (replicate 12 0 @ to_be_bytes a) = (ucast a :: u256)" for a :: address
proof -
  have "be_nat (replicate 12 0 @ to_be_bytes a) = unat a"
    using unat_fits_bytes [of a] by (simp add: be_nat_def le_nat_zeros to_be_bytes_def be_bytes_def le_nat_le_bytes)
  then show ?thesis by (simp add: from_be_bytes_def)
qed

lemma slot_address_ucast: "slot_address (ucast a) = a"
  using to_from_be_bytes [where 'a = 256, of "replicate 12 0 @ to_be_bytes a"]
  by (simp add: slot_address_def address_word_value)

lemma toy_address_slot [simp]: "address_slot toy_hash a base = toy_slot (ucast a) base"
  by (simp add: address_slot_def compute_slot_def toy_hash_def address_key_word_def blit_def address_word_value)

lemma toy_bases: "1088 \<noteq> BALANCE_STORAGE_SLOT" "1104 \<noteq> BALANCE_STORAGE_SLOT" "1088 \<noteq> NONCES_STORAGE_SLOT"
  "1104 \<noteq> NONCES_STORAGE_SLOT" "1088 \<noteq> ALLOWANCE_STORAGE_SLOT" "1104 \<noteq> ALLOWANCE_STORAGE_SLOT"
  by (simp_all add: token_consts)

lemma big_slots: "\<forall>k \<in> set fixed_slots. 65536 < k"
  by (simp add: fixed_slots_def token_consts)

definition toy_cells :: "cell list" where
  "toy_cells = [Supply_cell, Minter_cell, Pauser_cell, Frozen_cell, Wrapped_cell, Name_cell, Symbol_cell, Decimals_cell,
     Balance_cell 4, Balance_cell 5, Nonce_cell 4, Nonce_cell 5,
     Allowance_cell 4 4, Allowance_cell 4 5, Allowance_cell 5 4, Allowance_cell 5 5]"

lemma toy_collision_free: "collision_free toy_hash {4, 5}"
proof -
  have "Collect (cell_of {4, 5}) \<subseteq> set toy_cells"
  proof
    fix c assume "c \<in> Collect (cell_of {4, 5})"
    then show "c \<in> set toy_cells" by (cases c) (auto simp: toy_cells_def)
  qed
  moreover have "distinct (map (cell_slot toy_hash) toy_cells)"
  proof -
    let ?small = "[260, 261, 516, 517, 3140, 3141, 3156, 3157] :: u256 list"
    have "map (cell_slot toy_hash) toy_cells = fixed_slots @ ?small"
      by (simp add: toy_cells_def fixed_slots_def toy_slot_def token_neqs toy_bases)
    moreover note big_slots
    moreover have "\<forall>k \<in> set ?small. k < 65536" "distinct ?small" by simp_all
    ultimately show ?thesis using fixed_distinct by fastforce
  qed
  ultimately show ?thesis by (auto simp: collision_free_def distinct_map intro: inj_on_subset)
qed

definition sent :: "u32 \<Rightarrow> 'a encoder \<Rightarrow> 'a \<Rightarrow> byte list" where
  "sent SIGNATURE E c = (case encode_for_send SIGNATURE E c [] of Ok b \<Rightarrow> b | _ \<Rightarrow> [])"


lemma sent_transfer:
  "parse_input md (sent SIG_ERC20_TRANSFER transfer_encoder c) = Some (Transfer c)"
  "length (sent SIG_ERC20_TRANSFER transfer_encoder c) = 68"
  using transfer.round_trip [of c "[]"]
  by (auto simp: sent_def parse_input_def parse_call_def oc_ok_def token_neqs)

definition toy_storage :: "u256 \<Rightarrow> u256" where
  "toy_storage k = (if k = 260 \<or> k = TOTAL_SUPPLY_STORAGE_SLOT then 10 else 0)"

lemma toy_ledger:
  "ledger_of toy_hash {4, 5} toy_storage =
     \<lparr>l_balance = (\<lambda>a. if a = 4 then 10 else 0), l_allowance = (\<lambda>a b. 0), l_nonce = (\<lambda>a. 0), l_supply = 10, l_minter = 0,
      l_pauser = 0, l_frozen = False, l_wrapped = False, l_name = 0, l_symbol = 0, l_decimals = 0\<rparr>"
proof -
  have a: "slot_address 0 = 0" using slot_address_ucast [of 0] by simp
  have m: "bal_slot toy_hash 4 = 260" "bal_slot toy_hash 5 = 261" "nonce_slot toy_hash 4 = 516" "nonce_slot toy_hash 5 = 517"
    "allow_slot toy_hash 4 4 = 3140" "allow_slot toy_hash 4 5 = 3141" "allow_slot toy_hash 5 4 = 3156" "allow_slot toy_hash 5 5 = 3157"
    by (simp_all add: toy_slot_def token_neqs toy_bases)
  have s: "k < 65536 \<Longrightarrow> k \<noteq> TOTAL_SUPPLY_STORAGE_SLOT" for k using big_slots by (auto simp: fixed_slots_def)
  have l: "k \<in> set fixed_slots \<Longrightarrow> k \<noteq> 260" for k using big_slots by fastforce
  have v: "toy_storage 260 = 10" "\<forall>k \<in> {261, 516, 517, 3140, 3141, 3156, 3157}. toy_storage k = 0"
    "toy_storage TOTAL_SUPPLY_STORAGE_SLOT = 10" "\<forall>k \<in> set (tl fixed_slots). toy_storage k = 0"
    using l by (simp_all add: toy_storage_def s) (simp_all add: fixed_slots_def token_neqs)
  have "(\<lambda>a. if a \<in> {4, 5} then toy_storage (bal_slot toy_hash a) else 0) = (\<lambda>a. if a = 4 then 10 else 0)"
    "(\<lambda>a b. if a \<in> {4, 5} \<and> b \<in> {4, 5} then toy_storage (allow_slot toy_hash a b) else 0) = (\<lambda>a b. 0)"
    "(\<lambda>a. if a \<in> {4, 5} then toy_storage (nonce_slot toy_hash a) else 0) = (\<lambda>a. 0)"
    using m v by (auto simp: fun_eq_iff simp del: toy_address_slot)
  then show ?thesis using v a by (simp add: ledger_of_def fixed_slots_def del: toy_address_slot)
qed

text \<open>
  C1. The universal token implements its ledger specification. For every input and every state of the
  account's storage, when the hash keeps the slots of the accounts involved apart: if the input stands
  for a call the specification accepts, the call succeeds, the storage written back holds exactly the
  ledger the specification gives, and the output, the events and the payments are the specified ones;
  otherwise the call fails with an error, never a panic, and leaves the storage as it was. A call whose
  arguments decode never fails for a storage slot the host did not load.
\<close>

theorem token_refines_spec:
  assumes "collision_free keccak A" "length input \<le> max_buf"
    "\<forall>c. parse_input md input = Some c \<longrightarrow> call_accounts (contract_caller (contract ctx)) c \<subseteq> A"
  shows "result_meets keccak ecrecover A G ctx (parse_input md input) (call_token keccak ecrecover G md input ctx fuel)"
  using assms by (intro call_token_meets) auto

theorem token_refines_spec_witness:
  "let c = \<lparr>transfer_to = 5, transfer_amount = 3\<rparr>;
       r = call_token toy_hash (\<lambda>_ _ _. None) toy_storage [] (sent SIG_ERC20_TRANSFER transfer_encoder c) example_context 0;
       L = ledger_of toy_hash {4, 5} (result_storage r)
   in result_exit r = Ok () \<and> l_balance L 4 = 7 \<and> l_balance L 5 = 3 \<and> result_reply r = answer 1 [Transfer_log 4 5 3]"
  using token_refines_spec [OF toy_collision_free, of "sent SIG_ERC20_TRANSFER transfer_encoder \<lparr>transfer_to = 5, transfer_amount = 3\<rparr>"
      "[]" example_context "\<lambda>_ _ _. None" toy_storage 0]
  by (simp add: sent_transfer result_meets_def toy_ledger spec_steps example_context_def Let_def del: ledger_maps)

end
