(* ===== verification/Token_Deploy.thy ===== *)
theory Token_Deploy
  imports Token_Ledger
begin

text \<open>
  The deployment of a universal token: which creation payloads the constructor accepts, and the ledger
  it leaves behind.
\<close>

section \<open>The specification\<close>

definition metadata_size :: "initial_settings \<Rightarrow> nat" where
  "metadata_size st = (if wrapped st = None then INITIAL_SETTINGS_V1_SIZE else INITIAL_SETTINGS_V2_SIZE)"

definition metadata_fuel :: "initial_settings \<Rightarrow> u64" where
  "metadata_fuel st =
     saturating_mul (saturating_mul (word_of_nat (metadata_size st)) CODE_DEPOSIT_GAS_PER_BYTE) FUEL_DENOM_RATE"

text \<open>A wrapped token starts without supply, and a token with the wrapped flag has no minter.\<close>

definition acceptable :: "shared_context \<Rightarrow> u64 \<Rightarrow> initial_settings \<Rightarrow> bool" where
  "acceptable ctx fuel st =
     (contract_value (contract ctx) = 0 \<and> \<not> contract_is_static (contract ctx) \<and>
      as_str (token_name st) \<noteq> None \<and> as_str (token_symbol st) \<noteq> None \<and>
      (wrapped st = Some True \<longrightarrow> initial_supply st = 0) \<and> (wrapped st \<noteq> None \<longrightarrow> token_minter st = 0) \<and>
      metadata_fuel st \<le> fuel)"

definition string_word :: "token_name_or_symbol \<Rightarrow> u256" where
  "string_word t = from_be_bytes (blit (replicate 32 0) 0 (takeWhile (\<lambda>c. c \<noteq> 0) (tns_bytes t)))"

definition initial_ledger :: "initial_settings \<Rightarrow> address \<Rightarrow> ledger" where
  "initial_ledger st caller =
     \<lparr>l_balance = (\<lambda>_. 0)(caller := initial_supply st), l_allowance = (\<lambda>_ _. 0), l_nonce = (\<lambda>_. 0),
      l_supply = initial_supply st, l_minter = token_minter st, l_pauser = token_pauser st, l_frozen = False,
      l_wrapped = (wrapped st = Some True), l_name = string_word (token_name st), l_symbol = string_word (token_symbol st),
      l_decimals = ucast (token_decimals st)\<rparr>"

definition deploy_spec :: "shared_context \<Rightarrow> u64 \<Rightarrow> byte list \<Rightarrow> initial_settings option" where
  "deploy_spec ctx fuel input =
     (case decode_with_prefix input of Ok st \<Rightarrow> if acceptable ctx fuel st then Some st else None | _ \<Rightarrow> None)"

section \<open>The constructor\<close>

lemma write_short_string_eq:
  assumes "valid_name t" "as_str t = Some v"
  shows "write_storage_short_string k v s = (Ok (), stored k (string_word t) s)"
proof -
  have v: "v = takeWhile (\<lambda>c. c \<noteq> 0) (tns_bytes t)" using assms(2) by (auto simp: as_str_def Let_def split: if_splits)
  have "length v \<le> 32" using length_takeWhile_le [of "\<lambda>c. c \<noteq> 0" "tns_bytes t"] assms(1) by (simp add: v valid_name_def)
  then show ?thesis by (simp add: write_storage_short_string_def string_word_def v)
qed

lemma charge_fuel_eq [simp]: "sdk_charge_fuel f s = (Ok (), s\<lparr>native_fuel := native_fuel s - f\<rparr>)"
  by (simp add: sdk_charge_fuel_def)

lemma write_metadata_eq [simp]: "write_contract_metadata m s = (Ok (), s\<lparr>new_metadata := Some m\<rparr>)"
  by (simp add: write_contract_metadata_def)

lemma paid_deploy [simp]: "paid (s\<lparr>native_fuel := f\<rparr>) = paid s" "paid (s\<lparr>new_metadata := md\<rparr>) = paid s"
  by (simp_all add: paid_def)

definition initial_slots :: "hash \<Rightarrow> initial_settings \<Rightarrow> address \<Rightarrow> (u256 \<rightharpoonup> u256) \<Rightarrow> u256 \<rightharpoonup> u256" where
  "initial_slots keccak st caller m =
     (let m' = m(NAME_STORAGE_SLOT \<mapsto> string_word (token_name st), SYMBOL_STORAGE_SLOT \<mapsto> string_word (token_symbol st),
          DECIMALS_STORAGE_SLOT \<mapsto> ucast (token_decimals st), bal_slot keccak caller \<mapsto> initial_supply st,
          TOTAL_SUPPLY_STORAGE_SLOT \<mapsto> initial_supply st, MINTER_STORAGE_SLOT \<mapsto> ucast (token_minter st),
          PAUSER_STORAGE_SLOT \<mapsto> ucast (token_pauser st))
      in case wrapped st of None \<Rightarrow> m' | Some w \<Rightarrow> m'(WRAPPED_STORAGE_SLOT \<mapsto> (if w then 1 else 0)))"

definition initial_reply :: "initial_settings \<Rightarrow> address \<Rightarrow> reply" where
  "initial_reply st caller =
     ([], if initial_supply st > 0 then [Transfer_log 0 caller (initial_supply st)] else [], [])"

lemma constructor_run:
  assumes "decode_with_prefix input = Ok st" "encode_with_prefix st = Ok md" "length md = metadata_size st"
  shows "outcome_is (acceptable (sys_context s) (native_fuel s) st) (initial_slots keccak st (caller_of s) (sys_lookup s))
       (initial_reply st (caller_of s)) s (erc20_constructor_handler keccak input s)"
    (is "?run")
    and "case erc20_constructor_handler keccak input s of (r, s') \<Rightarrow> r = Ok 0 \<longrightarrow> new_metadata s' = Some md" (is "?md")
proof -
  have valid: "valid_name (token_name st)" "valid_name (token_symbol st)"
    using decoded_settings_valid [OF assms(1)] by simp_all
  have small: "\<not> length md > INITIAL_SETTINGS_V2_SIZE" "\<not> metadata_size st > INITIAL_SETTINGS_V2_SIZE"
    using assms(3) by (simp_all add: metadata_size_def settings_sizes)
  note run = erc20_constructor_handler_def run_simps assms(1,2) small write_short_string_eq [OF valid(1)]
    write_short_string_eq [OF valid(2)] address_word_value
  note goal = acceptable_def ctx_contract_def initial_slots_def initial_reply_def log_defs metadata_fuel_def assms(3)
    linorder_not_less [symmetric] word_gt_0
  show ?run
    by (cases "as_str (token_name st)"; cases "as_str (token_symbol st)"; cases "wrapped st"; simp add: run goal)
  show ?md
    by (cases "as_str (token_name st)"; cases "as_str (token_symbol st)"; cases "wrapped st"; simp add: run)
qed

section \<open>The ledger of a fresh token\<close>

lemma ledger_update_roles:
  assumes "collision_free keccak A"
  shows "ledger_of keccak A (G(MINTER_STORAGE_SLOT := v)) = (ledger_of keccak A G)\<lparr>l_minter := slot_address v\<rparr>"
    "ledger_of keccak A (G(PAUSER_STORAGE_SLOT := v)) = (ledger_of keccak A G)\<lparr>l_pauser := slot_address v\<rparr>"
    "ledger_of keccak A (G(WRAPPED_STORAGE_SLOT := v)) = (ledger_of keccak A G)\<lparr>l_wrapped := v \<noteq> 0\<rparr>"
    "ledger_of keccak A (G(NAME_STORAGE_SLOT := v)) = (ledger_of keccak A G)\<lparr>l_name := v\<rparr>"
    "ledger_of keccak A (G(SYMBOL_STORAGE_SLOT := v)) = (ledger_of keccak A G)\<lparr>l_symbol := v\<rparr>"
    "ledger_of keccak A (G(DECIMALS_STORAGE_SLOT := v)) = (ledger_of keccak A G)\<lparr>l_decimals := v\<rparr>"
  using fixed_slot_eqs(1) [OF assms] fixed_slot_eqs(2) [OF assms] fixed_slot_eqs(3) [OF assms] fixed_distinct
  by (auto simp: ledger_of_def fun_eq_iff fixed_slots_def)

definition fresh_storage :: "hash \<Rightarrow> address set \<Rightarrow> (u256 \<Rightarrow> u256) \<Rightarrow> bool" where
  "fresh_storage keccak A G = (\<forall>c. cell_of A c \<longrightarrow> G (cell_slot keccak c) = 0)"

lemma fresh_ledger:
  assumes "fresh_storage keccak A G"
  shows "ledger_of keccak A G =
     \<lparr>l_balance = (\<lambda>_. 0), l_allowance = (\<lambda>_ _. 0), l_nonce = (\<lambda>_. 0), l_supply = 0, l_minter = 0, l_pauser = 0,
      l_frozen = False, l_wrapped = False, l_name = 0, l_symbol = 0, l_decimals = 0\<rparr>"
proof -
  have f: "cell_of A c \<Longrightarrow> G (cell_slot keccak c) = 0" for c using assms by (simp add: fresh_storage_def)
  have "slot_address 0 = 0" using slot_address_ucast [of 0] by simp
  then show ?thesis
    using f [of Supply_cell] f [of Minter_cell] f [of Pauser_cell] f [of Frozen_cell] f [of Wrapped_cell] f [of Name_cell]
      f [of Symbol_cell] f [of Decimals_cell] f [of "Balance_cell _"] f [of "Nonce_cell _"] f [of "Allowance_cell _ _"]
    by (simp add: ledger_of_def fun_eq_iff)
qed

lemma initial_slots_ledger:
  assumes "collision_free keccak A" "fresh_storage keccak A G" "caller \<in> A" "commit G m = G"
  shows "ledger_of keccak A (commit G (initial_slots keccak st caller m)) = initial_ledger st caller"
  using assms(1,3,4)
  by (cases "wrapped st")
    (simp_all add: initial_slots_def ledger_updates ledger_update_roles fresh_ledger [OF assms(2)] slot_address_ucast
      initial_ledger_def)

text \<open>The legacy form, which spends a word on each byte of the names, decodes without panics as well.\<close>

lemma legacy_name_shape:
  "al_up SolidityABI (HEADER_SIZE (array_encoder SolidityABI (u8_encoder SolidityABI) 32)) = 1024"
  "\<not> IS_DYNAMIC (array_encoder SolidityABI (u8_encoder SolidityABI) 32)" "32 dvd (1024 :: nat)"
  by (simp_all add: array_encoder_def u8_encoder_def) code_simp

lemma legacy_name_lawful:
  "lawful_codec SolidityABI (array_encoder SolidityABI (u8_encoder SolidityABI) 32) 1024 (\<lambda>_. 0) (\<lambda>xs. length xs = 32)"
proof -
  have "static_codec SolidityABI (array_encoder SolidityABI (u8_encoder SolidityABI) 32) (\<lambda>xs. length xs = 32 \<and> list_all (\<lambda>_. True) xs)"
    by (rule array_static) (simp_all add: u8_static, simp add: u8_encoder_def)
  from static_lawful [OF this, unfolded legacy_name_shape(1)] show ?thesis by (simp add: list.pred_True)
qed

lemma legacy_settings_lawful:
  "lawful_codec SolidityABI legacy_settings_encoder 2176 (\<lambda>_. 0)
     (\<lambda>s. length (legacy_token_name s) = 32 \<and> length (legacy_token_symbol s) = 32)"
  unfolding legacy_settings_encoder_def
proof (rule word_fields_lawful)
  show "word_fields (\<lambda>s. length (legacy_token_name s) = 32 \<and> length (legacy_token_symbol s) = 32) legacy_settings_fields 2176 (\<lambda>s _. s)"
    unfolding legacy_settings_fields_def
    by (rule word_fields_eq, (rule word_fields_Cons [OF legacy_name_lawful legacy_name_shape(1,3,2)] word_fields_intros, (simp; fail)?)+,
        intro ext legacy_initial_settings.equality, simp_all)
qed simp_all

lemma decode_no_panic:
  assumes "length input \<le> max_buf"
  shows "decode_with_prefix input \<noteq> Panic"
proof -
  have np: "oc_bind (oc_map_err f x) (\<lambda>y. Ok (g y)) \<noteq> Panic" if "x \<noteq> Panic" for x f g using that by (cases x) simp_all
  have "decode settings_v1_encoder (drop 4 input) 0 \<noteq> Panic" "decode settings_v2_encoder (drop 4 input) 0 \<noteq> Panic"
    "decode legacy_settings_encoder (drop 4 input) 0 \<noteq> Panic"
    using assms lawful_codec.no_panic [OF settings_v1_lawful, of "drop 4 input" 0]
      lawful_codec.no_panic [OF settings_v2_lawful, of "drop 4 input" 0]
      lawful_codec.no_panic [OF legacy_settings_lawful, of "drop 4 input" 0] by simp_all
  then show ?thesis
    by (simp add: decode_with_prefix_def legacy_decode_with_prefix_def Let_def np)
qed

section \<open>Deployment\<close>

definition deployment_meets ::
  "hash \<Rightarrow> address set \<Rightarrow> (u256 \<Rightarrow> u256) \<Rightarrow> shared_context \<Rightarrow> u64 \<Rightarrow> byte list \<Rightarrow> token_result \<Rightarrow> bool" where
  "deployment_meets keccak A G ctx fuel input r =
     (case deploy_spec ctx fuel input of
        Some st \<Rightarrow> result_exit r = Ok () \<and>
          ledger_of keccak A (result_storage r) = initial_ledger st (contract_caller (contract ctx)) \<and>
          result_reply r = initial_reply st (contract_caller (contract ctx)) \<and>
          (\<exists>md. result_metadata r = Some md \<and> encode_with_prefix st = Ok md)
      | None \<Rightarrow> (\<exists>e. result_exit r = Err e) \<and> result_storage r = G \<and> result_metadata r = None)"

lemma decoded_length:
  assumes "decode_with_prefix input = Ok st"
  shows "4 \<le> length input" "length input \<le> INITIAL_SETTINGS_MAX_SIZE"
  using assms by (auto simp: decode_with_prefix_def settings_sizes Let_def split: if_splits)

lemma small_size:
  assumes "length input \<le> max_buf"
  shows "unat (word_of_nat (length input) :: u32) = length input"
  using assms by (simp add: unat_of_nat)

lemma deploy_entry_eq:
  assumes "length (sys_input s) \<le> max_buf"
  shows "deploy_entry keccak s =
     (if length (sys_input s) < 4 \<or> length (sys_input s) > INITIAL_SETTINGS_MAX_SIZE then (Err MalformedBuiltinParams, s)
      else cbind (erc20_constructor_handler keccak (sys_input s)) exit_with s)"
  using small_input_size [OF assms] small_size [OF assms]
  by (simp add: deploy_entry_def input_size_def bytes_input_def)

lemma constructor_rejects:
  assumes "decode_with_prefix input = Err e"
  shows "\<exists>e. fst (erc20_constructor_handler keccak input s) = Err e"
  using assms by (simp add: erc20_constructor_handler_def run_simps)

lemma deploy_token_meets:
  assumes cf: "collision_free keccak A" and len: "length input \<le> max_buf" and fresh: "fresh_storage keccak A G"
    and caller: "contract_caller (contract ctx) \<in> A"
  shows "deployment_meets keccak A G ctx fuel input (deploy_token keccak G input ctx fuel)"
proof -
  let ?s = "token_frame keccak True G [] input ctx fuel"
  let ?p = "erc20_constructor_handler keccak input ?s"
  have entry: "deploy_entry keccak ?s =
      (if length input < 4 \<or> length input > INITIAL_SETTINGS_MAX_SIZE then (Err MalformedBuiltinParams, ?s)
       else cbind (erc20_constructor_handler keccak input) exit_with ?s)"
    using deploy_entry_eq [of ?s keccak] len by simp
  show ?thesis
  proof (cases "decode_with_prefix input")
    case (Ok st)
    obtain md where md: "encode_with_prefix st = Ok md" "length md = metadata_size st"
      using settings_trip [of st] decoded_settings_valid [OF Ok] by (auto simp: metadata_size_def)
    note run = constructor_run [OF Ok md, where s = ?s and keccak = keccak, simplified]
    obtain o' s' where os: "?p = (o', s')" by (cases ?p)
    have commit: "commit G (preload G K) = G" for K by (auto simp: commit_def preload_def fun_eq_iff)
    note ok = result_Ok [of s' G "loaded_keys (erc20_compute_storage_keys keccak input (contract_caller (contract ctx)) True)"]
      initial_slots_ledger [OF cf fresh caller commit]
    show ?thesis using run os ok entry decoded_length [OF Ok] Ok md
      by (cases o'; cases "initial_reply st (contract_caller (contract ctx))")
        (auto simp: deployment_meets_def deploy_spec_def deploy_token_def exit_with_eq split: if_splits)
  next
    case (Err e)
    obtain e' s' where "?p = (Err e', s')" using constructor_rejects [OF Err, of keccak ?s] by (metis prod.collapse)
    then show ?thesis using entry Err by (auto simp: deployment_meets_def deploy_spec_def deploy_token_def)
  next
    case Panic
    then show ?thesis using decode_no_panic [OF len] by simp
  qed
qed

text \<open>
  C4. Deployment establishes the ledger the settings describe: on fresh storage a creation payload is
  accepted exactly when it decodes, the names are UTF-8, a wrapped token has neither an initial supply
  nor a minter, and the fuel covers the code deposit. The creator then holds the whole supply, the
  canonical settings become the metadata of the account, and a mint is logged if there is a supply. Any
  other payload fails with an error and changes nothing.
\<close>

theorem deployment_refines_spec:
  assumes "collision_free keccak A" "length input \<le> max_buf" "fresh_storage keccak A G" "contract_caller (contract ctx) \<in> A"
  shows "deployment_meets keccak A G ctx fuel input (deploy_token keccak G input ctx fuel)"
  using assms by (rule deploy_token_meets)

definition toy_settings :: initial_settings where
  "toy_settings = \<lparr>token_name = from_str [0x41, 0x42], token_symbol = from_str [0x41], token_decimals = 18,
     initial_supply = 1000, token_minter = 7, token_pauser = 8, wrapped = None\<rparr>"

definition toy_payload :: "byte list" where
  "toy_payload = (case encode_with_prefix toy_settings of Ok b \<Rightarrow> b | _ \<Rightarrow> [])"

lemma toy_names:
  "valid_name (token_name toy_settings)" "valid_name (token_symbol toy_settings)"
  "as_str (token_name toy_settings) \<noteq> None" "as_str (token_symbol toy_settings) \<noteq> None"
  by code_simp+

lemma toy_deploy:
  "deploy_spec example_context 1000000 toy_payload = Some toy_settings" "length toy_payload = 196"
  "encode_with_prefix toy_settings = Ok toy_payload"
proof -
  obtain b where b: "encode_with_prefix toy_settings = Ok b" "decode_with_prefix b = Ok toy_settings" "length b = 196"
    using settings_trip [OF toy_names(1,2)] by (auto simp: toy_settings_def settings_sizes)
  have "metadata_fuel toy_settings \<le> 1000000"
    by (simp add: metadata_fuel_def metadata_size_def toy_settings_def settings_sizes saturating_mul_def
      CODE_DEPOSIT_GAS_PER_BYTE_def FUEL_DENOM_RATE_def)
  then have "acceptable example_context 1000000 toy_settings"
    using toy_names(3,4) by (simp add: acceptable_def example_context_def) (simp add: toy_settings_def)
  with b show "deploy_spec example_context 1000000 toy_payload = Some toy_settings" "length toy_payload = 196"
    "encode_with_prefix toy_settings = Ok toy_payload"
    by (simp_all add: toy_payload_def deploy_spec_def)
qed

lemma example_caller: "contract_caller (contract example_context) = 4"
  by (simp add: example_context_def)

lemma toy_fields: "initial_supply toy_settings = 1000" "token_minter toy_settings = 7"
  by (simp_all add: toy_settings_def)

lemma toy_fresh: "fresh_storage keccak A (\<lambda>_. 0)"
  by (simp add: fresh_storage_def)

theorem deployment_refines_spec_witness:
  "let r = deploy_token toy_hash (\<lambda>_. 0) toy_payload example_context 1000000; L = ledger_of toy_hash {4, 5} (result_storage r)
   in result_exit r = Ok () \<and> result_metadata r = Some toy_payload \<and> l_balance L 4 = 1000 \<and> l_supply L = 1000 \<and> l_minter L = 7"
  using deployment_refines_spec [OF toy_collision_free _ toy_fresh, of toy_payload example_context 1000000]
  by (simp add: deployment_meets_def toy_deploy Let_def initial_ledger_def example_caller toy_fields
    del: ledger_maps ledger_sel)

end
