(* ===== verification/Token_Supply.thy ===== *)
theory Token_Supply
  imports Token_Deploy
begin

text \<open>
  What holds of a universal token throughout its life. \<open>token_history\<close> are the states of the account's
  storage that a deployment and any sequence of calls lead to, failed and malformed calls included,
  together with the native value the token has taken in and not paid out. The properties are proved of
  the specification and carry over to the code by the refinement.
\<close>

section \<open>Books\<close>

lemma uint_sub: "v \<le> w \<Longrightarrow> uint (w - v) = uint w - uint v" for v w :: "'a::len word"
  using uint_sub_lem [of v w] by (simp add: word_le_def)

lemma uint_add_small:
  fixes v w :: "'a::len word"
  assumes "unat v + unat w < 2 ^ LENGTH('a)"
  shows "uint (v + w) = uint v + uint w"
proof -
  have "int (unat v + unat w) < int (2 ^ LENGTH('a))" using assms by (simp only: of_nat_less_iff)
  then have "uint v + uint w < 2 ^ LENGTH('a)" by simp
  then show ?thesis by (simp add: uint_add_lem)
qed

lemma uint_add_fits:
  assumes "fits256 v w"
  shows "uint (v + w) = uint v + uint w"
proof -
  have "LENGTH(256) = 256" by simp
  with assms show ?thesis by (intro uint_add_small) (simp only: )
qed

definition holdings :: "address set \<Rightarrow> ledger \<Rightarrow> int" where
  "holdings A L = (\<Sum>a\<in>A. uint (l_balance L a))"

text \<open>
  The balances add up to the supply. The supply of a wrapped token is the value locked in it, and nobody
  can mint it; a token that is not wrapped holds no value.
\<close>

definition books_balance :: "address set \<Rightarrow> int \<Rightarrow> ledger \<Rightarrow> bool" where
  "books_balance A locked L =
     (holdings A L = uint (l_supply L) \<and>
      (if l_wrapped L then l_minter L = 0 \<and> locked = uint (l_supply L) else locked = 0))"

lemma holdings_update:
  assumes "finite A" "a \<in> A"
  shows "(\<Sum>x\<in>A. uint ((f(a := v)) x)) = (\<Sum>x\<in>A. uint (f x)) - uint (f a) + uint v"
  using assms by (simp add: sum.remove [OF assms])

definition inflow :: "shared_context \<Rightarrow> reply \<Rightarrow> int" where
  "inflow ctx R = uint (contract_value (contract ctx)) - sum_list (map (uint \<circ> snd) (snd (snd R)))"

abbreviation roles :: "ledger \<Rightarrow> address \<times> bool" where
  "roles L \<equiv> (l_minter L, l_wrapped L)"

lemma debit_books:
  assumes "debit a v L = Some L'" "finite A" "a \<in> A"
  shows "holdings A L' = holdings A L - uint v \<and> l_supply L' = l_supply L \<and> roles L' = roles L"
  using assms holdings_update [of A a "l_balance L" "l_balance L a - v"]
  by (auto simp: debit_def holdings_def uint_sub simp del: fun_upd_apply split: if_splits)

lemma credit_books:
  assumes "credit a v L = Some L'" "finite A" "a \<in> A"
  shows "holdings A L' = holdings A L + uint v \<and> l_supply L' = l_supply L \<and> roles L' = roles L"
  using assms holdings_update [of A a "l_balance L" "l_balance L a + v"] uint_add_fits [of "l_balance L a" v]
  by (auto simp: credit_def holdings_def simp del: fun_upd_apply split: if_splits)

lemma supply_books:
  "issue v L = Some L' \<Longrightarrow> holdings A L' = holdings A L \<and> uint (l_supply L') = uint (l_supply L) + uint v \<and> roles L' = roles L"
  "redeem v L = Some L' \<Longrightarrow> holdings A L' = holdings A L \<and> uint (l_supply L') = uint (l_supply L) - uint v \<and> roles L' = roles L"
  "spend a b v L = Some L' \<Longrightarrow> holdings A L' = holdings A L \<and> l_supply L' = l_supply L \<and> roles L' = roles L"
  using uint_add_fits [of "l_supply L" v]
  by (auto simp: issue_def redeem_def spend_def set_allowance_def Let_def holdings_def uint_sub split: if_splits)

lemma guarded_Some: "(guarded b x = Some y) = (b \<and> x = Some y)"
  by (simp add: guarded_def)

lemmas spec_cases = guarded_Some bind_eq_Some_conv

text \<open>Calls that leave balances, supply, minter and wrapping alone, and carry and pay no value.\<close>

fun moves_tokens :: "token_call \<Rightarrow> bool" where
  "moves_tokens (Transfer c) = True"
| "moves_tokens (Transfer_from c) = True"
| "moves_tokens (Mint c) = True"
| "moves_tokens (Burn c) = True"
| "moves_tokens Deposit = True"
| "moves_tokens (Withdraw c) = True"
| "moves_tokens _ = False"

lemma spec_frame:
  assumes "token_spec keccak ecrecover ctx c L = Some L'" "\<not> moves_tokens c"
  shows "l_balance L' = l_balance L \<and> l_supply L' = l_supply L \<and> roles L' = roles L \<and>
     inflow ctx (token_reply keccak ctx c L) = 0"
  using assms by (cases c; clarsimp simp: spec_cases set_allowance_def inflow_def)

lemma neutral_books:
  assumes "books_balance A n L" "holdings A L' = holdings A L" "l_supply L' = l_supply L" "roles L' = roles L"
    "inflow ctx R = 0"
  shows "books_balance A (n + inflow ctx R) L'"
  using assms by (simp add: books_balance_def)

lemma spec_books:
  assumes A: "finite A" "call_accounts (contract_caller (contract ctx)) c \<subseteq> A"
    and L: "books_balance A n L" "token_spec keccak ecrecover ctx c L = Some L'"
  shows "books_balance A (n + inflow ctx (token_reply keccak ctx c L)) L'"
proof (cases "moves_tokens c")
  case False
  from spec_frame [OF L(2) this] show ?thesis by (intro neutral_books [OF L(1)]) (simp_all add: holdings_def)
next
  case True
  then show ?thesis
  proof (cases c)
    case (Transfer x)
    then obtain L1 where "debit (contract_caller (contract ctx)) (transfer_amount x) L = Some L1"
      "credit (transfer_to x) (transfer_amount x) L1 = Some L'" "contract_value (contract ctx) = 0"
      using L(2) by (auto simp: spec_cases)
    with debit_books [OF this(1) A(1)] credit_books [OF this(2) A(1)] A(2) show ?thesis
      by (intro neutral_books [OF L(1)]) (simp_all add: Transfer inflow_def)
  next
    case (Transfer_from x)
    then obtain L1 L2 where "spend (transfer_from_from x) (contract_caller (contract ctx)) (transfer_from_amount x) L = Some L1"
      "debit (transfer_from_from x) (transfer_from_amount x) L1 = Some L2"
      "credit (transfer_from_to x) (transfer_from_amount x) L2 = Some L'" "contract_value (contract ctx) = 0"
      using L(2) by (auto simp: spec_cases)
    with supply_books(3) [OF this(1)] debit_books [OF this(2) A(1)] credit_books [OF this(3) A(1)] A(2) show ?thesis
      by (intro neutral_books [OF L(1)]) (simp_all add: Transfer_from inflow_def)
  next
    case (Mint x)
    then obtain L1 where "issue (mint_amount x) L = Some L1" "credit (mint_to x) (mint_amount x) L1 = Some L'"
      "contract_value (contract ctx) = 0" "l_minter L \<noteq> 0"
      using L(2) by (auto simp: spec_cases)
    with supply_books(1) [OF this(1), of A] credit_books [OF this(2) A(1)] A(2) L(1) Mint show ?thesis
      by (simp add: books_balance_def inflow_def split: if_splits)
  next
    case (Burn x)
    then obtain L1 where "redeem (burn_amount x) L = Some L1" "debit (burn_from x) (burn_amount x) L1 = Some L'"
      "contract_value (contract ctx) = 0" "l_minter L \<noteq> 0"
      using L(2) by (auto simp: spec_cases)
    with supply_books(2) [OF this(1), of A] debit_books [OF this(2) A(1)] A(2) L(1) Burn show ?thesis
      by (simp add: books_balance_def inflow_def split: if_splits)
  next
    case Deposit
    then obtain L1 where "credit (contract_caller (contract ctx)) (contract_value (contract ctx)) L = Some L1"
      "issue (contract_value (contract ctx)) L1 = Some L'" "l_wrapped L"
      using L(2) by (auto simp: spec_cases)
    with credit_books [OF this(1) A(1)] supply_books(1) [OF this(2), of A] A(2) L(1) Deposit show ?thesis
      by (simp add: books_balance_def inflow_def Let_def)
  next
    case (Withdraw x)
    then obtain L1 where "debit (contract_caller (contract ctx)) (withdraw_amount x) L = Some L1"
      "redeem (withdraw_amount x) L1 = Some L'" "l_wrapped L" "contract_value (contract ctx) = 0"
      using L(2) by (auto simp: spec_cases)
    with debit_books [OF this(1) A(1)] supply_books(2) [OF this(2), of A] A(2) L(1) Withdraw show ?thesis
      by (simp add: books_balance_def inflow_def Let_def)
  qed simp_all
qed

section \<open>Histories\<close>

definition value_kept :: "shared_context \<Rightarrow> token_result \<Rightarrow> int" where
  "value_kept ctx r = (if result_exit r = Ok () then inflow ctx (result_reply r) else 0)"

inductive token_history :: "hash \<Rightarrow> recover \<Rightarrow> address set \<Rightarrow> (u256 \<Rightarrow> u256) \<Rightarrow> byte list \<Rightarrow> int \<Rightarrow> bool"
  for keccak ecrecover A where
  deployed: "token_history keccak ecrecover A (result_storage r) md 0"
  if "fresh_storage keccak A G" "length input \<le> max_buf" "contract_caller (contract ctx) \<in> A"
    "r = deploy_token keccak G input ctx fuel" "result_exit r = Ok ()" "result_metadata r = Some md"
| called: "token_history keccak ecrecover A (result_storage r) md (locked + value_kept ctx r)"
  if "token_history keccak ecrecover A G md locked" "length input \<le> max_buf"
    "\<forall>c. parse_input md input = Some c \<longrightarrow> call_accounts (contract_caller (contract ctx)) c \<subseteq> A"
    "r = call_token keccak ecrecover G md input ctx fuel"

text \<open>A call either does what the specification says or changes nothing.\<close>

lemma call_token_cases:
  assumes "collision_free keccak A" "length input \<le> max_buf"
    "\<forall>c. parse_input md input = Some c \<longrightarrow> call_accounts (contract_caller (contract ctx)) c \<subseteq> A"
    and r: "r = call_token keccak ecrecover G md input ctx fuel"
  obtains (accepted) c where "parse_input md input = Some c" "result_exit r = Ok ()"
      "token_spec keccak ecrecover ctx c (ledger_of keccak A G) = Some (ledger_of keccak A (result_storage r))"
      "result_reply r = token_reply keccak ctx c (ledger_of keccak A G)"
      "call_accounts (contract_caller (contract ctx)) c \<subseteq> A"
    | (rejected) e where "result_exit r = Err e" "result_storage r = G"
proof -
  have "result_meets keccak ecrecover A G ctx (parse_input md input) r"
    unfolding r using assms(1-3) by (intro call_token_meets) auto
  then show thesis
    using that assms(3) by (cases "parse_input md input") (auto simp: result_meets_def Let_def split: option.splits)
qed

lemma deploy_token_cases:
  assumes "collision_free keccak A" "fresh_storage keccak A G" "length input \<le> max_buf" "contract_caller (contract ctx) \<in> A"
    and "r = deploy_token keccak G input ctx fuel" "result_exit r = Ok ()"
  obtains st where "acceptable ctx fuel st" "ledger_of keccak A (result_storage r) = initial_ledger st (contract_caller (contract ctx))"
    "encode_with_prefix st = Ok (the (result_metadata r))"
proof -
  have "deployment_meets keccak A G ctx fuel input r" unfolding assms(5) using assms(1-4) by (intro deploy_token_meets)
  then show thesis using that assms(6)
    by (auto simp: deployment_meets_def deploy_spec_def split: option.splits outcome.splits if_splits)
qed

lemma initial_books:
  assumes "acceptable ctx fuel st" "finite A" "a \<in> A"
  shows "books_balance A 0 (initial_ledger st a)"
  using assms holdings_update [of A a "\<lambda>_. 0" "initial_supply st"]
  by (auto simp: books_balance_def initial_ledger_def holdings_def acceptable_def simp del: fun_upd_apply)

text \<open>
  C2. The books of a token always balance. Whatever calls follow the deployment, from whichever accounts,
  with valid or malformed input, the balances add up to the total supply, and the native value the token
  has taken in and not paid out equals the supply of a wrapped token, which nobody can mint, and is zero
  for every other token.
\<close>

theorem token_books_balance:
  assumes "collision_free keccak A" "finite A" "token_history keccak ecrecover A G md locked"
  shows "books_balance A locked (ledger_of keccak A G)"
  using assms(3)
proof induction
  case (deployed G input ctx r fuel md)
  from deploy_token_cases [OF assms(1) deployed(1-5)] initial_books [OF _ assms(2) deployed(3)]
  show ?case by metis
next
  case (called G md locked input ctx r fuel)
  from assms(1) called(2-4) show ?case
  proof (cases rule: call_token_cases)
    case (accepted c)
    with spec_books [OF assms(2) _ called(5)] show ?thesis by (simp add: value_kept_def)
  next
    case (rejected e)
    with called(5) show ?thesis by (simp add: value_kept_def)
  qed
qed

lemma toy_history:
  "\<exists>G md. token_history toy_hash (\<lambda>_ _ _. None) {4, 5} G md 0 \<and> l_supply (ledger_of toy_hash {4, 5} G) = 1000 \<and>
     l_balance (ledger_of toy_hash {4, 5} G) 4 = 1000 \<and> \<not> l_frozen (ledger_of toy_hash {4, 5} G)"
proof -
  let ?r = "deploy_token toy_hash (\<lambda>_. 0) toy_payload example_context 1000000"
  have "deployment_meets toy_hash {4, 5} (\<lambda>_. 0) example_context 1000000 toy_payload ?r"
    by (rule deploy_token_meets [OF toy_collision_free _ toy_fresh]) (simp_all add: toy_deploy example_caller)
  then have r: "result_exit ?r = Ok ()" "result_metadata ?r = Some toy_payload"
    "ledger_of toy_hash {4, 5} (result_storage ?r) = initial_ledger toy_settings 4"
    by (simp_all add: deployment_meets_def toy_deploy example_caller)
  have "token_history toy_hash (\<lambda>_ _ _. None) {4, 5} (result_storage ?r) toy_payload 0"
    by (rule deployed [OF toy_fresh _ _ refl r(1,2)]) (simp_all add: toy_deploy example_caller)
  with r(3) show ?thesis by (intro exI conjI) (assumption | simp add: initial_ledger_def toy_fields del: ledger_maps ledger_sel)+
qed

theorem token_books_balance_witness:
  "\<exists>G md. token_history toy_hash (\<lambda>_ _ _. None) {4, 5} G md 0 \<and> l_supply (ledger_of toy_hash {4, 5} G) = 1000 \<and>
     books_balance {4, 5} 0 (ledger_of toy_hash {4, 5} G)"
proof -
  obtain G md where "token_history toy_hash (\<lambda>_ _ _. None) {4, 5} G md 0" "l_supply (ledger_of toy_hash {4, 5} G) = 1000"
    using toy_history by blast
  then show ?thesis using token_books_balance [OF toy_collision_free _ \<open>token_history _ _ _ _ _ _\<close>] by blast
qed

section \<open>Who can move tokens\<close>

lemma debit_Some:
  "debit a v L = Some L' \<Longrightarrow> v \<le> l_balance L a \<and> L' = L\<lparr>l_balance := (l_balance L)(a := l_balance L a - v)\<rparr>"
  by (simp add: debit_def split: if_splits)

lemma credit_Some:
  assumes "credit b v L = Some L'"
  shows "L' = L\<lparr>l_balance := (l_balance L)(b := l_balance L b + v)\<rparr>" "l_balance L a \<le> l_balance L' a"
proof -
  have f: "fits256 (l_balance L b) v" and L': "L' = L\<lparr>l_balance := (l_balance L)(b := l_balance L b + v)\<rparr>"
    using assms by (simp_all add: credit_def split: if_splits)
  show "L' = L\<lparr>l_balance := (l_balance L)(b := l_balance L b + v)\<rparr>" by (rule L')
  show "l_balance L a \<le> l_balance L' a" using uint_add_fits [OF f] by (simp add: L' word_le_def)
qed

lemma supply_Some:
  "issue v L = Some L' \<Longrightarrow> \<exists>t. L' = L\<lparr>l_supply := t\<rparr>"
  "redeem v L = Some L' \<Longrightarrow> \<exists>t. L' = L\<lparr>l_supply := t\<rparr>"
  by (auto simp: issue_def redeem_def split: if_splits)

lemma spend_Some:
  assumes "spend a b v L = Some L'"
  shows "l_balance L' = l_balance L" "l_allowance L a b = - 1 \<or> uint (l_allowance L' a b) = uint (l_allowance L a b) - uint v"
  using assms by (auto simp: spend_def set_allowance_def uint_sub Let_def split: if_splits)

text \<open>The debits of the specification: the caller's own tokens, an allowance, or the minter.\<close>

definition may_debit :: "address \<Rightarrow> token_call \<Rightarrow> address \<Rightarrow> ledger \<Rightarrow> ledger \<Rightarrow> bool" where
  "may_debit caller c a L L' =
     (caller = a \<or>
      (\<exists>x. c = Transfer_from x \<and> transfer_from_from x = a \<and>
         (l_allowance L a caller = - 1 \<or> uint (l_allowance L' a caller) = uint (l_allowance L a caller) - uint (transfer_from_amount x))) \<or>
      (\<exists>x. c = Burn x \<and> burn_from x = a) \<and> caller = l_minter L \<and> caller \<noteq> 0)"

lemma spec_debits:
  assumes "token_spec keccak ecrecover ctx c L = Some L'" "l_balance L' a < l_balance L a"
  shows "may_debit (contract_caller (contract ctx)) c a L L'"
proof (cases "moves_tokens c")
  case False
  from spec_frame [OF assms(1) this] assms(2) show ?thesis by simp
next
  case True
  then show ?thesis
  proof (cases c)
    case (Transfer x)
    then obtain L1 where "debit (contract_caller (contract ctx)) (transfer_amount x) L = Some L1"
      "credit (transfer_to x) (transfer_amount x) L1 = Some L'" using assms(1) by (auto simp: spec_cases)
    with assms(2) debit_Some [OF this(1)] credit_Some(2) [OF this(2), of a] show ?thesis
      by (auto simp: may_debit_def split: if_splits)
  next
    case (Transfer_from x)
    then obtain L1 L2 where "spend (transfer_from_from x) (contract_caller (contract ctx)) (transfer_from_amount x) L = Some L1"
      "debit (transfer_from_from x) (transfer_from_amount x) L1 = Some L2"
      "credit (transfer_from_to x) (transfer_from_amount x) L2 = Some L'" using assms(1) by (auto simp: spec_cases)
    with assms(2) spend_Some [OF this(1)] debit_Some [OF this(2)] credit_Some(1) [OF this(3)] credit_Some(2) [OF this(3), of a]
    show ?thesis by (auto simp: may_debit_def Transfer_from split: if_splits)
  next
    case (Mint x)
    then obtain L1 where "issue (mint_amount x) L = Some L1" "credit (mint_to x) (mint_amount x) L1 = Some L'"
      using assms(1) by (auto simp: spec_cases)
    with assms(2) supply_Some(1) [OF this(1)] credit_Some(2) [OF this(2), of a] show ?thesis by auto
  next
    case (Burn x)
    then obtain L1 where "redeem (burn_amount x) L = Some L1" "debit (burn_from x) (burn_amount x) L1 = Some L'"
      "contract_caller (contract ctx) = l_minter L" "l_minter L \<noteq> 0" using assms(1) by (auto simp: spec_cases)
    with assms(2) supply_Some(2) [OF this(1)] debit_Some [OF this(2)] show ?thesis
      by (auto simp: may_debit_def Burn split: if_splits)
  next
    case Deposit
    then obtain L1 where "credit (contract_caller (contract ctx)) (contract_value (contract ctx)) L = Some L1"
      "issue (contract_value (contract ctx)) L1 = Some L'" using assms(1) by (auto simp: spec_cases)
    with assms(2) credit_Some(2) [OF this(1), of a] supply_Some(1) [OF this(2)] show ?thesis by auto
  next
    case (Withdraw x)
    then obtain L1 where "debit (contract_caller (contract ctx)) (withdraw_amount x) L = Some L1"
      "redeem (withdraw_amount x) L1 = Some L'" using assms(1) by (auto simp: spec_cases)
    with assms(2) debit_Some [OF this(1)] supply_Some(2) [OF this(2)] show ?thesis
      by (auto simp: may_debit_def split: if_splits)
  qed simp_all
qed

text \<open>
  C3. Nobody loses tokens without authority: if a call lowers the balance of an account, the call
  succeeded and its caller is the account itself, or a spender that uses up as much of the account's
  allowance as it moves (an unlimited one stays), or the minter burning tokens.
\<close>

theorem balance_debits_authorized:
  assumes "collision_free keccak A" "length input \<le> max_buf"
    "\<forall>c. parse_input md input = Some c \<longrightarrow> call_accounts (contract_caller (contract ctx)) c \<subseteq> A"
    and "r = call_token keccak ecrecover G md input ctx fuel"
    and less: "l_balance (ledger_of keccak A (result_storage r)) a < l_balance (ledger_of keccak A G) a"
  shows "result_exit r = Ok () \<and> (\<exists>c. parse_input md input = Some c \<and>
     may_debit (contract_caller (contract ctx)) c a (ledger_of keccak A G) (ledger_of keccak A (result_storage r)))"
  using assms(1-4)
proof (cases rule: call_token_cases)
  case (accepted c)
  with spec_debits [OF accepted(3) less] show ?thesis by simp
next
  case (rejected e)
  with less show ?thesis by simp
qed

lemma toy_call:
  assumes "r = call_token toy_hash (\<lambda>_ _ _. None) toy_storage [] (sent SIG_ERC20_TRANSFER transfer_encoder \<lparr>transfer_to = 5, transfer_amount = 3\<rparr>)
     example_context 0"
  shows "result_exit r = Ok ()" "l_balance (ledger_of toy_hash {4, 5} (result_storage r)) 4 = 7"
    "l_balance (ledger_of toy_hash {4, 5} toy_storage) 4 = 10"
  using call_token_meets [OF toy_collision_free, of "sent SIG_ERC20_TRANSFER transfer_encoder \<lparr>transfer_to = 5, transfer_amount = 3\<rparr>"
      "[]" example_context "\<lambda>_ _ _. None" toy_storage 0]
  by (simp_all add: assms sent_transfer result_meets_def toy_ledger spec_steps example_context_def Let_def del: ledger_maps)

theorem balance_debits_authorized_witness:
  "let c = \<lparr>transfer_to = 5, transfer_amount = 3\<rparr>; input = sent SIG_ERC20_TRANSFER transfer_encoder c;
       r = call_token toy_hash (\<lambda>_ _ _. None) toy_storage [] input example_context 0
   in l_balance (ledger_of toy_hash {4, 5} (result_storage r)) 4 < l_balance (ledger_of toy_hash {4, 5} toy_storage) 4 \<and>
      result_exit r = Ok () \<and>
      may_debit 4 (Transfer c) 4 (ledger_of toy_hash {4, 5} toy_storage) (ledger_of toy_hash {4, 5} (result_storage r))"
  using balance_debits_authorized [OF toy_collision_free _ _ refl, where
      input = "sent SIG_ERC20_TRANSFER transfer_encoder \<lparr>transfer_to = 5, transfer_amount = 3\<rparr>"
      and md = "[]" and ctx = example_context and ecrecover = "\<lambda>_ _ _. None" and G = toy_storage and fuel = 0 and a = 4]
    toy_call [OF refl]
  by (simp add: sent_transfer example_caller del: ledger_maps)

section \<open>What cannot happen\<close>

lemma frozen_moves: "l_frozen L \<Longrightarrow> moves_tokens c \<Longrightarrow> token_spec keccak ecrecover ctx c L = None"
  by (cases c) (simp_all add: guarded_def)

text \<open>
  C7. A paused token is still: while it is frozen no call changes a balance or the supply, or pays out
  native value, and native value sent to it is refused.
\<close>

theorem frozen_token_is_still:
  assumes "collision_free keccak A" "length input \<le> max_buf"
    "\<forall>c. parse_input md input = Some c \<longrightarrow> call_accounts (contract_caller (contract ctx)) c \<subseteq> A"
    and "r = call_token keccak ecrecover G md input ctx fuel" and frozen: "l_frozen (ledger_of keccak A G)"
  shows "l_balance (ledger_of keccak A (result_storage r)) = l_balance (ledger_of keccak A G) \<and>
     l_supply (ledger_of keccak A (result_storage r)) = l_supply (ledger_of keccak A G) \<and>
     (result_exit r = Ok () \<longrightarrow> inflow ctx (result_reply r) = 0)"
  using assms(1-4)
proof (cases rule: call_token_cases)
  case (accepted c)
  then have "\<not> moves_tokens c" using frozen_moves [OF frozen, of c] by auto
  from spec_frame [OF accepted(3) this] accepted(4) show ?thesis by simp
qed simp

definition toy_frozen :: "u256 \<Rightarrow> u256" where
  "toy_frozen = toy_storage(CONTRACT_FROZEN_STORAGE_SLOT := 1)"

theorem frozen_token_is_still_witness:
  "let input = sent SIG_ERC20_TRANSFER transfer_encoder \<lparr>transfer_to = 5, transfer_amount = 3\<rparr>;
       r = call_token toy_hash (\<lambda>_ _ _. None) toy_frozen [] input example_context 0
   in l_balance (ledger_of toy_hash {4, 5} (result_storage r)) = l_balance (ledger_of toy_hash {4, 5} toy_frozen)"
  using frozen_token_is_still [OF toy_collision_free _ _ refl, where
      input = "sent SIG_ERC20_TRANSFER transfer_encoder \<lparr>transfer_to = 5, transfer_amount = 3\<rparr>"
      and md = "[]" and ctx = example_context and ecrecover = "\<lambda>_ _ _. None" and G = toy_frozen and fuel = 0]
  by (simp add: sent_transfer example_caller toy_frozen_def del: ledger_maps)

lemma spec_static:
  assumes "token_spec keccak ecrecover ctx c L = Some L'" "contract_is_static (contract ctx)"
  shows "L' = L \<and> snd (token_reply keccak ctx c L) = ([], [])"
  using assms by (cases c) (simp_all add: spec_cases)

text \<open>
  C8. A static call cannot have an effect: it leaves the ledger as it is, logs nothing and pays nothing.
\<close>

theorem static_call_has_no_effect:
  assumes "collision_free keccak A" "length input \<le> max_buf"
    "\<forall>c. parse_input md input = Some c \<longrightarrow> call_accounts (contract_caller (contract ctx)) c \<subseteq> A"
    and "r = call_token keccak ecrecover G md input ctx fuel" and static: "contract_is_static (contract ctx)"
  shows "ledger_of keccak A (result_storage r) = ledger_of keccak A G \<and>
     (result_exit r = Ok () \<longrightarrow> snd (result_reply r) = ([], []))"
  using assms(1-4)
proof (cases rule: call_token_cases)
  case (accepted c)
  with spec_static [OF accepted(3) static] show ?thesis by simp
qed simp

definition static_context :: shared_context where
  "static_context = example_context\<lparr>contract := (contract example_context)\<lparr>contract_is_static := True\<rparr>\<rparr>"

lemma parse_total_supply: "parse_input md (to_be_bytes SIG_ERC20_TOTAL_SUPPLY) = Some Total_supply"
  by (simp add: parse_input_def parse_call_def token_neqs)

theorem static_call_has_no_effect_witness:
  "let r = call_token toy_hash (\<lambda>_ _ _. None) toy_storage [] (to_be_bytes SIG_ERC20_TOTAL_SUPPLY) static_context 0
   in ledger_of toy_hash {4, 5} (result_storage r) = ledger_of toy_hash {4, 5} toy_storage"
  using static_call_has_no_effect [OF toy_collision_free _ _ refl, where input = "to_be_bytes SIG_ERC20_TOTAL_SUPPLY"
      and md = "[]" and ctx = static_context and ecrecover = "\<lambda>_ _ _. None" and G = toy_storage and fuel = 0]
  by (simp add: parse_total_supply static_context_def)

lemma spec_supply:
  assumes "token_spec keccak ecrecover ctx c L = Some L'" "l_supply L' \<noteq> l_supply L"
  shows "(\<exists>x. c = Mint x \<or> (\<exists>y. c = Burn y)) \<and> contract_caller (contract ctx) = l_minter L \<and> l_minter L \<noteq> 0 \<or>
     (c = Deposit \<or> (\<exists>x. c = Withdraw x)) \<and> l_wrapped L"
proof (cases "moves_tokens c")
  case False
  from spec_frame [OF assms(1) this] assms(2) show ?thesis by simp
next
  case True
  then show ?thesis using assms
    by (cases c) (auto simp: spec_cases dest!: debit_Some credit_Some(1), auto simp: spend_def set_allowance_def Let_def split: if_splits)
qed

text \<open>
  C6. The supply changes only by authority: if a call changes the total supply it succeeded, and it is a
  mint or a burn by the minter, or a deposit or withdrawal of a wrapped token.
\<close>

theorem supply_changes_authorized:
  assumes "collision_free keccak A" "length input \<le> max_buf"
    "\<forall>c. parse_input md input = Some c \<longrightarrow> call_accounts (contract_caller (contract ctx)) c \<subseteq> A"
    and "r = call_token keccak ecrecover G md input ctx fuel" and L: "L = ledger_of keccak A G"
    and changed: "l_supply (ledger_of keccak A (result_storage r)) \<noteq> l_supply L"
  shows "result_exit r = Ok () \<and> (\<exists>c. parse_input md input = Some c \<and>
     ((\<exists>x. c = Mint x \<or> (\<exists>y. c = Burn y)) \<and> contract_caller (contract ctx) = l_minter L \<and> l_minter L \<noteq> 0 \<or>
      (c = Deposit \<or> (\<exists>x. c = Withdraw x)) \<and> l_wrapped L))"
  using assms(1-4)
proof (cases rule: call_token_cases)
  case (accepted c)
  with spec_supply [OF accepted(3) changed [unfolded L]] show ?thesis unfolding L by blast
next
  case (rejected e)
  with changed show ?thesis by (simp add: L)
qed

definition toy_minted :: "u256 \<Rightarrow> u256" where
  "toy_minted = toy_storage(MINTER_STORAGE_SLOT := 4)"

lemma sent_mint:
  "parse_input md (sent SIG_ERC20_MINT mint_encoder c) = Some (Mint c)" "length (sent SIG_ERC20_MINT mint_encoder c) = 68"
  using mint.round_trip [of c "[]"]
  by (auto simp: sent_def parse_input_def parse_call_def oc_ok_def token_neqs)

lemma toy_mint_ledger:
  "ledger_of toy_hash {4, 5} toy_minted = (ledger_of toy_hash {4, 5} toy_storage)\<lparr>l_minter := 4\<rparr>"
  using slot_address_ucast [of 4] by (simp add: toy_minted_def ledger_update_roles [OF toy_collision_free])

lemma toy_mint:
  assumes "r = call_token toy_hash (\<lambda>_ _ _. None) toy_minted [] (sent SIG_ERC20_MINT mint_encoder \<lparr>mint_to = 5, mint_amount = 2\<rparr>)
     example_context 0"
  shows "l_supply (ledger_of toy_hash {4, 5} (result_storage r)) = 12"
  using call_token_meets [OF toy_collision_free, of "sent SIG_ERC20_MINT mint_encoder \<lparr>mint_to = 5, mint_amount = 2\<rparr>"
      "[]" example_context "\<lambda>_ _ _. None" toy_minted 0]
  by (simp add: assms sent_mint result_meets_def toy_mint_ledger toy_ledger spec_steps example_context_def Let_def
    del: ledger_maps ledger_sel)

theorem supply_changes_authorized_witness:
  "let r = call_token toy_hash (\<lambda>_ _ _. None) toy_minted [] (sent SIG_ERC20_MINT mint_encoder \<lparr>mint_to = 5, mint_amount = 2\<rparr>)
         example_context 0
   in l_supply (ledger_of toy_hash {4, 5} (result_storage r)) = 12 \<and> result_exit r = Ok () \<and>
      contract_caller (contract example_context) = l_minter (ledger_of toy_hash {4, 5} toy_minted)"
  using supply_changes_authorized [OF toy_collision_free _ _ refl refl, where
      input = "sent SIG_ERC20_MINT mint_encoder \<lparr>mint_to = 5, mint_amount = 2\<rparr>"
      and md = "[]" and ctx = example_context and ecrecover = "\<lambda>_ _ _. None" and G = toy_minted and fuel = 0] toy_mint [OF refl]
  by (simp add: sent_mint example_caller toy_mint_ledger toy_ledger del: ledger_maps ledger_sel)

section \<open>Permits\<close>

text \<open>What a call may do to nonces: only an unexpired permit signed by the owner over the current nonce.\<close>

definition valid_permit ::
  "hash \<Rightarrow> recover \<Rightarrow> shared_context \<Rightarrow> token_call \<Rightarrow> address \<Rightarrow> ledger \<Rightarrow> ledger \<Rightarrow> bool" where
  "valid_permit keccak ecrecover ctx c a L L' =
     (\<exists>x. c = Permit x \<and> permit_owner x = a \<and> ucast (timestamp (block ctx)) \<le> permit_deadline x \<and>
        permit_signed keccak ecrecover ctx (l_name L) x (l_nonce L a) \<and>
        l_allowance L' a (permit_spender x) = permit_value x \<and> uint (l_nonce L' a) = uint (l_nonce L a) + 1)"

lemma spec_nonces:
  assumes "token_spec keccak ecrecover ctx c L = Some L'"
  shows "(l_nonce L' a \<noteq> l_nonce L a \<longrightarrow> valid_permit keccak ecrecover ctx c a L L') \<and>
     l_pauser L' = l_pauser L \<and> roles L' = roles L \<and> l_name L' = l_name L \<and> l_symbol L' = l_symbol L \<and> l_decimals L' = l_decimals L"
proof (cases c)
  case (Permit x)
  show ?thesis
    using assms uint_add_fits [of "l_nonce L (permit_owner x)" 1] unfolding Permit token_spec.simps spec_cases
    by (cases "a = permit_owner x") (auto simp: valid_permit_def set_allowance_def)
qed (use assms in \<open>auto simp: spec_cases dest!: debit_Some credit_Some(1) supply_Some simp: spend_def set_allowance_def Let_def split: if_splits\<close>)

text \<open>
  C5. Nonces count permits, and the roles are fixed at deployment: no call changes the minter, the pauser,
  the wrapped flag, the name, the symbol or the decimals, and the nonce of an account changes only by a
  permit that the account signed over that very nonce and that has not expired, which sets the allowance
  to the permitted value and raises the nonce by one.
\<close>

theorem nonce_changes_are_permits:
  assumes "collision_free keccak A" "length input \<le> max_buf"
    "\<forall>c. parse_input md input = Some c \<longrightarrow> call_accounts (contract_caller (contract ctx)) c \<subseteq> A"
    and "r = call_token keccak ecrecover G md input ctx fuel"
    and L: "L = ledger_of keccak A G" "L' = ledger_of keccak A (result_storage r)"
  shows "(l_nonce L' a \<noteq> l_nonce L a \<longrightarrow>
       (\<exists>c. parse_input md input = Some c \<and> valid_permit keccak ecrecover ctx c a L L')) \<and>
     l_minter L' = l_minter L \<and> l_pauser L' = l_pauser L \<and> l_wrapped L' = l_wrapped L \<and> l_name L' = l_name L \<and>
     l_symbol L' = l_symbol L \<and> l_decimals L' = l_decimals L"
  using assms(1-4)
proof (cases rule: call_token_cases)
  case (accepted c)
  from spec_nonces [OF accepted(3), of a] accepted(1) show ?thesis unfolding L by (auto simp del: ledger_sel)
next
  case (rejected e)
  then show ?thesis by (simp add: L)
qed

definition toy_recover :: recover where
  "toy_recover sig rec_id digest = Some (replicate 12 0 @ to_be_bytes (4 :: address))"

definition toy_permit :: permit_command where
  "toy_permit = \<lparr>permit_owner = 4, permit_spender = 5, permit_value = 9, permit_deadline = 1800000000, permit_v = 27,
     permit_r = 1, permit_s = 1\<rparr>"

lemma sent_permit:
  "parse_input md (sent SIG_ERC20_PERMIT permit_encoder c) = Some (Permit c)" "length (sent SIG_ERC20_PERMIT permit_encoder c) = 228"
  using permit.round_trip [of c "[]"]
  by (auto simp: sent_def parse_input_def parse_call_def oc_ok_def token_neqs)

lemma toy_permit_signed: "permit_signed keccak toy_recover ctx name toy_permit n"
proof -
  have "window (replicate 12 0 @ to_be_bytes (4 :: address)) 12 20 = to_be_bytes (4 :: address)" by (simp add: window_def)
  then show ?thesis
    by (simp add: permit_signed_def ecrecover_address_def toy_recover_def toy_permit_def SECP256K1N_HALF_def)
qed

lemma toy_permit_call:
  assumes "r = call_token toy_hash toy_recover toy_storage [] (sent SIG_ERC20_PERMIT permit_encoder toy_permit) example_context 0"
  shows "l_nonce (ledger_of toy_hash {4, 5} (result_storage r)) 4 = 1"
proof -
  have t: "ucast (timestamp (block example_context)) \<le> permit_deadline toy_permit" "permit_owner toy_permit = 4"
    "permit_spender toy_permit = 5" "contract_value (contract example_context) = 0" "\<not> contract_is_static (contract example_context)"
    by (simp_all add: example_context_def toy_permit_def)
  have u: "valid_utf8 (short_string 0)" by (simp add: short_string_def) code_simp
  show ?thesis
    using call_token_meets [OF toy_collision_free, of "sent SIG_ERC20_PERMIT permit_encoder toy_permit" "[]" example_context
        toy_recover toy_storage 0] t u
    by (simp add: assms sent_permit result_meets_def toy_ledger spec_steps set_allowance_def toy_permit_signed del: ledger_maps ledger_sel)
qed

theorem nonce_changes_are_permits_witness:
  "let r = call_token toy_hash toy_recover toy_storage [] (sent SIG_ERC20_PERMIT permit_encoder toy_permit) example_context 0;
       L = ledger_of toy_hash {4, 5} toy_storage; L' = ledger_of toy_hash {4, 5} (result_storage r)
   in l_nonce L' 4 = 1 \<and> valid_permit toy_hash toy_recover example_context (Permit toy_permit) 4 L L'"
  using nonce_changes_are_permits [OF toy_collision_free _ _ refl refl refl, where
      input = "sent SIG_ERC20_PERMIT permit_encoder toy_permit" and md = "[]" and ctx = example_context and
      ecrecover = toy_recover and G = toy_storage and fuel = 0 and a = 4] toy_permit_call [OF refl]
  by (simp add: sent_permit toy_ledger del: ledger_maps ledger_sel) (simp add: toy_permit_def)

end
