(* ===== verification/Spec2Isabelle.thy ===== *)
theory Spec2Isabelle
  imports Leb128 Host_Request Storage_Bytes Storage_Layout Token_Supply
begin

text \<open>
  A verification of fluentbase: contracts compiled to rWasm, the SDK they are written with, the
  universal token, and the host that serves their system calls.

  \<^bold>\<open>The program and its parts.\<close> A contract sees its input as bytes and decodes it with the ABI codec
  (\<open>crates/codec\<close>, with the derive macros of \<open>crates/codec-derive\<close>). Its persistent variables are laid
  out in 256-bit slots by the storage layer (\<open>crates/sdk/src/storage\<close>, \<open>crates/sdk-derive\<close>). An ordinary
  contract reaches the chain through system calls: the SDK encodes a request into a buffer
  (\<open>crates/sdk/src/syscall\<close>, \<open>shared.rs\<close>), the runtime interrupts, and the host
  (\<open>crates/revm/src/syscall.rs\<close>) reads the buffer, charges gas, works on the journal of REVM and answers
  or opens a new frame. A system contract instead gets the slots it needs in advance and returns a diff
  (\<open>crates/types/src/system/journal_storage.rs\<close>, \<open>crates/sdk/src/system.rs\<close>). The universal token
  (\<open>contracts/universal-token\<close>, \<open>crates/sdk/src/universal_token\<close>) is such a system contract. Exit codes
  (\<open>crates/types/src/exit_code.rs\<close>) travel between all of them, through the EVM's instruction results
  (\<open>crates/evm/src/types.rs\<close>) where frames meet.

  \<^bold>\<open>Modelling conventions.\<close> Fallible functions return an \<open>outcome\<close>: \<open>Ok\<close>, \<open>Err\<close> or \<open>Panic\<close>, so that a slice
  out of range, an \<open>unwrap\<close> of an error or a failed assertion is a value and its absence is proved.
  Stateful code is a \<open>comp\<close>, a function from the state to an outcome and the new state; the handlers of
  the host, which leave in the middle with a result, a halt or a frame, are functions from the world to
  an exit or a value and the new world (\<open>host\<close>). Machine integers are words of their width. Traits are
  records of their constants and methods. The target of the contracts has 32-bit \<open>usize\<close>.

  \<^bold>\<open>The theories.\<close>
  \<^item> \<open>Prelude\<close>: outcomes, buffers, byte orders.
  \<^item> \<open>Codec_Encoder\<close> (\<open>error.rs\<close>, \<open>encoder.rs\<close>), \<open>Codec_Primitive\<close> (\<open>primitive.rs\<close>, the fixed-size types of
    \<open>evm.rs\<close>), \<open>Codec_Bytes\<close> (\<open>bytes_codec.rs\<close>, byte strings of \<open>evm.rs\<close>), \<open>Codec_Vec\<close> (\<open>vec.rs\<close>), \<open>Codec_Struct\<close>
    (\<open>codec-derive\<close>, \<open>tuple.rs\<close>, \<open>func.rs\<close>), \<open>Codec_Topic\<close> (\<open>topic.rs\<close>). The contract of an encoder is the
    locale \<open>static_codec\<close> for one window of fixed size and \<open>lawful_codec\<close> for headers with tails; every
    encoder that keeps it is an interpretation, and vectors, structs and tuples of lawful parts are
    shown lawful again. The round trips hold in any surrounding buffer and leave its other bytes alone;
    where a combination of types does not survive, a theorem exhibits it.
  \<^item> \<open>Exit_Code\<close> (\<open>exit_code.rs\<close>, \<open>types/src/syscall.rs\<close>), \<open>Evm_Result\<close> (\<open>evm/src/types.rs\<close>): exit codes, their
    integers, and their passage through EVM results.
  \<^item> \<open>Storage_Base\<close> (\<open>storage/mod.rs\<close>, \<open>primitive.rs\<close>, \<open>mock.rs\<close>), \<open>Storage_Collections\<close> (\<open>map.rs\<close>, \<open>array.rs\<close>,
    \<open>vec.rs\<close>), \<open>Storage_Bytes\<close> (\<open>bytes.rs\<close>), \<open>Storage_Layout\<close> (\<open>derive-core/src/storage.rs\<close>). The locale
    \<open>storage_spec\<close> is what a store promises; it is interpreted on the mock storage and on the system
    context, \<open>packable\<close> on the packed types. Packed values do not disturb each other, vectors refine
    lists, byte strings refine byte lists, derived layouts do not overlap.
  \<^item> \<open>Journal\<close> (\<open>journal_storage.rs\<close>), \<open>System_Context\<close> (\<open>system.rs\<close>, \<open>system/state.rs\<close>, \<open>types/context.rs\<close>,
    \<open>types/sdk.rs\<close>): the environment of a system contract. The journal refines a map, and its diff
    holds only real changes.
  \<^item> \<open>Token_Command\<close> (\<open>consts.rs\<close>, \<open>command.rs\<close>), \<open>Token_Settings\<close> and \<open>Token_Keys\<close> (\<open>universal_token/storage.rs\<close>),
    \<open>Token\<close> (\<open>universal-token/src/lib.rs\<close>, \<open>erc2612.rs\<close>): the token as it is written.
    \<open>Token_Spec\<close> is its specification, a ledger with one transition per call. \<open>Token_Run\<close>,
    \<open>Token_Refine\<close>, \<open>Token_Ledger\<close> and \<open>Token_Deploy\<close> show that calls and deployments implement it on
    every input, and \<open>Token_Supply\<close> derives what holds throughout the life of a token: the books
    balance, and balances, supply and nonces change only by authority.
  \<^item> \<open>Syscall_Encode\<close> (\<open>syscall.rs\<close>, \<open>syscall/encode.rs\<close>, \<open>shared.rs\<close>): requests as contracts encode them.
    \<open>Evm_Metadata\<close> (\<open>evm/src/bytecode.rs\<close>, \<open>metadata.rs\<close>): EVM code as accounts keep it. \<open>Host_Base\<close>
    (\<open>gas.rs\<close>, \<open>types.rs\<close>, \<open>result.rs\<close>, \<open>sdk/src/address.rs\<close>, \<open>genesis.rs\<close>) and \<open>Host_Syscall\<close>
    (\<open>revm/src/syscall.rs\<close>): the host, one definition per system call. \<open>Host_Safety\<close> shows what a
    contract can change through it: nothing from a static frame, and otherwise only what it owns.
    \<open>Host_Request\<close> shows that encoder and host agree on every request.
  \<^item> \<open>Leb128\<close> (\<open>sdk/src/leb128.rs\<close>): variable-length integers.

  \<^bold>\<open>Parameters.\<close> Code outside the repository is an argument of the definitions that use it: \<open>keccak\<close> and
  \<open>ecrecover\<close>; \<open>bincode\<close> and the jump analysis in \<open>Evm_Metadata\<close>; the journal, the gas meter, the gas
  schedule and the bytecode type of REVM, collected in the record \<open>revm\<close>. What the theorems need of them
  is named: \<open>collision_free\<close> (the hash keeps the slots of the accounts involved apart), \<open>lawful_bincode\<close>,
  \<open>lawful_analysis\<close>, \<open>loads_quiet\<close> and \<open>lawful_journal\<close> (loads change nothing that is observed, a write
  changes one slot, \<open>set_code\<close> one account). Each is met by a concrete instance in a witness.
  \<open>max_buf\<close>, 2 GiB, bounds buffers so that positions fit the 32-bit \<open>usize\<close>.

  \<^bold>\<open>Recursion.\<close> No definition needs fuel: loops are structural recursions over the data they walk through,
  and the LEB128 writers come with a termination proof by the magnitude of the number.
  The \<open>fuel\<close> of frames and system calls is the one of the program.

  \<^bold>\<open>Not modelled.\<close> The rWasm runtime and the driver of frames wrap third-party engines; the EVM
  interpreter is REVM's; the SVM is a port of another system; the remaining precompiles and verifiers
  are input checks around cryptographic libraries; the runtime upgrade, EIP-2935 and fee manager
  contracts are not translated, although the system calls that upgrade code are, on the side of the
  host; the routers and clients the SDK macros generate are syntax manipulation; \<open>calc_create_address\<close>
  needs an RLP encoder; hash maps in the codec need the iteration of a third-party map; the node,
  genesis, build and command line tools are configuration and input-output. Inspector hooks and debug
  output of the host are left out because they do not influence the outcome.
\<close>

end
